theory Spec2Isabelle
  imports Complex_Main "HOL-Library.Multiset"
begin

section \<open>Grade adjustment model (Coefficients.js)\<close>

text \<open>
  JavaScript numbers are IEEE-754 binary64 values. The default model is embedded twice:
  \<open>calculateGradeAdjustment\<close> is the exact value of the formula the code writes down,
  over the reals, and \<open>calculateGradeAdjustment_binary64\<close> is the value the code
  computes, every literal and every operation rounded to binary64. The binning and the
  aggregation are embedded over the reals; \<open>NaN\<close> is \<open>None\<close> where the code can
  receive or produce it, and the infinities are outside the model.
\<close>

record gap_coefficients =
  coeff_a :: real
  coeff_b :: real
  coeff_c :: real
  coeff_d :: real
  coeff_e :: real

definition GAP_COEFFICIENTS :: gap_coefficients where
  "GAP_COEFFICIENTS =
     \<lparr> coeff_a = - 5294439830640173 / 10 ^ 22,
       coeff_b = - 3989571857841264 / 10 ^ 21,
       coeff_c = 20535661142752205 / 10 ^ 19,
       coeff_d = 3265674125152065 / 10 ^ 17,
       coeff_e = 1 \<rparr>"

definition calculateGradeAdjustment :: "real \<Rightarrow> real" where
  "calculateGradeAdjustment gradientPercent =
     (let clampedGradient = max (- 35) (min 35 gradientPercent);
          adjustment = 1 + (clampedGradient * (33 / 1000))
                         + (clampedGradient * clampedGradient * (233 / 1000000))
      in max (3 / 10) adjustment)"

subsection \<open>Binary64 arithmetic\<close>

text \<open>
  A finite binary64 value is a real number with a significand of 53 bits. A literal and
  the exact result of an operation are rounded to the nearest such value, ties to the one
  with an even significand. \<open>ulpExponent x\<close> is the exponent of the unit in the last
  place at \<open>x\<close>: 52 places below the leading bit of \<open>x\<close>, and \<open>-1074\<close> for the
  subnormal values. Overflow to an infinity is not modelled; the magnitudes in
  \<open>calculateGradeAdjustment\<close> stay below \<open>2^11\<close>.
\<close>

definition roundTiesToEven :: "real \<Rightarrow> int" where
  "roundTiesToEven r =
     (let f = \<lfloor>r\<rfloor> in
      if r - of_int f < 1 / 2 then f
      else if 1 / 2 < r - of_int f then f + 1
      else if even f then f else f + 1)"

definition ulpExponent :: "real \<Rightarrow> int" where
  "ulpExponent x = max \<lfloor>log 2 \<bar>x\<bar>\<rfloor> (- 1022) - 52"

definition binary64 :: "real \<Rightarrow> real" where
  "binary64 x =
     (if x = 0 then 0
      else of_int (roundTiesToEven (x / 2 powi ulpExponent x)) * 2 powi ulpExponent x)"

text \<open>
  \<open>Math.max\<close> and \<open>Math.min\<close> are exact, so the clamped gradient of a binary64
  input is that input or one of the bounds. The sum is evaluated from the left.
\<close>

definition calculateGradeAdjustment_binary64 :: "real \<Rightarrow> real" where
  "calculateGradeAdjustment_binary64 gradientPercent =
     (let clampedGradient = max (- 35) (min 35 gradientPercent);
          adjustment =
            binary64 (binary64 (1 + binary64 (clampedGradient * binary64 (33 / 1000)))
                      + binary64 (binary64 (clampedGradient * clampedGradient)
                                  * binary64 (233 / 1000000)))
      in max (binary64 (3 / 10)) adjustment)"

definition adjustment64 :: "real \<Rightarrow> real" where
  \<comment> \<open>the value of \<open>adjustment\<close> for a clamped gradient, for stating lemmas\<close>
  "adjustment64 c =
     binary64 (binary64 (1 + binary64 (c * binary64 (33 / 1000)))
               + binary64 (binary64 (c * c) * binary64 (233 / 1000000)))"

section \<open>Distance binning engine (gpxBinning.js)\<close>

subsection \<open>Points and bins\<close>

text \<open>
  A route point as the parsers build it. \<open>lat\<close> and \<open>lon\<close> are passed on as the parser
  gives them: a number, or \<open>NaN\<close> for a point without a usable coordinate, which is
  \<open>None\<close> here. \<open>ele\<close> is always a number (\<open>pt.ele || 0\<close>), \<open>time\<close> is a
  \<open>Date\<close> object or \<open>null\<close>, \<open>heartRate\<close> a number or \<open>null\<close>. A \<open>Date\<close> is
  either a number of milliseconds since the epoch or the invalid date, whose numeric value
  is \<open>NaN\<close>.
\<close>

datatype js_date = ValidDate int | InvalidDate

record point =
  lat :: "real option"
  lon :: "real option"
  ele :: real
  time :: "js_date option"
  heartRate :: "real option"

text \<open>
  A bin as \<open>getAnalysisBins\<close> pushes it. \<open>null\<close> is \<open>None\<close>. The field
  \<open>avgSpeed\<close> is not written by \<open>getAnalysisBins\<close> (reading it there gives
  \<open>undefined\<close>, modelled as \<open>None\<close>); the filter endpoint reads it on bins that carry it.
\<close>

record bin =
  distance :: real
  elevationChange :: real
  gradient :: real
  timeTaken :: "string option"
  timeInSeconds :: real
  velocity :: "real option"
  pace_min_per_km :: "real option"
  adjustedTime :: real
  gradeAdjustedDistance :: "real option"
  startIdx :: nat
  endIdx :: nat
  startTime :: "js_date option"
  endTime :: "js_date option"
  avgHeartRate :: "real option"
  maxHeartRate :: "real option"
  minHeartRate :: "real option"
  heartRateDataPoints :: nat
  avgSpeed :: "real option"

subsection \<open>Number formatting\<close>

definition digit_char :: "nat \<Rightarrow> char" where
  "digit_char d = char_of (48 + d)"

fun toString_nat :: "nat \<Rightarrow> string" where
  "toString_nat n =
     (if n < 10 then [digit_char n] else toString_nat (n div 10) @ [digit_char (n mod 10)])"

declare toString_nat.simps [simp del]

definition toString_int :: "int \<Rightarrow> string" where
  "toString_int k = (if k < 0 then CHR ''-'' # toString_nat (nat (- k)) else toString_nat (nat k))"

definition padStart2 :: "string \<Rightarrow> string" where
  \<comment> \<open>\<open>s.padStart(2, '0')\<close>\<close>
  "padStart2 s = replicate (2 - length s) CHR ''0'' @ s"

definition js_rem :: "real \<Rightarrow> real \<Rightarrow> real" where
  \<comment> \<open>\<open>x % m\<close> for \<open>x \<ge> 0\<close> and \<open>m > 0\<close>, the only way the code uses it\<close>
  "js_rem x m = x - m * of_int \<lfloor>x / m\<rfloor>"

definition formatTime :: "real \<Rightarrow> string" where
  \<comment> \<open>called with a number \<open>seconds > 0\<close> only, so the \<open>null\<close> branch of the source is not taken\<close>
  "formatTime seconds =
     (let h = padStart2 (toString_int \<lfloor>seconds / 3600\<rfloor>);
          m = padStart2 (toString_int \<lfloor>js_rem seconds 3600 / 60\<rfloor>);
          s = padStart2 (toString_int \<lfloor>js_rem seconds 60\<rfloor>)
      in h @ '':'' @ m @ '':'' @ s)"

definition toFixed_Number :: "nat \<Rightarrow> real \<Rightarrow> real" where
  \<comment> \<open>\<open>Number(x.toFixed(d))\<close>: the sign is split off, the magnitude is rounded to \<open>d\<close>
      decimals with ties upwards; from \<open>1e21\<close> on \<open>toFixed\<close> prints the number itself\<close>
  "toFixed_Number d x =
     (if 10 ^ 21 \<le> \<bar>x\<bar> then x
      else sgn x * (of_int \<lfloor>\<bar>x\<bar> * 10 ^ d + 1 / 2\<rfloor> / 10 ^ d))"

definition Math_round :: "real \<Rightarrow> int" where
  \<comment> \<open>\<open>Math.round\<close>: nearest integer, ties towards \<open>+\<infinity>\<close>\<close>
  "Math_round x = \<lfloor>x + 1 / 2\<rfloor>"

subsection \<open>Great-circle distance\<close>

definition atan2 :: "real \<Rightarrow> real \<Rightarrow> real" where
  \<comment> \<open>\<open>Math.atan2(y, x)\<close>\<close>
  "atan2 y x =
     (if 0 < x then arctan (y / x)
      else if x < 0 then (if 0 \<le> y then arctan (y / x) + pi else arctan (y / x) - pi)
      else if 0 < y then pi / 2
      else if y < 0 then - (pi / 2)
      else 0)"

definition toRad :: "real \<Rightarrow> real" where
  "toRad x = (x * pi) / 180"

definition haversine ::
  "real option \<Rightarrow> real option \<Rightarrow> real option \<Rightarrow> real option \<Rightarrow> real option"
where
  \<comment> \<open>\<open>None\<close> is \<open>NaN\<close>: with a coordinate that is \<open>NaN\<close> both \<open>dLat\<close> or \<open>dLon\<close> and
      \<open>a\<close> are \<open>NaN\<close>, and so is the result\<close>
  "haversine lat1 lon1 lat2 lon2 =
     (case (lat1, lon1, lat2, lon2) of
        (Some lat1', Some lon1', Some lat2', Some lon2') \<Rightarrow>
          (let R = 6371000;
               dLat = toRad (lat2' - lat1');
               dLon = toRad (lon2' - lon1');
               a = sin (dLat / 2) * sin (dLat / 2)
                   + cos (toRad lat1') * cos (toRad lat2') * sin (dLon / 2) * sin (dLon / 2);
               c = 2 * atan2 (sqrt a) (sqrt (1 - a))
           in Some (R * c))
      | _ \<Rightarrow> None)"

subsection \<open>Per-bin metrics\<close>

definition elapsedSeconds :: "js_date \<Rightarrow> js_date \<Rightarrow> real option" where
  \<comment> \<open>\<open>(new Date(end) - new Date(start)) / 1000\<close>; \<open>None\<close> is \<open>NaN\<close>\<close>
  "elapsedSeconds start end =
     (case (start, end) of
        (ValidDate s, ValidDate e) \<Rightarrow> Some (real_of_int (e - s) / 1000)
      | _ \<Rightarrow> None)"

record time_metrics =
  tm_timeTaken :: "string option"
  tm_velocity :: "real option"
  tm_pace :: "real option"
  tm_timeInSeconds :: real

definition timeMetrics :: "point \<Rightarrow> point \<Rightarrow> real \<Rightarrow> time_metrics" where
  \<comment> \<open>the block "time-based calculations only if both start and end have valid time",
      written out twice in the source with the same text\<close>
  "timeMetrics binStart binEnd distance' =
     (let unset = \<lparr> tm_timeTaken = None, tm_velocity = None, tm_pace = None,
                     tm_timeInSeconds = 0 \<rparr>
      in case (time binStart, time binEnd) of
           (Some st, Some en) \<Rightarrow>
             (case elapsedSeconds st en of
                Some seconds \<Rightarrow>
                  if 0 < seconds then
                    \<lparr> tm_timeTaken = Some (formatTime seconds),
                      tm_velocity = Some (distance' / seconds),
                      tm_pace = (if 0 < distance' / seconds
                                 then Some ((1000 / (distance' / seconds)) / 60)
                                 else None),
                      tm_timeInSeconds = seconds \<rparr>
                  else unset
              | None \<Rightarrow> unset)
         | _ \<Rightarrow> unset)"

definition quartic :: "real list \<Rightarrow> real \<Rightarrow> real" where
  "quartic coeffs g =
     (case coeffs of
        [a, b, c, d, e] \<Rightarrow> a * g ^ 4 + b * g ^ 3 + c * g ^ 2 + d * g + e
      | _ \<Rightarrow> 1)"

definition scanAdjFactor :: "real list option \<Rightarrow> real \<Rightarrow> real" where
  \<comment> \<open>the factor of a bin closed inside the loop: the five coefficients are destructured
      and \<open>calculateGradeAdjustment\<close> is called on the clamped gradient\<close>
  "scanAdjFactor polyCoeffs grad =
     (case polyCoeffs of
        Some coeffs \<Rightarrow>
          if length coeffs = 5
          then calculateGradeAdjustment (max (- 35) (min 35 grad))
          else 1
      | None \<Rightarrow> 1)"

definition finalAdjFactor :: "real list option \<Rightarrow> real \<Rightarrow> real" where
  \<comment> \<open>the factor of the final partial bin: the quartic in the five coefficients\<close>
  "finalAdjFactor polyCoeffs grad =
     (case polyCoeffs of
        Some coeffs \<Rightarrow>
          if length coeffs = 5
          then quartic coeffs (max (- 35) (min 35 grad))
          else 1
      | None \<Rightarrow> 1)"

definition usableHeartRate :: "point \<Rightarrow> real option" where
  \<comment> \<open>\<open>points[j].heartRate && typeof points[j].heartRate === 'number'\<close>: \<open>0\<close> is falsy\<close>
  "usableHeartRate p =
     (case heartRate p of
        Some h \<Rightarrow> if h \<noteq> 0 then Some h else None
      | None \<Rightarrow> None)"

definition collectHeartRates :: "point list \<Rightarrow> nat \<Rightarrow> nat \<Rightarrow> real list" where
  \<comment> \<open>heart rates of \<open>points[lo] .. points[hi - 1]\<close>\<close>
  "collectHeartRates points lo hi =
     List.map_filter (\<lambda>j. usableHeartRate (points ! j)) [lo..<hi]"

definition adjustedPair :: "real option \<Rightarrow> real \<Rightarrow> real \<Rightarrow> real option \<times> real option" where
  \<comment> \<open>\<open>(adjustedTime, gradeAdjustedDistance)\<close>; reals are always finite\<close>
  "adjustedPair newAdjustedVelocity adjFactor distance' =
     (case newAdjustedVelocity of
        Some v \<Rightarrow>
          if v \<noteq> 0 \<and> 0 < v \<and> 0 < adjFactor
          then (Some ((distance' * adjFactor) / v), Some (distance' * adjFactor))
          else (None, None)
      | None \<Rightarrow> (None, None))"

definition Number_or_0 :: "real option \<Rightarrow> real" where
  \<comment> \<open>\<open>Number(x) || 0\<close>\<close>
  "Number_or_0 x = (case x of Some v \<Rightarrow> v | None \<Rightarrow> 0)"

definition buildBin ::
  "point list \<Rightarrow> real option \<Rightarrow> real \<Rightarrow> nat \<Rightarrow> nat \<Rightarrow> real \<Rightarrow> real \<Rightarrow> real list \<Rightarrow> bin"
where
  \<comment> \<open>the object literal pushed for a bin from \<open>points[lastBinIdx]\<close> to \<open>points[i]\<close>\<close>
  "buildBin points newAdjustedVelocity adjFactor lastBinIdx i distance' grad heartRates =
     (let binStart = points ! lastBinIdx;
          binEnd = points ! i;
          elevChange = ele binEnd - ele binStart;
          tm = timeMetrics binStart binEnd distance';
          adj = adjustedPair newAdjustedVelocity adjFactor distance'
      in \<lparr> distance = distance',
           elevationChange = toFixed_Number 2 elevChange,
           gradient = toFixed_Number 2 grad,
           timeTaken = tm_timeTaken tm,
           timeInSeconds = tm_timeInSeconds tm,
           velocity = tm_velocity tm,
           pace_min_per_km = tm_pace tm,
           adjustedTime = Number_or_0 (fst adj),
           gradeAdjustedDistance = snd adj,
           startIdx = lastBinIdx,
           endIdx = i,
           startTime = time binStart,
           endTime = time binEnd,
           avgHeartRate =
             (if heartRates \<noteq> []
              then Some (of_int (Math_round (sum_list heartRates / real (length heartRates))))
              else None),
           maxHeartRate = (if heartRates \<noteq> [] then Some (Max (set heartRates)) else None),
           minHeartRate = (if heartRates \<noteq> [] then Some (Min (set heartRates)) else None),
           heartRateDataPoints = length heartRates,
           avgSpeed = None \<rparr>)"

definition binGradient :: "point list \<Rightarrow> nat \<Rightarrow> nat \<Rightarrow> real \<Rightarrow> real" where
  "binGradient points lastBinIdx i distance' =
     (if 0 < distance'
      then ((ele (points ! i) - ele (points ! lastBinIdx)) / distance') * 100
      else 0)"

definition scanBin ::
  "point list \<Rightarrow> real list option \<Rightarrow> real option \<Rightarrow> nat \<Rightarrow> nat \<Rightarrow> real \<Rightarrow> bin"
where
  "scanBin points polyCoeffs newAdjustedVelocity lastBinIdx i cumDist =
     (let grad = binGradient points lastBinIdx i cumDist
      in buildBin points newAdjustedVelocity (scanAdjFactor polyCoeffs grad)
           lastBinIdx i cumDist grad (collectHeartRates points lastBinIdx (Suc i)))"

definition finalBin ::
  "point list \<Rightarrow> real list option \<Rightarrow> real option \<Rightarrow> nat \<Rightarrow> real \<Rightarrow> bin"
where
  "finalBin points polyCoeffs newAdjustedVelocity lastBinIdx cumDist =
     (let i = length points - 1;
          grad = binGradient points lastBinIdx i cumDist
      in buildBin points newAdjustedVelocity (finalAdjFactor polyCoeffs grad)
           lastBinIdx i cumDist grad (collectHeartRates points lastBinIdx (length points)))"

subsection \<open>The scan\<close>

text \<open>
  The accumulator \<open>cumDist\<close> is a number or \<open>NaN\<close> (\<open>None\<close>): a sum with \<open>NaN\<close> is
  \<open>NaN\<close>, and every comparison with \<open>NaN\<close> is false.
\<close>

definition addDistance :: "real option \<Rightarrow> real option \<Rightarrow> real option" where
  \<comment> \<open>\<open>cumDist += segDist\<close>\<close>
  "addDistance cumDist segDist =
     (case (cumDist, segDist) of (Some c, Some s) \<Rightarrow> Some (c + s) | _ \<Rightarrow> None)"

function scanPoints ::
  "point list \<Rightarrow> real \<Rightarrow> real list option \<Rightarrow> real option
     \<Rightarrow> nat \<Rightarrow> nat \<Rightarrow> real option \<Rightarrow> bin list \<Rightarrow> nat \<times> real option \<times> bin list"
where
  "scanPoints points binLength polyCoeffs newAdjustedVelocity i lastBinIdx cumDist bins =
     (if i < length points then
        (let prev = points ! (i - 1);
             curr = points ! i;
             segDist = haversine (lat prev) (lon prev) (lat curr) (lon curr);
             cumDist' = addDistance cumDist segDist
         in case cumDist' of
              Some distance' \<Rightarrow>
                if binLength \<le> distance'
                then scanPoints points binLength polyCoeffs newAdjustedVelocity (Suc i) i (Some 0)
                       (bins @ [scanBin points polyCoeffs newAdjustedVelocity lastBinIdx i distance'])
                else scanPoints points binLength polyCoeffs newAdjustedVelocity (Suc i)
                       lastBinIdx cumDist' bins
            | None \<Rightarrow>
                scanPoints points binLength polyCoeffs newAdjustedVelocity (Suc i)
                  lastBinIdx cumDist' bins)
      else (lastBinIdx, cumDist, bins))"
  by pat_completeness auto
termination
  by (relation "measure (\<lambda>(points, binLength, polyCoeffs, newAdjustedVelocity, i, lastBinIdx, cumDist, bins).
                           length points - i)") auto

declare scanPoints.simps [simp del]

definition getAnalysisBins ::
  "point list \<Rightarrow> real \<Rightarrow> real list option \<Rightarrow> real option \<Rightarrow> bin list"
where
  \<comment> \<open>\<open>binLength\<close> defaults to 50, \<open>polyCoeffs\<close> and \<open>newAdjustedVelocity\<close> to \<open>null\<close>\<close>
  "getAnalysisBins points binLength polyCoeffs newAdjustedVelocity =
     (if length points < 2 then []
      else
        (case scanPoints points binLength polyCoeffs newAdjustedVelocity 1 0 (Some 0) [] of
           (lastBinIdx, cumDist, bins) \<Rightarrow>
             (case cumDist of
                Some distance' \<Rightarrow>
                  if lastBinIdx < length points - 1 \<and> 0 < distance'
                  then bins @ [finalBin points polyCoeffs newAdjustedVelocity lastBinIdx distance']
                  else bins
              | None \<Rightarrow> bins)))"

subsection \<open>Auxiliary notions for stating properties of the scan\<close>

definition segDist :: "point list \<Rightarrow> nat \<Rightarrow> real option" where
  \<comment> \<open>the length \<open>segDist\<close> the loop computes at index \<open>i\<close>: from \<open>points[i - 1]\<close> to
      \<open>points[i]\<close>; \<open>None\<close> is \<open>NaN\<close>\<close>
  "segDist points i =
     haversine (lat (points ! (i - 1))) (lon (points ! (i - 1))) (lat (points ! i)) (lon (points ! i))"

definition binRange :: "bin \<Rightarrow> nat \<times> nat" where
  "binRange b = (startIdx b, endIdx b)"

fun chained :: "nat \<Rightarrow> (nat \<times> nat) list \<Rightarrow> nat \<Rightarrow> bool" where
  \<comment> \<open>ranges that start at \<open>s\<close>, each beginning where the one before ended, and end at \<open>e\<close>\<close>
  "chained s [] e = (s = e)"
| "chained s (r # rs) e = (fst r = s \<and> fst r < snd r \<and> chained (snd r) rs e)"

definition scanInv ::
  "point list \<Rightarrow> real list option \<Rightarrow> real option \<Rightarrow> nat \<Rightarrow> nat \<Rightarrow> real option \<Rightarrow> bin list \<Rightarrow> bool"
where
  \<comment> \<open>the loop invariant at the head of iteration \<open>i\<close>: the accumulator is a number as
      long as every segment so far was one, and then it is the length since the last bin\<close>
  "scanInv points pc v i l c bs \<longleftrightarrow>
     l < i \<and> chained 0 (map binRange bs) l
     \<and> (\<forall>j. 0 < j \<and> j \<le> l \<longrightarrow> segDist points j \<noteq> None)
     \<and> c = (if \<forall>j. l < j \<and> j < i \<longrightarrow> segDist points j \<noteq> None
            then Some (sum_list (map (\<lambda>j. the (segDist points j)) [Suc l..<i]))
            else None)
     \<and> list_all (\<lambda>b. \<exists>l i d. l < i \<and> i < length points \<and> b = scanBin points pc v l i d) bs"

definition equatorPoint :: "real \<Rightarrow> real \<Rightarrow> js_date option \<Rightarrow> real option \<Rightarrow> point" where
  \<comment> \<open>a point on the equator, for concrete runs\<close>
  "equatorPoint lo el t hr =
     \<lparr> lat = Some 0, lon = Some lo, ele = el, time = t, heartRate = hr \<rparr>"

definition withoutZeroHeartRate :: "point \<Rightarrow> point" where
  \<comment> \<open>the same point with a heart rate of \<open>0\<close> replaced by \<open>null\<close>\<close>
  "withoutZeroHeartRate p = (if heartRate p = Some 0 then p\<lparr> heartRate := None \<rparr> else p)"


definition halfTurn ::
  "js_date option \<Rightarrow> js_date option \<Rightarrow> real option \<Rightarrow> real option \<Rightarrow> point list"
where
  \<comment> \<open>two level points half the equator apart\<close>
  "halfTurn t0 t1 h0 h1 = [equatorPoint 0 0 t0 h0, equatorPoint 180 0 t1 h1]"


section \<open>Reliability filter (server.js, POST /api/analyze-with-filters-json)\<close>

text \<open>
  The handler reads \<open>results\<close>, \<open>removeUnreliableBins\<close> and \<open>heartRateFilter\<close> from the
  request body. A run is modelled with the one field the filter touches, \<open>bins\<close>
  (\<open>None\<close> when absent); the other fields of a run are the record's extension and are
  passed through. The bins are those \<open>getAnalysisBins\<close> builds, whose \<open>gradient\<close>,
  \<open>timeInSeconds\<close> and \<open>distance\<close> are numbers.
\<close>

record run =
  bins :: "bin list option"

record heart_rate_filter =
  minHR :: "real option"
  maxHR :: "real option"

record exclusion_counts =
  cnt_speed :: nat
  cnt_gradient :: nat
  cnt_timeInSeconds :: nat
  cnt_distance :: nat
  cnt_heartRate :: nat
  cnt_total :: nat

definition truthy :: "real option \<Rightarrow> bool" where
  \<comment> \<open>a number or \<open>null\<close>/\<open>undefined\<close> in a boolean position\<close>
  "truthy x = (case x of Some v \<Rightarrow> v \<noteq> 0 | None \<Rightarrow> False)"

definition binSpeed :: "bin \<Rightarrow> real" where
  \<comment> \<open>\<open>avgSpeed\<close> in km/h when the bin has one, else \<open>velocity * 3.6\<close>, else \<open>0\<close>\<close>
  "binSpeed b =
     (case avgSpeed b of
        Some s \<Rightarrow> s
      | None \<Rightarrow> (case velocity b of Some v \<Rightarrow> v * (36 / 10) | None \<Rightarrow> 0))"

definition heartRateFilterActive :: "heart_rate_filter option \<Rightarrow> bool" where
  \<comment> \<open>\<open>heartRateFilter && (heartRateFilter.minHR || heartRateFilter.maxHR)\<close>\<close>
  "heartRateFilterActive heartRateFilter =
     (case heartRateFilter of
        Some f \<Rightarrow> truthy (minHR f) \<or> truthy (maxHR f)
      | None \<Rightarrow> False)"

definition heartRateOutside :: "heart_rate_filter \<Rightarrow> bin \<Rightarrow> bool" where
  "heartRateOutside f b =
     (case avgHeartRate b of
        None \<Rightarrow> True
      | Some hr \<Rightarrow>
          (truthy (minHR f) \<and> hr < the (minHR f)) \<or> (truthy (maxHR f) \<and> the (maxHR f) < hr))"

definition filterBin ::
  "bool \<Rightarrow> heart_rate_filter option \<Rightarrow> exclusion_counts \<Rightarrow> bin \<Rightarrow> exclusion_counts \<times> bool"
where
  \<comment> \<open>the body of \<open>bins.forEach\<close>: the new counters, and whether the bin is pushed\<close>
  "filterBin removeUnreliableBins heartRateFilter exclusionCounts b =
     (let (counts1, excludeReason1) =
            (if removeUnreliableBins then
               (let speed = binSpeed b in
                if \<not> (1 \<le> speed \<and> speed \<le> 30)
                then (exclusionCounts\<lparr> cnt_speed := cnt_speed exclusionCounts + 1 \<rparr>, Some ''speed'')
                else if \<not> (gradient b \<le> 30 \<and> - 30 \<le> gradient b)
                then (exclusionCounts\<lparr> cnt_gradient := cnt_gradient exclusionCounts + 1 \<rparr>,
                      Some ''gradient'')
                else if \<not> (1 \<le> timeInSeconds b)
                then (exclusionCounts\<lparr> cnt_timeInSeconds := cnt_timeInSeconds exclusionCounts + 1 \<rparr>,
                      Some ''timeInSeconds'')
                else if \<not> (0 < distance b)
                then (exclusionCounts\<lparr> cnt_distance := cnt_distance exclusionCounts + 1 \<rparr>,
                      Some ''distance'')
                else (exclusionCounts, None))
             else (exclusionCounts, None));
          (counts2, excludeReason2) =
            (if heartRateFilterActive heartRateFilter
                \<and> heartRateOutside (the heartRateFilter) b
             then (counts1\<lparr> cnt_heartRate := cnt_heartRate counts1 + 1 \<rparr>, Some ''heartRate'')
             else (counts1, excludeReason1))
      in if excludeReason2 = None
         then (counts2, True)
         else (counts2\<lparr> cnt_total := cnt_total counts2 + 1 \<rparr>, False))"

fun filterBins ::
  "bool \<Rightarrow> heart_rate_filter option \<Rightarrow> exclusion_counts \<Rightarrow> bin list
     \<Rightarrow> exclusion_counts \<times> bin list"
where
  "filterBins rub hrf counts [] = (counts, [])"
| "filterBins rub hrf counts (b # bs) =
     (let (counts1, keep) = filterBin rub hrf counts b;
          (counts2, filteredBins) = filterBins rub hrf counts1 bs
      in (counts2, if keep then b # filteredBins else filteredBins))"

definition runBins :: "'a run_scheme \<Rightarrow> bin list" where
  \<comment> \<open>\<open>run.bins || []\<close>\<close>
  "runBins r = (case bins r of Some bs \<Rightarrow> bs | None \<Rightarrow> [])"

fun filterRuns ::
  "bool \<Rightarrow> heart_rate_filter option \<Rightarrow> exclusion_counts \<Rightarrow> 'a run_scheme list
     \<Rightarrow> exclusion_counts \<times> 'a run_scheme list"
where
  \<comment> \<open>\<open>results.map(run => ...)\<close>, the counters shared by all runs\<close>
  "filterRuns rub hrf counts [] = (counts, [])"
| "filterRuns rub hrf counts (r # rs) =
     (let (counts1, filteredBins) =
            filterBins rub hrf counts (runBins r);
          (counts2, filteredResults) = filterRuns rub hrf counts1 rs
      in (counts2, r\<lparr> bins := Some filteredBins \<rparr> # filteredResults))"

definition noExclusions :: exclusion_counts where
  "noExclusions =
     \<lparr> cnt_speed = 0, cnt_gradient = 0, cnt_timeInSeconds = 0, cnt_distance = 0,
       cnt_heartRate = 0, cnt_total = 0 \<rparr>"

definition analyzeWithFilters ::
  "'a run_scheme list \<Rightarrow> bool \<Rightarrow> heart_rate_filter option
     \<Rightarrow> exclusion_counts \<times> 'a run_scheme list"
where
  \<comment> \<open>\<open>(exclusionCounts, filteredResults)\<close> of the handler\<close>
  "analyzeWithFilters results removeUnreliableBins heartRateFilter =
     filterRuns removeUnreliableBins heartRateFilter noExclusions results"

definition plausibilityReason :: "bin \<Rightarrow> string option" where
  \<comment> \<open>the first plausibility check a bin fails, in the order of the \<open>else if\<close> chain\<close>
  "plausibilityReason b =
     (if \<not> (1 \<le> binSpeed b \<and> binSpeed b \<le> 30) then Some ''speed''
      else if \<not> (gradient b \<le> 30 \<and> - 30 \<le> gradient b) then Some ''gradient''
      else if \<not> (1 \<le> timeInSeconds b) then Some ''timeInSeconds''
      else if \<not> (0 < distance b) then Some ''distance''
      else None)"

definition speedingBin :: bin where
  \<comment> \<open>a level bin of 175 m covered in 18 s, that is at 35 km/h, without heart rate\<close>
  "speedingBin =
     \<lparr> distance = 175, elevationChange = 0, gradient = 0, timeTaken = Some ''00:00:18'',
       timeInSeconds = 18, velocity = Some (175 / 18),
       pace_min_per_km = Some ((1000 / (175 / 18)) / 60), adjustedTime = 0,
       gradeAdjustedDistance = None, startIdx = 0, endIdx = 1,
       startTime = Some (ValidDate 0), endTime = Some (ValidDate 18000),
       avgHeartRate = None, maxHeartRate = None, minHeartRate = None,
       heartRateDataPoints = 0, avgSpeed = None \<rparr>"

definition excludedBin :: "bool \<Rightarrow> heart_rate_filter option \<Rightarrow> bin \<Rightarrow> bool" where
  \<comment> \<open>a bin that ends with an \<open>excludeReason\<close>\<close>
  "excludedBin rub hrf b \<longleftrightarrow>
     (rub \<and> plausibilityReason b \<noteq> None)
     \<or> (heartRateFilterActive hrf \<and> heartRateOutside (the hrf) b)"

definition countIf :: "bool \<Rightarrow> nat" where
  "countIf c = (if c then 1 else 0)"

section \<open>Cross-run analysis (gpxBinning.js)\<close>

subsection \<open>Integer keys as strings\<close>

definition is_digit :: "char \<Rightarrow> bool" where
  "is_digit c = (48 \<le> (of_char c :: nat) \<and> (of_char c :: nat) \<le> 57)"

definition digit_value :: "char \<Rightarrow> nat" where
  "digit_value c = of_char c - 48"

definition digits_value :: "string \<Rightarrow> nat" where
  "digits_value ds = foldl (\<lambda>acc c. 10 * acc + digit_value c) 0 ds"

definition parseInt :: "string \<Rightarrow> int option" where
  \<comment> \<open>\<open>parseInt(s)\<close> in base 10: an optional sign, then the longest run of digits;
      \<open>None\<close> is \<open>NaN\<close>. White space and the \<open>0x\<close> prefix do not occur in the keys
      this program parses, and are not modelled.\<close>
  "parseInt s =
     (let (negative, rest) =
            (case s of
               [] \<Rightarrow> (False, s)
             | c # cs \<Rightarrow>
                 if c = CHR ''-'' then (True, cs)
                 else if c = CHR ''+'' then (False, cs)
                 else (False, s));
          ds = takeWhile is_digit rest
      in if ds = [] then None
         else Some ((if negative then - 1 else 1) * int (digits_value ds)))"

subsection \<open>Sorting with a comparator\<close>

text \<open>
  \<open>Array.prototype.sort\<close> is stable and reads a comparator result of \<open>NaN\<close> as \<open>0\<close>.
  For a comparator that is a consistent ordering every implementation returns the list
  below. For an inconsistent comparator the standard leaves the order to the
  implementation; the list below is then the result of a stable insertion sort.
\<close>

fun insertBy :: "('a \<Rightarrow> 'a \<Rightarrow> int option) \<Rightarrow> 'a \<Rightarrow> 'a list \<Rightarrow> 'a list" where
  "insertBy cmp x [] = [x]"
| "insertBy cmp x (y # ys) =
     (if (case cmp x y of Some v \<Rightarrow> 0 < v | None \<Rightarrow> False)
      then y # insertBy cmp x ys
      else x # y # ys)"

definition arraySort :: "('a \<Rightarrow> 'a \<Rightarrow> int option) \<Rightarrow> 'a list \<Rightarrow> 'a list" where
  "arraySort cmp xs = foldr (insertBy cmp) xs []"

subsection \<open>Per-degree pace chart\<close>

record gradient_data =
  totalDistance :: real
  totalTime :: real
  gd_binCount :: nat

record chart_entry =
  ce_gradient :: string
  binCount :: nat
  avgPace :: real
  paceLabel :: string

definition collectBins :: "'a run_scheme list \<Rightarrow> bin list" where
  \<comment> \<open>\<open>allBins\<close>: the bins of every result that has a \<open>bins\<close> array\<close>
  "collectBins allResults = concat (map runBins allResults)"

definition gradientKey :: "bin \<Rightarrow> string" where
  "gradientKey b =
     (let grad = Math_round (gradient b)
      in if grad \<le> - 35 then ''<=-35''
         else if 35 \<le> grad then ''>=35''
         else toString_int grad)"

definition chartable :: "bin \<Rightarrow> bool" where
  \<comment> \<open>the guard of the grouping loop; the three \<open>typeof\<close> tests hold for every bin of the model\<close>
  "chartable b \<longleftrightarrow> 0 < distance b \<and> 0 < timeInSeconds b"

fun addToKey ::
  "(string \<times> gradient_data) list \<Rightarrow> string \<Rightarrow> real \<Rightarrow> real \<Rightarrow> (string \<times> gradient_data) list"
where
  \<comment> \<open>\<open>gradientMap[key]\<close> created on first use, then increased; the list keeps the keys
      in the order of their creation\<close>
  "addToKey [] key d t =
     [(key, \<lparr> totalDistance = 0 + d, totalTime = 0 + t, gd_binCount = 0 + 1 \<rparr>)]"
| "addToKey ((k, x) # m) key d t =
     (if k = key
      then (k, x\<lparr> totalDistance := totalDistance x + d, totalTime := totalTime x + t,
                  gd_binCount := gd_binCount x + 1 \<rparr>) # m
      else (k, x) # addToKey m key d t)"

definition groupBin :: "(string \<times> gradient_data) list \<Rightarrow> bin \<Rightarrow> (string \<times> gradient_data) list" where
  "groupBin gradientMap b =
     (if chartable b
      then addToKey gradientMap (gradientKey b) (distance b) (timeInSeconds b)
      else gradientMap)"

definition isArrayIndex :: "string \<Rightarrow> bool" where
  \<comment> \<open>a key that is the canonical string of a non-negative integer\<close>
  "isArrayIndex key =
     (case parseInt key of Some k \<Rightarrow> 0 \<le> k \<and> toString_int k = key | None \<Rightarrow> False)"

definition objectEntries :: "(string \<times> gradient_data) list \<Rightarrow> (string \<times> gradient_data) list" where
  \<comment> \<open>\<open>Object.entries\<close>: integer keys in ascending order first, then the other keys in
      the order of their creation\<close>
  "objectEntries m =
     sort_key (\<lambda>e. the (parseInt (fst e))) (filter (\<lambda>e. isArrayIndex (fst e)) m)
     @ filter (\<lambda>e. \<not> isArrayIndex (fst e)) m"

definition formatPace :: "real \<Rightarrow> string" where
  \<comment> \<open>\<open>minutes:seconds\<close> with \<open>minutes = Math.floor(pace)\<close> and
      \<open>seconds = Math.round((pace - minutes) * 60)\<close>\<close>
  "formatPace paceMinPerKm =
     (let minutes = \<lfloor>paceMinPerKm\<rfloor>;
          seconds = Math_round ((paceMinPerKm - of_int minutes) * 60)
      in toString_int minutes @ '':'' @ padStart2 (toString_int seconds))"

definition chartEntry :: "string \<times> gradient_data \<Rightarrow> chart_entry" where
  "chartEntry e =
     (let paceMinPerKm = (totalTime (snd e) / 60) / (totalDistance (snd e) / 1000)
      in \<lparr> ce_gradient = fst e,
           binCount = gd_binCount (snd e),
           avgPace = paceMinPerKm,
           paceLabel = formatPace paceMinPerKm \<rparr>)"

definition chartCompare :: "chart_entry \<Rightarrow> chart_entry \<Rightarrow> int option" where
  \<comment> \<open>the comparator of the chart, with the literals it tests for\<close>
  "chartCompare a b =
     (if ce_gradient a = ''<-35'' then Some (- 1)
      else if ce_gradient b = ''<-35'' then Some 1
      else if ce_gradient a = ''>35'' then Some 1
      else if ce_gradient b = ''>35'' then Some (- 1)
      else (case (parseInt (ce_gradient a), parseInt (ce_gradient b)) of
              (Some x, Some y) \<Rightarrow> Some (x - y)
            | _ \<Rightarrow> None))"

definition getPaceByGradientChart :: "'a run_scheme list \<Rightarrow> chart_entry list" where
  "getPaceByGradientChart allResults =
     (let allBins = collectBins allResults;
          gradientMap = foldl groupBin [] allBins
      in arraySort chartCompare (map chartEntry (objectEntries gradientMap)))"

subsection \<open>Grade adjustment analysis\<close>

record adjustment_entry =
  ae_gradient :: string
  gradientValue :: "real option"
  personalAdjustment :: real
  ae_avgPace :: real
  ae_paceLabel :: string
  personalAdjustmentMedian :: real
  medianPace :: real
  medianPaceLabel :: string
  literatureAdjustment :: "real option"
  ae_binCount :: nat

record grade_adjustment_analysis =
  adjustmentData :: "adjustment_entry list"
  basePace :: "real option"
  basePaceMedian :: "real option"
  basePaceLabel :: string
  basePaceMedianLabel :: string

definition nearZeroCompare :: "chart_entry \<Rightarrow> chart_entry \<Rightarrow> int option" where
  \<comment> \<open>\<open>Math.abs(parseInt(a.gradient)) - Math.abs(parseInt(b.gradient))\<close>\<close>
  "nearZeroCompare a b =
     (case (parseInt (ce_gradient a), parseInt (ce_gradient b)) of
        (Some x, Some y) \<Rightarrow> Some (\<bar>x\<bar> - \<bar>y\<bar>)
      | _ \<Rightarrow> None)"

definition nearZero :: "chart_entry \<Rightarrow> bool" where
  \<comment> \<open>\<open>!isNaN(grad) && grad >= -2 && grad <= 2\<close> with \<open>grad = parseInt(item.gradient)\<close>\<close>
  "nearZero item =
     (case parseInt (ce_gradient item) of
        Some grad \<Rightarrow> - 2 \<le> grad \<and> grad \<le> 2
      | None \<Rightarrow> False)"

definition selectBasePace :: "chart_entry list \<Rightarrow> real option" where
  \<comment> \<open>the computation of \<open>basePace\<close>; \<open>None\<close> is \<open>null\<close>\<close>
  "selectBasePace gradientData =
     (case find (\<lambda>item. ce_gradient item = ''0'') gradientData of
        Some flatGradient \<Rightarrow> Some (avgPace flatGradient)
      | None \<Rightarrow>
          (let nearZero =
                 arraySort nearZeroCompare (filter nearZero gradientData)
           in if nearZero \<noteq> [] then Some (avgPace (hd nearZero))
              else
                (let validPaces = map avgPace (filter (\<lambda>item. avgPace item \<noteq> 0) gradientData)
                 in if validPaces \<noteq> []
                    then Some (sum_list validPaces / real (length validPaces))
                    else None)))"

definition adjustmentFactor :: "real option \<Rightarrow> real \<Rightarrow> real" where
  \<comment> \<open>\<open>basePace > 0 ? avgPace / basePace : 1\<close>\<close>
  "adjustmentFactor base pace =
     (case base of Some bp \<Rightarrow> if 0 < bp then pace / bp else 1 | None \<Rightarrow> 1)"

definition adjustmentEntry :: "real option \<Rightarrow> real option \<Rightarrow> chart_entry \<Rightarrow> adjustment_entry" where
  \<comment> \<open>the keys hold neither \<open>%\<close> nor a fraction, so \<open>parseFloat\<close> of a key is its
      \<open>parseInt\<close>\<close>
  "adjustmentEntry base baseMedian item =
     (let gradientValue' = map_option real_of_int (parseInt (ce_gradient item));
          literature = map_option calculateGradeAdjustment gradientValue';
          meanAdjustmentFactor = adjustmentFactor base (avgPace item);
          medianAdjustmentFactor = adjustmentFactor baseMedian (avgPace item)
      in \<lparr> ae_gradient = ce_gradient item,
           gradientValue = gradientValue',
           personalAdjustment = toFixed_Number 4 meanAdjustmentFactor,
           ae_avgPace = avgPace item,
           ae_paceLabel = paceLabel item,
           personalAdjustmentMedian = toFixed_Number 4 medianAdjustmentFactor,
           medianPace = avgPace item,
           medianPaceLabel = paceLabel item,
           literatureAdjustment = map_option (toFixed_Number 4) literature,
           ae_binCount = binCount item \<rparr>)"

definition paceLabelOrNA :: "real option \<Rightarrow> string" where
  "paceLabelOrNA base =
     (case base of
        Some bp \<Rightarrow>
          if bp \<noteq> 0
          then toString_int \<lfloor>bp\<rfloor> @ '':'' @ padStart2 (toString_int (Math_round (js_rem bp 1 * 60)))
          else ''N/A''
      | None \<Rightarrow> ''N/A'')"

definition getGradeAdjustmentAnalysis :: "'a run_scheme list \<Rightarrow> grade_adjustment_analysis" where
  "getGradeAdjustmentAnalysis allResults =
     (let gradientData = getPaceByGradientChart allResults;
          base = selectBasePace gradientData;
          baseMedian = base
      in \<lparr> adjustmentData = map (adjustmentEntry base baseMedian) gradientData,
           basePace = base,
           basePaceMedian = baseMedian,
           basePaceLabel = paceLabelOrNA base,
           basePaceMedianLabel = paceLabelOrNA baseMedian \<rparr>)"

definition sampleBin :: "real \<Rightarrow> real \<Rightarrow> real \<Rightarrow> bin" where
  \<comment> \<open>a bin with the given gradient, distance and duration, for concrete runs\<close>
  "sampleBin g d t =
     \<lparr> distance = d, elevationChange = g * d / 100, gradient = g,
       timeTaken = Some (formatTime t), timeInSeconds = t, velocity = Some (d / t),
       pace_min_per_km = Some ((1000 / (d / t)) / 60), adjustedTime = 0,
       gradeAdjustedDistance = None, startIdx = 0, endIdx = 1,
       startTime = None, endTime = None,
       avgHeartRate = None, maxHeartRate = None, minHeartRate = None,
       heartRateDataPoints = 0, avgSpeed = None \<rparr>"

definition groupOf :: "bin list \<Rightarrow> string \<Rightarrow> bin list" where
  \<comment> \<open>the bins that the grouping loop adds under a key\<close>
  "groupOf bs k = filter (\<lambda>b. chartable b \<and> gradientKey b = k) bs"

definition groupTotals :: "bin list \<Rightarrow> gradient_data" where
  "groupTotals G =
     \<lparr> totalDistance = sum_list (map distance G), totalTime = sum_list (map timeInSeconds G),
       gd_binCount = length G \<rparr>"

definition grouped :: "(string \<times> gradient_data) list \<Rightarrow> bin list \<Rightarrow> bool" where
  \<comment> \<open>the invariant of the grouping loop after the bins \<open>bs\<close>\<close>
  "grouped m bs \<longleftrightarrow>
     distinct (map fst m)
     \<and> (\<forall>k. map_of m k = (if groupOf bs k = [] then None else Some (groupTotals (groupOf bs k))))"

definition flatAndClimb :: "run list" where
  \<comment> \<open>one run: a level kilometre at 3 min/km and a kilometre at 10 % at 1 min/km\<close>
  "flatAndClimb = [\<lparr> bins = Some [sampleBin 0 1000 180, sampleBin 10 1000 60] \<rparr>]"

definition gentleSlopes :: "run list" where
  "gentleSlopes = [\<lparr> bins = Some [sampleBin (- 1) 1000 240, sampleBin 2 1000 360] \<rparr>]"

definition steepOnly :: "run list" where
  "steepOnly = [\<lparr> bins = Some [sampleBin 10 1000 300, sampleBin 20 1000 420] \<rparr>]"

definition climbAndDrop :: "run list" where
  "climbAndDrop = [\<lparr> bins = Some [sampleBin 5 1000 300, sampleBin (- 40) 1000 240] \<rparr>]"

definition splitFlat :: "run list" where
  \<comment> \<open>three results: two nearly level bins of very different length and pace come from
      different runs, the run between them has no \<open>bins\<close> array\<close>
  "splitFlat =
     [\<lparr> bins = Some [sampleBin (1 / 5) 1000 300] \<rparr>,
      \<lparr> bins = None \<rparr>,
      \<lparr> bins = Some [sampleBin (- (3 / 10)) 3000 600, sampleBin 10 1000 60] \<rparr>]"

section \<open>Batch processing (server.js, GET /api/process-batch/:batchId)\<close>

subsection \<open>Summary of a run's bins\<close>

record bin_summary =
  totalBins :: nat
  validBins :: nat
  sm_totalDistance :: real
  sm_totalTime :: real
  totalElevation :: int
  sm_avgPace :: "real option"
  sm_avgHeartRate :: "real option"
  sm_maxHeartRate :: "real option"
  heartRateDataCoverage :: real

definition getBinSummary :: "bin list \<Rightarrow> bin_summary option" where
  "getBinSummary bs =
     (if bs = [] then None
      else
        (let valid = filter (\<lambda>b. 0 < distance b) bs
         in if valid = [] then None
            else
              (let totalDistance' = sum_list (map distance valid);
                   totalTime' = sum_list (map timeInSeconds valid);
                   totalElevation' = sum_list (map (\<lambda>b. max 0 (elevationChange b)) valid);
                   binsWithHR = filter (\<lambda>b. truthy (avgHeartRate b)) valid
               in Some
                    \<lparr> totalBins = length bs,
                      validBins = length valid,
                      sm_totalDistance = toFixed_Number 2 (totalDistance' / 1000),
                      sm_totalTime = totalTime',
                      totalElevation = Math_round totalElevation',
                      sm_avgPace =
                        (if 0 < totalDistance' \<and> 0 < totalTime'
                         then Some ((totalTime' / 60) / (totalDistance' / 1000)) else None),
                      sm_avgHeartRate =
                        (if binsWithHR \<noteq> []
                         then Some (of_int (Math_round
                                 (sum_list (map (\<lambda>b. the (avgHeartRate b)) binsWithHR)
                                  / real (length binsWithHR))))
                         else None),
                      sm_maxHeartRate =
                        (if binsWithHR \<noteq> []
                         then Some (Max (set (map (\<lambda>b. Number_or_0 (maxHeartRate b)) binsWithHR)))
                         else None),
                      heartRateDataCoverage = real (length binsWithHR) / real (length valid) \<rparr>)))"

subsection \<open>Processing one file\<close>

text \<open>
  An uploaded file has a name and a buffer. The GPX and FIT parsers are libraries outside
  this development and are parameters, as are the statistics of a parsed file and the two
  route point extractors \<open>getGPXRoutePoints\<close> and \<open>getFITRoutePoints\<close>. A call
  either returns a value or throws (its promise rejects) with a message.
\<close>

datatype 'a outcome = Threw string | Returned 'a

record 'b upload =
  originalname :: string
  buffer :: 'b

record 's process_result =
  pr_error :: "string option"
  pr_stats :: "'s option"

definition toLowerCase :: "string \<Rightarrow> string" where
  \<comment> \<open>on ASCII letters\<close>
  "toLowerCase s =
     map (\<lambda>c. if 65 \<le> (of_char c :: nat) \<and> (of_char c :: nat) \<le> 90
               then char_of ((of_char c :: nat) + 32) else c) s"

definition fileExtension :: "string \<Rightarrow> string" where
  \<comment> \<open>\<open>filename.toLowerCase().split('.').pop()\<close>\<close>
  "fileExtension filename = rev (takeWhile (\<lambda>c. c \<noteq> CHR ''.'') (rev (toLowerCase filename)))"

record 'p gpx_data =
  tracks :: "'p list list"
  routes :: "'p list list"

definition processGPXFile ::
  "('b \<Rightarrow> 'p gpx_data outcome) \<Rightarrow> ('p list \<Rightarrow> string \<Rightarrow> 's)
     \<Rightarrow> 'b \<Rightarrow> string \<Rightarrow> 's process_result outcome"
where
  \<comment> \<open>\<open>parseGPX\<close> is the GPX parser, giving the points of each track and of each route or
      throwing; \<open>gpxStats\<close> computes the statistics of the points\<close>
  "processGPXFile parseGPX gpxStats fileBuffer filename =
     (case parseGPX fileBuffer of
        Threw message \<Rightarrow> Returned \<lparr> pr_error = Some message, pr_stats = None \<rparr>
      | Returned gpx \<Rightarrow>
          (let trackPoints = (case tracks gpx of [] \<Rightarrow> [] | t # ts \<Rightarrow> t);
               rawPoints =
                 (if trackPoints = [] \<and> (case routes gpx of [] \<Rightarrow> False | r # rs \<Rightarrow> r \<noteq> [])
                  then hd (routes gpx) else trackPoints)
           in if rawPoints = []
              then Returned \<lparr> pr_error = Some ''No track data found'', pr_stats = None \<rparr>
              else Returned \<lparr> pr_error = None, pr_stats = Some (gpxStats rawPoints filename) \<rparr>))"

definition processFITFile ::
  "('b \<Rightarrow> (string + 'd) outcome) \<Rightarrow> ('d \<Rightarrow> string \<Rightarrow> 's outcome)
     \<Rightarrow> 'b \<Rightarrow> string \<Rightarrow> 's process_result outcome"
where
  \<comment> \<open>\<open>parseFIT\<close> is the FIT parser: it throws, or calls back with an error (\<open>Inl\<close>) or
      with the data (\<open>Inr\<close>); \<open>fitStats\<close> is the extraction of sessions, records and
      points and their statistics, which makes no test on the number of points\<close>
  "processFITFile parseFIT fitStats fileBuffer filename =
     (case parseFIT fileBuffer of
        Threw message \<Rightarrow> Returned \<lparr> pr_error = Some message, pr_stats = None \<rparr>
      | Returned (Inl error) \<Rightarrow>
          Returned \<lparr> pr_error = Some (''FIT parsing failed: '' @ error), pr_stats = None \<rparr>
      | Returned (Inr data) \<Rightarrow>
          (case fitStats data filename of
             Threw message \<Rightarrow>
               Returned \<lparr> pr_error = Some (''FIT processing failed: '' @ message), pr_stats = None \<rparr>
           | Returned stats \<Rightarrow> Returned \<lparr> pr_error = None, pr_stats = Some stats \<rparr>))"

definition processFile ::
  "('b \<Rightarrow> string \<Rightarrow> 's process_result outcome) \<Rightarrow> ('b \<Rightarrow> string \<Rightarrow> 's process_result outcome)
     \<Rightarrow> 'b \<Rightarrow> string \<Rightarrow> 's process_result outcome"
where
  \<comment> \<open>\<open>procGPX\<close> and \<open>procFIT\<close> are \<open>processGPXFile\<close> and \<open>processFITFile\<close> with
      their parsers\<close>
  "processFile procGPX procFIT fileBuffer filename =
     (let extension = fileExtension filename
      in if extension = ''gpx'' then procGPX fileBuffer filename
         else if extension = ''fit'' then procFIT fileBuffer filename
         else Returned
                \<lparr> pr_error = Some ''Unsupported file type. Only GPX and FIT files are supported.'',
                  pr_stats = None \<rparr>)"

definition getRoutePoints ::
  "('b \<Rightarrow> point list option outcome) \<Rightarrow> ('b \<Rightarrow> point list option outcome)
     \<Rightarrow> 'b \<Rightarrow> string \<Rightarrow> point list option outcome"
where
  "getRoutePoints getGPXRoutePoints getFITRoutePoints fileBuffer filename =
     (let extension = fileExtension filename
      in if extension = ''gpx'' then getGPXRoutePoints fileBuffer
         else if extension = ''fit'' then getFITRoutePoints fileBuffer
         else Returned None)"

record file_error =
  fe_filename :: string
  fe_error :: string

record 's file_result =
  fr_stats :: "'s option"
  fr_binLength :: real
  fr_bins :: "bin list"
  fr_binSummary :: "bin_summary option"
  fr_routePointCount :: nat
  fr_hasHeartRateData :: bool
  fr_fileIndex :: nat

definition processOneFile ::
  "('b \<Rightarrow> string \<Rightarrow> 's process_result outcome) \<Rightarrow> ('b \<Rightarrow> string \<Rightarrow> point list option outcome)
     \<Rightarrow> real \<Rightarrow> nat \<Rightarrow> 'b upload
     \<Rightarrow> 's file_result list \<times> file_error list \<Rightarrow> 's file_result list \<times> file_error list"
where
  \<comment> \<open>the \<open>try\<close>/\<open>catch\<close> of the loop body: the new \<open>allResults\<close> and \<open>allErrors\<close>\<close>
  "processOneFile procFile routePts len i file acc =
     (case acc of (allResults, allErrors) \<Rightarrow>
        (case procFile (buffer file) (originalname file) of
           Threw message \<Rightarrow>
             (allResults, allErrors @ [\<lparr> fe_filename = originalname file, fe_error = message \<rparr>])
         | Returned result \<Rightarrow>
             (case pr_error result of
                Some (c # cs) \<Rightarrow>
                  (allResults,
                   allErrors @ [\<lparr> fe_filename = originalname file, fe_error = c # cs \<rparr>])
              | _ \<Rightarrow>
                  (case routePts (buffer file) (originalname file) of
                     Threw message \<Rightarrow>
                       (allResults,
                        allErrors @ [\<lparr> fe_filename = originalname file, fe_error = message \<rparr>])
                   | Returned routePoints \<Rightarrow>
                       (let bs = (case routePoints of
                                    Some pts \<Rightarrow> getAnalysisBins pts len None None
                                  | None \<Rightarrow> [])
                        in (allResults @
                              [\<lparr> fr_stats = pr_stats result,
                                 fr_binLength = len,
                                 fr_bins = bs,
                                 fr_binSummary = getBinSummary bs,
                                 fr_routePointCount =
                                   (case routePoints of Some pts \<Rightarrow> length pts | None \<Rightarrow> 0),
                                 fr_hasHeartRateData = list_ex (\<lambda>b. avgHeartRate b \<noteq> None) bs,
                                 fr_fileIndex = i \<rparr>],
                            allErrors))))))"

subsection \<open>The event stream\<close>

record 's progress_event =
  pg_fileIndex :: nat
  pg_totalFiles :: nat
  pg_progressPercent :: int
  pg_filesProcessed :: nat
  pg_currentFile :: string
  pg_resultsSoFar :: "'s file_result list"
  pg_errorsSoFar :: "file_error list"

record 's complete_event =
  done_totalFiles :: nat
  done_successfulFiles :: nat
  done_failedFiles :: nat
  done_results :: "'s file_result list"
  done_errors :: "file_error list"

datatype 's event =
    ProgressEvent "'s progress_event"
  | CompleteEvent "'s complete_event"
  | ErrorEvent string

datatype 's response = NotFound | EventStream "'s event list"

record 'b batch_data =
  bd_files :: "'b upload list"
  bd_binLength :: real
  bd_timestamp :: int

fun processFiles ::
  "('b \<Rightarrow> string \<Rightarrow> 's process_result outcome) \<Rightarrow> ('b \<Rightarrow> string \<Rightarrow> point list option outcome)
     \<Rightarrow> real \<Rightarrow> nat \<Rightarrow> nat \<Rightarrow> 'b upload list
     \<Rightarrow> 's file_result list \<times> file_error list
     \<Rightarrow> 's event list \<times> 's file_result list \<times> file_error list"
where
  \<comment> \<open>the loop \<open>for (let i = 0; i < totalFiles; i++)\<close> from index \<open>i\<close> on: the events
      written, and the final \<open>allResults\<close> and \<open>allErrors\<close>\<close>
  "processFiles procFile routePts len totalFiles i [] acc = ([], acc)"
| "processFiles procFile routePts len totalFiles i (file # rest) acc =
     (let acc1 = processOneFile procFile routePts len i file acc;
          progress =
            \<lparr> pg_fileIndex = i + 1,
              pg_totalFiles = totalFiles,
              pg_progressPercent = Math_round ((real (i + 1) / real totalFiles) * 100),
              pg_filesProcessed = length (fst acc1) + length (snd acc1),
              pg_currentFile = originalname file,
              pg_resultsSoFar = fst acc1,
              pg_errorsSoFar = snd acc1 \<rparr>;
          (events, final) = processFiles procFile routePts len totalFiles (i + 1) rest acc1
      in (ProgressEvent progress # events, final))"

definition processBatchHandler ::
  "('b \<Rightarrow> string \<Rightarrow> 's process_result outcome) \<Rightarrow> ('b \<Rightarrow> string \<Rightarrow> point list option outcome)
     \<Rightarrow> (string \<rightharpoonup> 'b batch_data) \<Rightarrow> string \<Rightarrow> (string \<rightharpoonup> 'b batch_data) \<times> 's response"
where
  \<comment> \<open>the handler on the store \<open>req.app.locals.batchFiles\<close>: the store afterwards and the
      response. Writing to the response is taken not to throw, so the outer \<open>catch\<close> with its
      \<open>error\<close> event is not entered.\<close>
  "processBatchHandler procFile routePts batchFiles batchId =
     (case batchFiles batchId of
        None \<Rightarrow> (batchFiles, NotFound)
      | Some batchData \<Rightarrow>
          (let totalFiles = length (bd_files batchData);
               initial =
                 \<lparr> pg_fileIndex = 0, pg_totalFiles = totalFiles, pg_progressPercent = 0,
                   pg_filesProcessed = 0, pg_currentFile = ''Starting analysis...'',
                   pg_resultsSoFar = [], pg_errorsSoFar = [] \<rparr>;
               (events, allResults, allErrors) =
                 processFiles procFile routePts (bd_binLength batchData) totalFiles 0
                   (bd_files batchData) ([], []);
               summary =
                 \<lparr> done_totalFiles = totalFiles,
                   done_successfulFiles = length allResults,
                   done_failedFiles = length allErrors,
                   done_results = allResults,
                   done_errors = allErrors \<rparr>
           in (batchFiles(batchId := None),
               EventStream (ProgressEvent initial # events @ [CompleteEvent summary]))))"

definition fileFails ::
  "('b \<Rightarrow> string \<Rightarrow> 's process_result outcome) \<Rightarrow> ('b \<Rightarrow> string \<Rightarrow> point list option outcome)
     \<Rightarrow> 'b upload \<Rightarrow> bool"
where
  \<comment> \<open>a file whose processing throws or reports an error\<close>
  "fileFails procFile routePts file =
     (case procFile (buffer file) (originalname file) of
        Threw message \<Rightarrow> True
      | Returned result \<Rightarrow>
          (case pr_error result of
             Some (c # cs) \<Rightarrow> True
           | _ \<Rightarrow>
               (case routePts (buffer file) (originalname file) of
                  Threw message \<Rightarrow> True
                | Returned routePoints \<Rightarrow> False)))"

definition isProgress :: "'s event \<Rightarrow> bool" where
  "isProgress e = (case e of ProgressEvent p \<Rightarrow> True | _ \<Rightarrow> False)"

definition isComplete :: "'s event \<Rightarrow> bool" where
  "isComplete e = (case e of CompleteEvent c \<Rightarrow> True | _ \<Rightarrow> False)"

definition responseEvents :: "'s response \<Rightarrow> 's event list" where
  "responseEvents r = (case r of EventStream evs \<Rightarrow> evs | NotFound \<Rightarrow> [])"

definition progressInfo :: "'s event \<Rightarrow> (nat \<times> nat \<times> string) option" where
  "progressInfo e =
     (case e of
        ProgressEvent p \<Rightarrow> Some (pg_fileIndex p, pg_filesProcessed p, pg_currentFile p)
      | _ \<Rightarrow> None)"

text \<open>Stand-ins for the parsers, for concrete batches: a buffer of \<open>0\<close> is a corrupt file.\<close>

definition sampleParseGPX :: "nat \<Rightarrow> point gpx_data outcome" where
  "sampleParseGPX fileBuffer =
     (if fileBuffer = 0 then Threw ''Non-whitespace before first tag.''
      else if fileBuffer = 3 then Returned \<lparr> tracks = [[]], routes = [] \<rparr>
      else Returned \<lparr> tracks = [halfTurn None None None None], routes = [] \<rparr>)"

definition sampleParseFIT :: "nat \<Rightarrow> (string + unit) outcome" where
  "sampleParseFIT fileBuffer = Returned (Inl ''File to small to be a FIT file'')"

definition sampleGPX :: "nat \<Rightarrow> string \<Rightarrow> unit process_result outcome" where
  "sampleGPX = processGPXFile sampleParseGPX (\<lambda>rawPoints filename. ())"

definition sampleFIT :: "nat \<Rightarrow> string \<Rightarrow> unit process_result outcome" where
  "sampleFIT = processFITFile sampleParseFIT (\<lambda>data filename. Returned ())"

definition sampleGPXRoute :: "nat \<Rightarrow> point list option outcome" where
  "sampleGPXRoute fileBuffer =
     (if fileBuffer = 0 then Returned None else Returned (Some (halfTurn None None None None)))"

definition sampleFITRoute :: "nat \<Rightarrow> point list option outcome" where
  "sampleFITRoute fileBuffer = Returned None"

definition threeFiles :: "nat upload list" where
  "threeFiles =
     [\<lparr> originalname = ''a.gpx'', buffer = 2 \<rparr>,
      \<lparr> originalname = ''b.gpx'', buffer = 0 \<rparr>,
      \<lparr> originalname = ''c.gpx'', buffer = 2 \<rparr>]"

definition sampleStore :: "string \<rightharpoonup> nat batch_data" where
  "sampleStore =
     [''1700000000000'' \<mapsto>
        \<lparr> bd_files = threeFiles, bd_binLength = 50, bd_timestamp = 1700000000000 \<rparr>]"

section \<open>Properties of the default model\<close>

lemma default_quadratic_step:
  fixes c1 c2 :: real
  assumes "- 35 \<le> c1" and "c1 \<le> c2"
  shows "1 + c1 * (33 / 1000) + c1 * c1 * (233 / 1000000) \<le> 1 + c2 * (33 / 1000) + c2 * c2 * (233 / 1000000)"
proof -
  have eq: "(1 + c2 * (33 / 1000) + c2 * c2 * (233 / 1000000)) - (1 + c1 * (33 / 1000) + c1 * c1 * (233 / 1000000))
              = (c2 - c1) * ((33 / 1000) + (233 / 1000000) * (c1 + c2))"
    by (simp add: field_simps)
  have "0 \<le> c2 - c1" using assms by simp
  moreover have "0 \<le> (33 / 1000) + (233 / 1000000) * (c1 + c2)" using assms by (simp add: field_simps)
  ultimately have "0 \<le> (c2 - c1) * ((33 / 1000) + (233 / 1000000) * (c1 + c2))"
    by (rule mult_nonneg_nonneg)
  with eq show ?thesis by linarith
qed


subsection \<open>Rounding to binary64\<close>

lemma roundTiesToEven_floor:
  "roundTiesToEven r = \<lfloor>r\<rfloor> \<or> roundTiesToEven r = \<lfloor>r\<rfloor> + 1"
  by (simp add: roundTiesToEven_def Let_def)

lemma roundTiesToEven_error: "\<bar>of_int (roundTiesToEven r) - r\<bar> \<le> 1 / 2"
  unfolding roundTiesToEven_def Let_def by (auto; linarith)

lemma roundTiesToEven_of_int [simp]: "roundTiesToEven (of_int n) = n"
  by (simp add: roundTiesToEven_def)

lemma roundTiesToEven_eqI:
  assumes "\<bar>r - of_int n\<bar> < 1 / 2"
  shows "roundTiesToEven r = n"
proof -
  have "\<bar>of_int (roundTiesToEven r) - r\<bar> \<le> 1 / 2" by (rule roundTiesToEven_error)
  with assms have "\<bar>(of_int (roundTiesToEven r) :: real) - of_int n\<bar> < 1" by linarith
  then have "\<bar>roundTiesToEven r - n\<bar> < 1"
    by (metis of_int_1 of_int_abs of_int_diff of_int_less_iff)
  then show ?thesis by linarith
qed

lemma roundTiesToEven_mono:
  assumes "r \<le> s"
  shows "roundTiesToEven r \<le> roundTiesToEven s"
proof (cases "\<lfloor>r\<rfloor> = \<lfloor>s\<rfloor>")
  case True
  then show ?thesis using assms
    unfolding roundTiesToEven_def Let_def by (auto; linarith)
next
  case False
  have "\<lfloor>r\<rfloor> \<le> \<lfloor>s\<rfloor>" using assms by (rule floor_mono)
  with False have "\<lfloor>r\<rfloor> + 1 \<le> \<lfloor>s\<rfloor>" by linarith
  moreover have "roundTiesToEven r \<le> \<lfloor>r\<rfloor> + 1" using roundTiesToEven_floor[of r] by linarith
  moreover have "\<lfloor>s\<rfloor> \<le> roundTiesToEven s" using roundTiesToEven_floor[of s] by linarith
  ultimately show ?thesis by linarith
qed

lemma roundTiesToEven_minus: "roundTiesToEven (- r) = - roundTiesToEven r"
proof (cases "r = of_int \<lfloor>r\<rfloor>")
  case True
  then obtain n where r: "r = of_int n" ..
  have "roundTiesToEven (of_int (- n)) = - n" by (rule roundTiesToEven_of_int)
  then show ?thesis by (simp add: r)
next
  case False
  then have f: "\<lfloor>- r\<rfloor> = - \<lfloor>r\<rfloor> - 1" by (simp add: floor_minus ceiling_altdef)
  have lt: "of_int \<lfloor>r\<rfloor> < r" using False by (metis floor_correct less_eq_real_def)
  show ?thesis
    unfolding roundTiesToEven_def Let_def f using lt
    by (auto; linarith?)
qed

lemma binade:
  assumes "x \<noteq> 0"
  shows "2 powi \<lfloor>log 2 \<bar>x\<bar>\<rfloor> \<le> \<bar>x\<bar>" and "\<bar>x\<bar> < 2 powi (\<lfloor>log 2 \<bar>x\<bar>\<rfloor> + 1)"
proof -
  have pos: "0 < \<bar>x\<bar>" using assms by simp
  have "\<lfloor>log 2 \<bar>x\<bar>\<rfloor> = \<lfloor>log 2 \<bar>x\<bar>\<rfloor>" ..
  then have "2 powr of_int \<lfloor>log 2 \<bar>x\<bar>\<rfloor> \<le> \<bar>x\<bar> \<and> \<bar>x\<bar> < 2 powr (of_int \<lfloor>log 2 \<bar>x\<bar>\<rfloor> + 1)"
    using floor_log_eq_powr_iff[OF pos, of 2 "\<lfloor>log 2 \<bar>x\<bar>\<rfloor>"] by simp
  moreover have "(2::real) powr of_int k = 2 powi k" for k
    by (rule powr_real_of_int') simp_all
  moreover have "of_int \<lfloor>log 2 \<bar>x\<bar>\<rfloor> + 1 = (of_int (\<lfloor>log 2 \<bar>x\<bar>\<rfloor> + 1) :: real)" by simp
  ultimately show "2 powi \<lfloor>log 2 \<bar>x\<bar>\<rfloor> \<le> \<bar>x\<bar>" and "\<bar>x\<bar> < 2 powi (\<lfloor>log 2 \<bar>x\<bar>\<rfloor> + 1)"
    by metis+
qed

lemma floor_log2_eqI:
  assumes "2 powi e \<le> \<bar>x\<bar>" and "\<bar>x\<bar> < 2 powi (e + 1)"
  shows "\<lfloor>log 2 \<bar>x\<bar>\<rfloor> = e"
proof -
  have "0 < (2::real) powi e" by simp
  with assms(1) have pos: "0 < \<bar>x\<bar>" by linarith
  have p: "(2::real) powr of_int k = 2 powi k" for k
    by (rule powr_real_of_int') simp_all
  have "2 powr of_int e \<le> \<bar>x\<bar> \<and> \<bar>x\<bar> < 2 powr (of_int e + 1)"
    using assms p[of e] p[of "e + 1"] by simp
  then show ?thesis using floor_log_eq_powr_iff[OF pos, of 2 e] by simp
qed

lemma ulpExponent_minus [simp]: "ulpExponent (- x) = ulpExponent x"
  by (simp add: ulpExponent_def)

lemma ulpExponent_upper:
  assumes "x \<noteq> 0"
  shows "\<bar>x\<bar> < 2 powi (ulpExponent x + 53)"
proof -
  have "\<bar>x\<bar> < 2 powi (\<lfloor>log 2 \<bar>x\<bar>\<rfloor> + 1)" using assms by (rule binade)
  also have "\<dots> \<le> 2 powi (ulpExponent x + 53)"
    by (rule power_int_increasing) (simp_all add: ulpExponent_def)
  finally show ?thesis .
qed

lemma ulpExponent_lower:
  assumes "x \<noteq> 0" and "- 1074 < ulpExponent x"
  shows "2 powi (ulpExponent x + 52) \<le> \<bar>x\<bar>"
proof -
  from assms(2) have "ulpExponent x + 52 = \<lfloor>log 2 \<bar>x\<bar>\<rfloor>"
    by (simp add: ulpExponent_def max_def split: if_splits)
  then show ?thesis using binade(1)[OF assms(1)] by simp
qed

lemma ulpExponent_mono:
  assumes "x \<noteq> 0" and "\<bar>x\<bar> \<le> \<bar>y\<bar>"
  shows "ulpExponent x \<le> ulpExponent y"
proof -
  have "0 < \<bar>x\<bar>" using assms(1) by simp
  then have "log 2 \<bar>x\<bar> \<le> log 2 \<bar>y\<bar>" using assms(2) by simp
  then have "\<lfloor>log 2 \<bar>x\<bar>\<rfloor> \<le> \<lfloor>log 2 \<bar>y\<bar>\<rfloor>" by (rule floor_mono)
  then show ?thesis by (simp add: ulpExponent_def)
qed

lemma ulpExponent_bound:
  assumes "\<bar>x\<bar> < 2 powi k" and "- 1021 \<le> k" and "x \<noteq> 0"
  shows "ulpExponent x \<le> k - 53"
proof -
  have "2 powi \<lfloor>log 2 \<bar>x\<bar>\<rfloor> \<le> \<bar>x\<bar>" using assms(3) by (rule binade)
  with assms(1) have lt: "(2::real) powi \<lfloor>log 2 \<bar>x\<bar>\<rfloor> < 2 powi k" by linarith
  have "\<lfloor>log 2 \<bar>x\<bar>\<rfloor> < k"
  proof (rule ccontr)
    assume "\<not> \<lfloor>log 2 \<bar>x\<bar>\<rfloor> < k"
    then have "(2::real) powi k \<le> 2 powi \<lfloor>log 2 \<bar>x\<bar>\<rfloor>"
      by (intro power_int_increasing) simp_all
    with lt show False by linarith
  qed
  then show ?thesis using assms(2) by (simp add: ulpExponent_def)
qed

lemma binary64_0 [simp]: "binary64 0 = 0"
  by (simp add: binary64_def)

lemma binary64_minus: "binary64 (- x) = - binary64 x"
  by (simp add: binary64_def roundTiesToEven_minus)

lemma binary64_nonneg:
  assumes "0 \<le> x"
  shows "0 \<le> binary64 x"
proof (cases "x = 0")
  case True then show ?thesis by simp
next
  case False
  have "0 \<le> x / 2 powi ulpExponent x" using assms by simp
  then have "roundTiesToEven 0 \<le> roundTiesToEven (x / 2 powi ulpExponent x)"
    by (rule roundTiesToEven_mono)
  moreover have "roundTiesToEven 0 = 0" using roundTiesToEven_of_int[of 0] by simp
  ultimately have "0 \<le> roundTiesToEven (x / 2 powi ulpExponent x)" by simp
  then show ?thesis using False by (simp add: binary64_def)
qed

lemma binary64_mono_pos:
  assumes "0 < x" and "x \<le> y"
  shows "binary64 x \<le> binary64 y"
proof -
  have x0: "x \<noteq> 0" and y0: "y \<noteq> 0" and ypos: "0 < y" using assms by simp_all
  let ?ex = "ulpExponent x" and ?ey = "ulpExponent y"
  have le: "?ex \<le> ?ey" using x0 assms by (intro ulpExponent_mono) simp_all
  have bx: "binary64 x = of_int (roundTiesToEven (x / 2 powi ?ex)) * 2 powi ?ex"
    and "by": "binary64 y = of_int (roundTiesToEven (y / 2 powi ?ey)) * 2 powi ?ey"
    using x0 y0 by (simp_all add: binary64_def)
  show ?thesis
  proof (cases "?ex = ?ey")
    case True
    have "x / 2 powi ?ey \<le> y / 2 powi ?ey" using assms(2) by (simp add: divide_right_mono)
    then have "roundTiesToEven (x / 2 powi ?ey) \<le> roundTiesToEven (y / 2 powi ?ey)"
      by (rule roundTiesToEven_mono)
    then have "(of_int (roundTiesToEven (x / 2 powi ?ey)) :: real) * 2 powi ?ey
                 \<le> of_int (roundTiesToEven (y / 2 powi ?ey)) * 2 powi ?ey"
      by (intro mult_right_mono) simp_all
    then show ?thesis unfolding bx "by" True .
  next
    case False
    with le have lt: "?ex + 1 \<le> ?ey" by simp
    have "x < 2 powi (?ex + 53)" using ulpExponent_upper[OF x0] assms(1) by simp
    then have "x / 2 powi ?ex < 2 powi (?ex + 53) / 2 powi ?ex"
      by (simp add: divide_strict_right_mono)
    also have "2 powi (?ex + 53) / 2 powi ?ex = (2::real) ^ 53"
      by (simp add: power_int_add)
    finally have "x / 2 powi ?ex \<le> of_int (2 ^ 53)" by simp
    then have "roundTiesToEven (x / 2 powi ?ex) \<le> roundTiesToEven (of_int (2 ^ 53))"
      by (rule roundTiesToEven_mono)
    then have "roundTiesToEven (x / 2 powi ?ex) \<le> 2 ^ 53" by (simp only: roundTiesToEven_of_int)
    then have "(of_int (roundTiesToEven (x / 2 powi ?ex)) :: real) \<le> of_int (2 ^ 53)"
      by (simp only: of_int_le_iff)
    then have "(of_int (roundTiesToEven (x / 2 powi ?ex)) :: real) * 2 powi ?ex \<le> of_int (2 ^ 53) * 2 powi ?ex"
      by (intro mult_right_mono) simp_all
    also have "(of_int (2 ^ 53) :: real) * 2 powi ?ex = 2 powi (?ex + 53)"
      by (simp add: power_int_add)
    finally have ux: "binary64 x \<le> 2 powi (?ex + 53)" unfolding bx .
    have "- 1074 \<le> ?ex" by (simp add: ulpExponent_def)
    with lt have "- 1074 < ?ey" by simp
    from ulpExponent_lower[OF y0 this] ypos have "2 powi (?ey + 52) \<le> y" by simp
    then have "2 powi (?ey + 52) / 2 powi ?ey \<le> y / 2 powi ?ey"
      by (simp add: divide_right_mono)
    moreover have "2 powi (?ey + 52) / 2 powi ?ey = (2::real) ^ 52"
      by (simp add: power_int_add)
    ultimately have "of_int (2 ^ 52) \<le> y / 2 powi ?ey" by simp
    then have "roundTiesToEven (of_int (2 ^ 52)) \<le> roundTiesToEven (y / 2 powi ?ey)"
      by (rule roundTiesToEven_mono)
    then have "2 ^ 52 \<le> roundTiesToEven (y / 2 powi ?ey)" by (simp only: roundTiesToEven_of_int)
    then have "(of_int (2 ^ 52) :: real) \<le> of_int (roundTiesToEven (y / 2 powi ?ey))"
      by (simp only: of_int_le_iff)
    then have A: "(of_int (2 ^ 52) :: real) * 2 powi ?ey \<le> of_int (roundTiesToEven (y / 2 powi ?ey)) * 2 powi ?ey"
      by (intro mult_right_mono) simp_all
    have B: "(of_int (2 ^ 52) :: real) * 2 powi ?ey = 2 powi (?ey + 52)"
      by (simp add: power_int_add)
    from A[unfolded B] have ly: "2 powi (?ey + 52) \<le> binary64 y" unfolding "by" .
    have "(2::real) powi (?ex + 53) \<le> 2 powi (?ey + 52)"
      using lt by (intro power_int_increasing) simp_all
    with ux ly show ?thesis by linarith
  qed
qed

lemma binary64_mono:
  assumes "x \<le> y"
  shows "binary64 x \<le> binary64 y"
proof -
  consider "0 < x" | "x \<le> 0" "0 \<le> y" | "y < 0" by linarith
  then show ?thesis
  proof cases
    case 1
    then show ?thesis using assms by (rule binary64_mono_pos)
  next
    case 2
    have "0 \<le> binary64 (- x)" using 2(1) by (intro binary64_nonneg) simp
    then have "binary64 x \<le> 0" by (simp add: binary64_minus)
    moreover have "0 \<le> binary64 y" using 2(2) by (rule binary64_nonneg)
    ultimately show ?thesis by linarith
  next
    case 3
    have "binary64 (- y) \<le> binary64 (- x)" using 3 assms by (intro binary64_mono_pos) simp_all
    then show ?thesis by (simp add: binary64_minus)
  qed
qed

lemma binary64_error:
  assumes "\<bar>x\<bar> < 2 powi k" and "- 1021 \<le> k"
  shows "\<bar>binary64 x - x\<bar> \<le> 2 powi (k - 54)"
proof (cases "x = 0")
  case True then show ?thesis by simp
next
  case False
  let ?e = "ulpExponent x"
  have e: "?e \<le> k - 53" using assms False by (rule ulpExponent_bound)
  have p: "0 < (2::real) powi ?e" by simp
  have "binary64 x - x = (of_int (roundTiesToEven (x / 2 powi ?e)) - x / 2 powi ?e) * 2 powi ?e"
    using False by (simp add: binary64_def algebra_simps)
  then have "\<bar>binary64 x - x\<bar> = \<bar>of_int (roundTiesToEven (x / 2 powi ?e)) - x / 2 powi ?e\<bar> * 2 powi ?e"
    using p by (simp add: abs_mult)
  also have "\<dots> \<le> (1 / 2) * 2 powi ?e"
    using roundTiesToEven_error[of "x / 2 powi ?e"] p by (intro mult_right_mono) simp_all
  also have "(1 / 2) * 2 powi ?e = (2::real) powi (?e - 1)"
    by (simp add: power_int_diff)
  also have "\<dots> \<le> 2 powi (k - 54)"
    using e by (intro power_int_increasing) simp_all
  finally show ?thesis .
qed

lemma binary64_eqI:
  assumes "x \<noteq> 0" and "- 1022 \<le> e" and "2 powi e \<le> \<bar>x\<bar>" and "\<bar>x\<bar> < 2 powi (e + 1)"
    and "\<bar>x * 2 powi (52 - e) - of_int n\<bar> < 1 / 2" and "y = of_int n / 2 powi (52 - e)"
  shows "binary64 x = y"
proof -
  have "\<lfloor>log 2 \<bar>x\<bar>\<rfloor> = e" using assms(3,4) by (rule floor_log2_eqI)
  then have u: "ulpExponent x = e - 52" using assms(2) by (simp add: ulpExponent_def)
  have d: "x / 2 powi (e - 52) = x * 2 powi (52 - e)"
    using power_int_minus[of "2::real" "e - 52"] by (simp add: field_simps)
  have m: "z * 2 powi (e - 52) = z / 2 powi (52 - e)" for z :: real
    using power_int_minus[of "2::real" "52 - e"] by (simp add: field_simps)
  have "roundTiesToEven (x * 2 powi (52 - e)) = n" using assms(5) by (rule roundTiesToEven_eqI)
  then show ?thesis using assms(1,6) by (simp add: binary64_def u d m)
qed

lemma binary64_tie_eqI:
  assumes "x \<noteq> 0" and "- 1022 \<le> e" and "2 powi e \<le> \<bar>x\<bar>" and "\<bar>x\<bar> < 2 powi (e + 1)"
    and "roundTiesToEven (x * 2 powi (52 - e)) = n" and "y = of_int n / 2 powi (52 - e)"
  shows "binary64 x = y"
proof -
  have "\<lfloor>log 2 \<bar>x\<bar>\<rfloor> = e" using assms(3,4) by (rule floor_log2_eqI)
  then have u: "ulpExponent x = e - 52" using assms(2) by (simp add: ulpExponent_def)
  have d: "x / 2 powi (e - 52) = x * 2 powi (52 - e)"
    using power_int_minus[of "2::real" "e - 52"] by (simp add: field_simps)
  have m: "z * 2 powi (e - 52) = z / 2 powi (52 - e)" for z :: real
    using power_int_minus[of "2::real" "52 - e"] by (simp add: field_simps)
  show ?thesis using assms(1,5,6) by (simp add: binary64_def u d m)
qed

subsection \<open>The default model in binary64\<close>

lemma binary64_literals:
  "binary64 (33 / 1000) = 1188950301625811 / 36028797018963968"
  "binary64 (233 / 1000000) = 8596182738348651 / 36893488147419103232"
  "binary64 (3 / 10) = 5404319552844595 / 18014398509481984"
  "binary64 (2440425 / 1000000) = 5495348560312821 / 2251799813685248"
proof -
  show "binary64 (33 / 1000) = 1188950301625811 / 36028797018963968"
    by (rule binary64_eqI[where e = "- 5" and n = 4755801206503244]) simp_all
  show "binary64 (233 / 1000000) = 8596182738348651 / 36893488147419103232"
    by (rule binary64_eqI[where e = "- 13" and n = 8596182738348651]) simp_all
  show "binary64 (3 / 10) = 5404319552844595 / 18014398509481984"
    by (rule binary64_eqI[where e = "- 2" and n = 5404319552844595]) simp_all
  show "binary64 (2440425 / 1000000) = 5495348560312821 / 2251799813685248"
    by (rule binary64_eqI[where e = 1 and n = 5495348560312821]) simp_all
qed

lemma calculateGradeAdjustment_binary64_adjustment:
  "calculateGradeAdjustment_binary64 g
     = max (binary64 (3 / 10)) (adjustment64 (max (- 35) (min 35 g)))"
  by (simp add: calculateGradeAdjustment_binary64_def adjustment64_def Let_def)

lemma adjustment64_mono:
  assumes "c1 \<le> c2" and "c1 * c1 \<le> c2 * c2"
  shows "adjustment64 c1 \<le> adjustment64 c2"
proof -
  have k1: "0 \<le> binary64 (33 / 1000)" and k2: "0 \<le> binary64 (233 / 1000000)"
    by (rule binary64_nonneg, simp)+
  have "c1 * binary64 (33 / 1000) \<le> c2 * binary64 (33 / 1000)"
    using assms(1) k1 by (rule mult_right_mono)
  then have "binary64 (c1 * binary64 (33 / 1000)) \<le> binary64 (c2 * binary64 (33 / 1000))"
    by (rule binary64_mono)
  then have "1 + binary64 (c1 * binary64 (33 / 1000)) \<le> 1 + binary64 (c2 * binary64 (33 / 1000))"
    by simp
  then have a: "binary64 (1 + binary64 (c1 * binary64 (33 / 1000)))
                  \<le> binary64 (1 + binary64 (c2 * binary64 (33 / 1000)))"
    by (rule binary64_mono)
  have "binary64 (c1 * c1) \<le> binary64 (c2 * c2)" using assms(2) by (rule binary64_mono)
  then have "binary64 (c1 * c1) * binary64 (233 / 1000000) \<le> binary64 (c2 * c2) * binary64 (233 / 1000000)"
    using k2 by (rule mult_right_mono)
  then have b: "binary64 (binary64 (c1 * c1) * binary64 (233 / 1000000))
                  \<le> binary64 (binary64 (c2 * c2) * binary64 (233 / 1000000))"
    by (rule binary64_mono)
  from a b have "binary64 (1 + binary64 (c1 * binary64 (33 / 1000)))
                   + binary64 (binary64 (c1 * c1) * binary64 (233 / 1000000))
                 \<le> binary64 (1 + binary64 (c2 * binary64 (33 / 1000)))
                   + binary64 (binary64 (c2 * c2) * binary64 (233 / 1000000))"
    by (rule add_mono)
  then show ?thesis unfolding adjustment64_def by (rule binary64_mono)
qed

lemma binary64_error_bounds:
  assumes "- b < x" and "x < b" and "b = 2 powi k" and "- 1021 \<le> k" and "d = 2 powi (k - 54)"
  shows "- d \<le> binary64 x - x" and "binary64 x - x \<le> d"
proof -
  have "\<bar>x\<bar> < 2 powi k" using assms(1,2,3) by simp
  from binary64_error[OF this assms(4)] show "- d \<le> binary64 x - x" and "binary64 x - x \<le> d"
    unfolding assms(5) by linarith+
qed

lemma adjustment64_error:
  assumes "- 35 \<le> c" and "c \<le> 35"
  shows "\<bar>adjustment64 c - (1 + c * (33 / 1000) + c * c * (233 / 1000000))\<bar> \<le> 1 / 2 ^ 50"
proof -
  define sq where "sq = c * c"
  define p1 where "p1 = c * (1188950301625811 / 36028797018963968)"
  define t1 where "t1 = binary64 p1"
  define s1 where "s1 = binary64 (1 + t1)"
  define q where "q = binary64 sq"
  define p2 where "p2 = q * (8596182738348651 / 36893488147419103232)"
  define t2 where "t2 = binary64 p2"
  define a where "a = binary64 (s1 + t2)"
  have a_def': "adjustment64 c = a"
    by (simp only: adjustment64_def binary64_literals a_def s1_def t1_def p1_def t2_def p2_def q_def sq_def)
  have "\<bar>c\<bar> \<le> 35" using assms by simp
  then have "\<bar>c\<bar> * \<bar>c\<bar> \<le> 35 * 35" by (intro mult_mono) simp_all
  then have sq1: "sq \<le> 1225" by (simp add: sq_def abs_mult[symmetric])
  have sq0: "0 \<le> sq" by (simp add: sq_def)
  have b1: "- 2 < p1" "p1 < 2" using assms unfolding p1_def by linarith+
  have e1: "- (1 / 2 ^ 53) \<le> t1 - p1" "t1 - p1 \<le> 1 / 2 ^ 53"
    unfolding t1_def by (rule binary64_error_bounds(1)[OF b1, where k = 1]; simp)
       (rule binary64_error_bounds(2)[OF b1, where k = 1]; simp)
  have b2: "- 4 < 1 + t1" "1 + t1 < 4" using b1 e1 by simp_all
  have e2: "- (1 / 2 ^ 52) \<le> s1 - (1 + t1)" "s1 - (1 + t1) \<le> 1 / 2 ^ 52"
    unfolding s1_def by (rule binary64_error_bounds(1)[OF b2, where k = 2]; simp)
       (rule binary64_error_bounds(2)[OF b2, where k = 2]; simp)
  have b3: "- 2048 < sq" "sq < 2048" using sq0 sq1 by simp_all
  have e3: "- (1 / 2 ^ 43) \<le> q - sq" "q - sq \<le> 1 / 2 ^ 43"
    unfolding q_def by (rule binary64_error_bounds(1)[OF b3, where k = 11]; simp)
       (rule binary64_error_bounds(2)[OF b3, where k = 11]; simp)
  have b4: "- (1 / 2) < p2" "p2 < 1 / 2" using sq0 sq1 e3 unfolding p2_def by simp_all
  have e4: "- (1 / 2 ^ 55) \<le> t2 - p2" "t2 - p2 \<le> 1 / 2 ^ 55"
    unfolding t2_def by (rule binary64_error_bounds(1)[OF b4, where k = "- 1"]; simp)
       (rule binary64_error_bounds(2)[OF b4, where k = "- 1"]; simp)
  have b5: "- 4 < s1 + t2" "s1 + t2 < 4" using b1 e1 e2 b4 e4 by simp_all
  have e5: "- (1 / 2 ^ 52) \<le> a - (s1 + t2)" "a - (s1 + t2) \<le> 1 / 2 ^ 52"
    unfolding a_def by (rule binary64_error_bounds(1)[OF b5, where k = 2]; simp)
       (rule binary64_error_bounds(2)[OF b5, where k = 2]; simp)
  have "- (1 / 2 ^ 50) \<le> a - (1 + c * (33 / 1000) + sq * (233 / 1000000))"
    using assms sq0 sq1 e1 e2 e3 e4 e5 unfolding p1_def p2_def by simp
  moreover have "a - (1 + c * (33 / 1000) + sq * (233 / 1000000)) \<le> 1 / 2 ^ 50"
    using assms sq0 sq1 e1 e2 e3 e4 e5 unfolding p1_def p2_def by simp
  ultimately show ?thesis unfolding a_def' sq_def by linarith
qed

lemma max_error:
  fixes a b a' b' d :: real
  assumes "\<bar>a - a'\<bar> \<le> d" and "\<bar>b - b'\<bar> \<le> d"
  shows "\<bar>max a b - max a' b'\<bar> \<le> d"
  using assms by (simp add: max_def) linarith

lemma calculateGradeAdjustment_binary64_error:
  "\<bar>calculateGradeAdjustment_binary64 g - calculateGradeAdjustment g\<bar> \<le> 1 / 2 ^ 50"
proof -
  let ?c = "max (- 35) (min 35 g)"
  have c: "- 35 \<le> ?c" "?c \<le> 35" by simp_all
  have "\<bar>binary64 (3 / 10) - 3 / 10\<bar> \<le> 1 / 2 ^ 50"
    by (simp add: binary64_literals)
  moreover note adjustment64_error[OF c]
  ultimately have "\<bar>max (binary64 (3 / 10)) (adjustment64 ?c)
                    - max (3 / 10) (1 + ?c * (33 / 1000) + ?c * ?c * (233 / 1000000))\<bar> \<le> 1 / 2 ^ 50"
    by (rule max_error)
  then show ?thesis
    by (simp only: calculateGradeAdjustment_binary64_adjustment calculateGradeAdjustment_def Let_def)
qed

lemma adjustment64_35: "adjustment64 35 = (2747674280156411 / 1125899906842624)"
proof -
  have m1: "35 * (1188950301625811 / 36028797018963968) = ((41613260556903385 / 36028797018963968) :: real)" by simp
  have r1: "binary64 (41613260556903385 / 36028797018963968) = (5201657569612923 / 4503599627370496)"
    by (rule binary64_eqI[where e = 0 and n = 5201657569612923]) simp_all
  have m2: "1 + (5201657569612923 / 4503599627370496) = ((9705257196983419 / 4503599627370496) :: real)" by simp
  have r2: "binary64 (9705257196983419 / 4503599627370496) = (2426314299245855 / 1125899906842624)"
    by (rule binary64_tie_eqI[where e = 1 and n = 4852628598491710])
       (simp_all add: roundTiesToEven_def Let_def)
  have m3: "35 * 35 = (1225 :: real)" by simp
  have r3: "binary64 1225 = 1225"
    by (rule binary64_eqI[where e = 10 and n = 5387606976102400]) simp_all
  have m4: "1225 * (8596182738348651 / 36893488147419103232) = ((10530323854477097475 / 36893488147419103232) :: real)" by simp
  have r4: "binary64 (10530323854477097475 / 36893488147419103232) = (5141759694568895 / 18014398509481984)"
    by (rule binary64_eqI[where e = "- 2" and n = 5141759694568895]) simp_all
  have m5: "(2426314299245855 / 1125899906842624) + (5141759694568895 / 18014398509481984) = ((43962788482502575 / 18014398509481984) :: real)" by simp
  have r5: "binary64 (43962788482502575 / 18014398509481984) = (2747674280156411 / 1125899906842624)"
    by (rule binary64_eqI[where e = 1 and n = 5495348560312822]) simp_all
  show ?thesis
    by (simp only: adjustment64_def binary64_literals m1 r1 m2 r2 m3 r3 m4 r4 m5 r5)
qed

lemma adjustment64_10: "adjustment64 10 = (6094721375720493 / 4503599627370496)"
proof -
  have m1: "10 * (1188950301625811 / 36028797018963968) = ((5944751508129055 / 18014398509481984) :: real)" by simp
  have r1: "binary64 (5944751508129055 / 18014398509481984) = (5944751508129055 / 18014398509481984)"
    by (rule binary64_eqI[where e = "- 2" and n = 5944751508129055]) simp_all
  have m2: "1 + (5944751508129055 / 18014398509481984) = ((23959150017611039 / 18014398509481984) :: real)" by simp
  have r2: "binary64 (23959150017611039 / 18014398509481984) = (748723438050345 / 562949953421312)"
    by (rule binary64_eqI[where e = 0 and n = 5989787504402760]) simp_all
  have m3: "10 * 10 = (100 :: real)" by simp
  have r3: "binary64 100 = 100"
    by (rule binary64_eqI[where e = 6 and n = 7036874417766400]) simp_all
  have m4: "100 * (8596182738348651 / 36893488147419103232) = ((214904568458716275 / 9223372036854775808) :: real)" by simp
  have r4: "binary64 (214904568458716275 / 9223372036854775808) = (1678941941083721 / 72057594037927936)"
    by (rule binary64_eqI[where e = "- 6" and n = 6715767764334884]) simp_all
  have m5: "(748723438050345 / 562949953421312) + (1678941941083721 / 72057594037927936) = ((97515542011527881 / 72057594037927936) :: real)" by simp
  have r5: "binary64 (97515542011527881 / 72057594037927936) = (6094721375720493 / 4503599627370496)"
    by (rule binary64_eqI[where e = 0 and n = 6094721375720493]) simp_all
  show ?thesis
    by (simp only: adjustment64_def binary64_literals m1 r1 m2 r2 m3 r3 m4 r4 m5 r5)
qed

lemma adjustment64_low: "adjustment64 (- (3614983125894955 / 281474976710656)) = (5535938487895359 / 9007199254740992)"
proof -
  have m1: "(- (3614983125894955 / 281474976710656)) * (1188950301625811 / 36028797018963968) = ((- (4298035277905023846630902683505 / 10141204801825835211973625643008)) :: real)" by simp
  have r1: "binary64 (- (4298035277905023846630902683505 / 10141204801825835211973625643008)) = (- (7634844361890145 / 18014398509481984))"
    by (rule binary64_eqI[where e = "- 2" and n = "- 7634844361890145"]) simp_all
  have m2: "1 + (- (7634844361890145 / 18014398509481984)) = ((10379554147591839 / 18014398509481984) :: real)" by simp
  have r2: "binary64 (10379554147591839 / 18014398509481984) = (324361067112245 / 562949953421312)"
    by (rule binary64_tie_eqI[where e = "- 1" and n = 5189777073795920])
       (simp_all add: roundTiesToEven_def Let_def)
  have m3: "(- (3614983125894955 / 281474976710656)) * (- (3614983125894955 / 281474976710656)) = ((13068103000505260071069694452025 / 79228162514264337593543950336) :: real)" by simp
  have r3: "binary64 (13068103000505260071069694452025 / 79228162514264337593543950336) = (5803403535733613 / 35184372088832)"
    by (rule binary64_eqI[where e = 7 and n = 5803403535733613]) simp_all
  have m4: "(5803403535733613 / 35184372088832) * (8596182738348651 / 36893488147419103232) = ((49887117297544812683109453906063 / 1298074214633706907132624082305024) :: real)" by simp
  have r4: "binary64 (49887117297544812683109453906063 / 1298074214633706907132624082305024) = (5538582625591017 / 144115188075855872)"
    by (rule binary64_eqI[where e = "- 5" and n = 5538582625591017]) simp_all
  have m5: "(324361067112245 / 562949953421312) + (5538582625591017 / 144115188075855872) = ((88575015806325737 / 144115188075855872) :: real)" by simp
  have r5: "binary64 (88575015806325737 / 144115188075855872) = (5535938487895359 / 9007199254740992)"
    by (rule binary64_eqI[where e = "- 1" and n = 5535938487895359]) simp_all
  show ?thesis
    by (simp only: adjustment64_def binary64_literals m1 r1 m2 r2 m3 r3 m4 r4 m5 r5)
qed

lemma adjustment64_high: "adjustment64 (- (7229966251789909 / 562949953421312)) = (2767969243947679 / 4503599627370496)"
proof -
  have m1: "(- (7229966251789909 / 562949953421312)) * (1188950301625811 / 36028797018963968) = ((- (8596070555810046504311503741199 / 20282409603651670423947251286016)) :: real)" by simp
  have r1: "binary64 (- (8596070555810046504311503741199 / 20282409603651670423947251286016)) = (- (238588886309067 / 562949953421312))"
    by (rule binary64_eqI[where e = "- 2" and n = "- 7634844361890144"]) simp_all
  have m2: "1 + (- (238588886309067 / 562949953421312)) = ((324361067112245 / 562949953421312) :: real)" by simp
  have r2: "binary64 (324361067112245 / 562949953421312) = (324361067112245 / 562949953421312)"
    by (rule binary64_eqI[where e = "- 1" and n = 5189777073795920]) simp_all
  have m3: "(- (7229966251789909 / 562949953421312)) * (- (7229966251789909 / 562949953421312)) = ((52272412002021025824346274228281 / 316912650057057350374175801344) :: real)" by simp
  have r3: "binary64 (52272412002021025824346274228281 / 316912650057057350374175801344) = (1450850883933403 / 8796093022208)"
    by (rule binary64_eqI[where e = 7 and n = 5803403535733612]) simp_all
  have m4: "(1450850883933403 / 8796093022208) * (8596182738348651 / 36893488147419103232) = ((12471779324386201021731678889353 / 324518553658426726783156020576256) :: real)" by simp
  have r4: "binary64 (12471779324386201021731678889353 / 324518553658426726783156020576256) = (692322828198877 / 18014398509481984)"
    by (rule binary64_eqI[where e = "- 5" and n = 5538582625591016]) simp_all
  have m5: "(324361067112245 / 562949953421312) + (692322828198877 / 18014398509481984) = ((11071876975790717 / 18014398509481984) :: real)" by simp
  have r5: "binary64 (11071876975790717 / 18014398509481984) = (2767969243947679 / 4503599627370496)"
    by (rule binary64_tie_eqI[where e = "- 1" and n = 5535938487895358])
       (simp_all add: roundTiesToEven_def Let_def)
  show ?thesis
    by (simp only: adjustment64_def binary64_literals m1 r1 m2 r2 m3 r3 m4 r4 m5 r5)
qed

lemma calculateGradeAdjustment_binary64_upper:
  "calculateGradeAdjustment_binary64 g \<le> calculateGradeAdjustment_binary64 35"
proof -
  let ?c = "max (- 35) (min 35 g)"
  have "?c \<le> 35" by simp
  moreover have "?c * ?c \<le> 35 * 35"
  proof -
    have "\<bar>?c\<bar> \<le> 35" by simp
    then have "\<bar>?c\<bar> * \<bar>?c\<bar> \<le> 35 * 35" by (intro mult_mono) simp_all
    then show ?thesis by (simp add: abs_mult[symmetric])
  qed
  ultimately have "adjustment64 ?c \<le> adjustment64 35" by (rule adjustment64_mono)
  then have "max (binary64 (3 / 10)) (adjustment64 ?c) \<le> max (binary64 (3 / 10)) (adjustment64 35)"
    by (rule max.mono[OF order_refl])
  moreover have "max (- 35) (min 35 (35::real)) = 35" by simp
  ultimately show ?thesis
    by (simp only: calculateGradeAdjustment_binary64_adjustment)
qed

lemma calculateGradeAdjustment_binary64_mono_nonneg:
  assumes "0 \<le> g1" and "g1 \<le> g2"
  shows "calculateGradeAdjustment_binary64 g1 \<le> calculateGradeAdjustment_binary64 g2"
proof -
  let ?c1 = "max (- 35) (min 35 g1)" and ?c2 = "max (- 35) (min 35 g2)"
  have c: "0 \<le> ?c1" "?c1 \<le> ?c2" using assms by (simp_all add: max_def min_def)
  then have "?c1 * ?c1 \<le> ?c2 * ?c2" by (intro mult_mono) simp_all
  with c(2) have "adjustment64 ?c1 \<le> adjustment64 ?c2" by (rule adjustment64_mono)
  then have "max (binary64 (3 / 10)) (adjustment64 ?c1) \<le> max (binary64 (3 / 10)) (adjustment64 ?c2)"
    by (rule max.mono[OF order_refl])
  then show ?thesis by (simp only: calculateGradeAdjustment_binary64_adjustment)
qed

lemma calculateGradeAdjustment_mono:
  assumes "g1 \<le> g2"
  shows "calculateGradeAdjustment g1 \<le> calculateGradeAdjustment g2"
proof -
  let ?c1 = "max (- 35) (min 35 g1)" and ?c2 = "max (- 35) (min 35 g2)"
  have "- 35 \<le> ?c1" by simp
  moreover have "?c1 \<le> ?c2" using assms by (simp add: max_def min_def)
  ultimately have "1 + ?c1 * (33 / 1000) + ?c1 * ?c1 * (233 / 1000000)
                     \<le> 1 + ?c2 * (33 / 1000) + ?c2 * ?c2 * (233 / 1000000)"
    by (rule default_quadratic_step)
  then show ?thesis
    by (simp add: calculateGradeAdjustment_def Let_def max_def)
qed

lemma calculateGradeAdjustment_bounds:
  "3 / 10 \<le> calculateGradeAdjustment g" "calculateGradeAdjustment g \<le> 2440425 / 1000000"
proof -
  show "3 / 10 \<le> calculateGradeAdjustment g"
    by (simp add: calculateGradeAdjustment_def Let_def)
  let ?c = "max (- 35) (min 35 g)"
  have "- 35 \<le> ?c" and "?c \<le> 35" by simp_all
  then have "1 + ?c * (33 / 1000) + ?c * ?c * (233 / 1000000)
               \<le> 1 + (35::real) * (33 / 1000) + 35 * 35 * (233 / 1000000)"
    by (rule default_quadratic_step)
  moreover have "1 + (35::real) * (33 / 1000) + 35 * 35 * (233 / 1000000) = (2440425 / 1000000)" by simp
  ultimately have "1 + ?c * (33 / 1000) + ?c * ?c * (233 / 1000000) \<le> (2440425 / 1000000)" by linarith
  moreover have "((3 / 10)::real) \<le> (2440425 / 1000000)" by simp
  ultimately show "calculateGradeAdjustment g \<le> (2440425 / 1000000)"
    unfolding calculateGradeAdjustment_def Let_def by (rule max.boundedI[OF _ _, rotated])
qed

lemma calculateGradeAdjustment_binary64_values:
  "calculateGradeAdjustment_binary64 35 = 2747674280156411 / 1125899906842624"
  "calculateGradeAdjustment_binary64 10 = 6094721375720493 / 4503599627370496"
  "calculateGradeAdjustment_binary64 (- (3614983125894955 / 281474976710656)) = 5535938487895359 / 9007199254740992"
  "calculateGradeAdjustment_binary64 (- (7229966251789909 / 562949953421312)) = 2767969243947679 / 4503599627370496"
  by (simp_all add: calculateGradeAdjustment_binary64_adjustment binary64_literals
        adjustment64_35 adjustment64_10 adjustment64_low adjustment64_high)

lemma calculateGradeAdjustment_binary64_low_clamp:
  "calculateGradeAdjustment_binary64 (- 35) = binary64 (3 / 10)"
proof -
  have "\<bar>adjustment64 (- 35) - (1 + (- 35) * (33 / 1000) + (- 35) * (- 35) * (233 / 1000000))\<bar>
          \<le> 1 / 2 ^ 50"
    by (rule adjustment64_error) simp_all
  then have "adjustment64 (- 35)
          \<le> 1 + (- 35) * (33 / 1000) + (- 35) * (- 35) * (233 / 1000000) + 1 / 2 ^ 50"
    by linarith
  also have "\<dots> \<le> 5404319552844595 / 18014398509481984" by simp
  finally have "adjustment64 (- 35) \<le> binary64 (3 / 10)"
    by (simp only: binary64_literals)
  then show ?thesis
    by (simp add: calculateGradeAdjustment_binary64_adjustment max_absorb1)
qed

lemma binary64_inputs:
  "binary64 (- (12843 / 1000)) = (- (3614983125894955 / 281474976710656))"
  "binary64 (- (12842999999999998 / 1000000000000000)) = (- (7229966251789909 / 562949953421312))"
  "binary64 (- (3614983125894955 / 281474976710656)) = (- (3614983125894955 / 281474976710656))"
  "binary64 (- (7229966251789909 / 562949953421312)) = (- (7229966251789909 / 562949953421312))"
proof -
  show "binary64 (- (12843 / 1000)) = (- (3614983125894955 / 281474976710656))"
    by (rule binary64_eqI[where e = 3 and n = "- 7229966251789910"]) simp_all
  show "binary64 (- (12842999999999998 / 1000000000000000)) = (- (7229966251789909 / 562949953421312))"
    by (rule binary64_eqI[where e = 3 and n = "- 7229966251789909"]) simp_all
  show "binary64 (- (3614983125894955 / 281474976710656)) = (- (3614983125894955 / 281474976710656))"
    by (rule binary64_eqI[where e = 3 and n = "- 7229966251789910"]) simp_all
  show "binary64 (- (7229966251789909 / 562949953421312)) = (- (7229966251789909 / 562949953421312))"
    by (rule binary64_eqI[where e = 3 and n = "- 7229966251789909"]) simp_all
qed

text \<open>
  C9 (as amended). Computed in binary64 as the code does, the default model stays within
  \<open>2^-50\<close> of the exact value of its formula. The exact value is monotonically
  non-decreasing in the gradient and lies in \<open>[0.3, 2.440425]\<close>, with the two bounds
  attained at the clamp bounds. The computed value is therefore monotone up to
  \<open>2^-49\<close>, and it is exactly monotone on gradients \<open>\<ge> 0\<close>. It lies between the
  double \<open>0.3\<close>, which it returns for every gradient \<open>\<le> -35\<close>, and its value at
  \<open>35\<close>, the double \<open>2.4404250000000003\<close>, which it returns for every gradient
  \<open>\<ge> 35\<close>.
\<close>

theorem calculateGradeAdjustment_mono_bounded:
  "(\<forall>g. \<bar>calculateGradeAdjustment_binary64 g - calculateGradeAdjustment g\<bar> \<le> 1 / 2 ^ 50)
   \<and> (\<forall>g1 g2. g1 \<le> g2 \<longrightarrow> calculateGradeAdjustment g1 \<le> calculateGradeAdjustment g2)
   \<and> (\<forall>g. (3 / 10) \<le> calculateGradeAdjustment g \<and> calculateGradeAdjustment g \<le> (2440425 / 1000000))
   \<and> calculateGradeAdjustment (- 35) = (3 / 10)
   \<and> calculateGradeAdjustment 35 = (2440425 / 1000000)
   \<and> (\<forall>g1 g2. g1 \<le> g2
         \<longrightarrow> calculateGradeAdjustment_binary64 g1 \<le> calculateGradeAdjustment_binary64 g2 + 1 / 2 ^ 49)
   \<and> (\<forall>g1 g2. 0 \<le> g1 \<and> g1 \<le> g2
         \<longrightarrow> calculateGradeAdjustment_binary64 g1 \<le> calculateGradeAdjustment_binary64 g2)
   \<and> (\<forall>g. binary64 (3 / 10) \<le> calculateGradeAdjustment_binary64 g
          \<and> calculateGradeAdjustment_binary64 g \<le> calculateGradeAdjustment_binary64 35)
   \<and> (\<forall>g. g \<le> - 35 \<longrightarrow> calculateGradeAdjustment_binary64 g = binary64 (3 / 10))
   \<and> (\<forall>g. 35 \<le> g \<longrightarrow> calculateGradeAdjustment_binary64 g = calculateGradeAdjustment_binary64 35)
   \<and> binary64 (3 / 10) = 5404319552844595 / 18014398509481984
   \<and> calculateGradeAdjustment_binary64 35 = 2747674280156411 / 1125899906842624"
proof (intro conjI allI impI)
  fix g :: real
  show "\<bar>calculateGradeAdjustment_binary64 g - calculateGradeAdjustment g\<bar> \<le> 1 / 2 ^ 50"
    by (rule calculateGradeAdjustment_binary64_error)
  show "(3 / 10) \<le> calculateGradeAdjustment g" "calculateGradeAdjustment g \<le> (2440425 / 1000000)"
    by (rule calculateGradeAdjustment_bounds)+
  show "binary64 (3 / 10) \<le> calculateGradeAdjustment_binary64 g"
    by (simp add: calculateGradeAdjustment_binary64_adjustment)
  show "calculateGradeAdjustment_binary64 g \<le> calculateGradeAdjustment_binary64 35"
    by (rule calculateGradeAdjustment_binary64_upper)
next
  fix g1 g2 :: real
  assume "g1 \<le> g2"
  then show "calculateGradeAdjustment g1 \<le> calculateGradeAdjustment g2"
    by (rule calculateGradeAdjustment_mono)
next
  show "calculateGradeAdjustment (- 35) = (3 / 10)"
    by (simp add: calculateGradeAdjustment_def Let_def)
  show "calculateGradeAdjustment 35 = (2440425 / 1000000)"
    by (simp add: calculateGradeAdjustment_def Let_def)
next
  fix g1 g2 :: real
  assume le: "g1 \<le> g2"
  have "calculateGradeAdjustment g1 \<le> calculateGradeAdjustment g2"
    using le by (rule calculateGradeAdjustment_mono)
  moreover have "\<bar>calculateGradeAdjustment_binary64 g1 - calculateGradeAdjustment g1\<bar> \<le> 1 / 2 ^ 50"
    and "\<bar>calculateGradeAdjustment_binary64 g2 - calculateGradeAdjustment g2\<bar> \<le> 1 / 2 ^ 50"
    by (rule calculateGradeAdjustment_binary64_error)+
  moreover have "(1::real) / 2 ^ 50 + 1 / 2 ^ 50 = 1 / 2 ^ 49" by simp
  ultimately show "calculateGradeAdjustment_binary64 g1 \<le> calculateGradeAdjustment_binary64 g2 + 1 / 2 ^ 49"
    by linarith
next
  fix g1 g2 :: real
  assume "0 \<le> g1 \<and> g1 \<le> g2"
  then show "calculateGradeAdjustment_binary64 g1 \<le> calculateGradeAdjustment_binary64 g2"
    by (intro calculateGradeAdjustment_binary64_mono_nonneg) simp_all
next
  fix g :: real
  assume "g \<le> - 35"
  then have "max (- 35) (min 35 g) = - 35" by simp
  then have "calculateGradeAdjustment_binary64 g = calculateGradeAdjustment_binary64 (- 35)"
    by (simp add: calculateGradeAdjustment_binary64_def)
  then show "calculateGradeAdjustment_binary64 g = binary64 (3 / 10)"
    by (simp only: calculateGradeAdjustment_binary64_low_clamp)
next
  fix g :: real
  assume "35 \<le> g"
  then have "max (- 35) (min 35 g) = 35" by simp
  then show "calculateGradeAdjustment_binary64 g = calculateGradeAdjustment_binary64 35"
    by (simp add: calculateGradeAdjustment_binary64_def)
next
  show "binary64 (3 / 10) = 5404319552844595 / 18014398509481984"
    by (rule binary64_literals)
  show "calculateGradeAdjustment_binary64 35 = 2747674280156411 / 1125899906842624"
    by (rule calculateGradeAdjustment_binary64_values)
qed

text \<open>
  The bounds and the monotonicity of the exact formula do not carry over to the computed
  value. At \<open>35\<close> the code returns \<open>2.4404250000000003\<close>, above the double
  \<open>2.440425\<close>; and of the two neighbouring doubles \<open>-12.843\<close> and
  \<open>-12.842999999999998\<close> the smaller gets the larger factor.
\<close>

theorem default_model_rounding_counterexample:
  "calculateGradeAdjustment_binary64 35 = 2747674280156411 / 1125899906842624
   \<and> binary64 (2440425 / 1000000) = 5495348560312821 / 2251799813685248
   \<and> binary64 (2440425 / 1000000) < calculateGradeAdjustment_binary64 35
   \<and> 2440425 / 1000000 < calculateGradeAdjustment_binary64 35
   \<and> binary64 (- (12843 / 1000)) = (- (3614983125894955 / 281474976710656))
   \<and> binary64 (- (12842999999999998 / 1000000000000000)) = (- (7229966251789909 / 562949953421312))
   \<and> (- (3614983125894955 / 281474976710656)) < ((- (7229966251789909 / 562949953421312)) :: real)
   \<and> calculateGradeAdjustment_binary64 (- (3614983125894955 / 281474976710656)) = 5535938487895359 / 9007199254740992
   \<and> calculateGradeAdjustment_binary64 (- (7229966251789909 / 562949953421312)) = 2767969243947679 / 4503599627370496
   \<and> calculateGradeAdjustment_binary64 (- (7229966251789909 / 562949953421312)) < calculateGradeAdjustment_binary64 (- (3614983125894955 / 281474976710656))"
proof -
  note v = calculateGradeAdjustment_binary64_values
  have a: "binary64 (2440425 / 1000000) < calculateGradeAdjustment_binary64 35"
    unfolding v binary64_literals by simp
  have b: "2440425 / 1000000 < calculateGradeAdjustment_binary64 35"
    unfolding v by simp
  have c: "(- (3614983125894955 / 281474976710656)) < ((- (7229966251789909 / 562949953421312)) :: real)"
    by simp
  have d: "calculateGradeAdjustment_binary64 (- (7229966251789909 / 562949953421312)) < calculateGradeAdjustment_binary64 (- (3614983125894955 / 281474976710656))"
    unfolding v by simp
  from v(1) binary64_literals(4) a b binary64_inputs(1,2) c v(3,4) d show ?thesis
    by (intro conjI)
qed

theorem calculateGradeAdjustment_mono_bounded_witness:
  "(- (3614983125894955 / 281474976710656)) \<le> ((- (7229966251789909 / 562949953421312)) :: real)
   \<and> calculateGradeAdjustment_binary64 (- (3614983125894955 / 281474976710656))
       \<le> calculateGradeAdjustment_binary64 (- (7229966251789909 / 562949953421312)) + 1 / 2 ^ 49
   \<and> (0::real) \<le> 10 \<and> (10::real) \<le> 35
   \<and> calculateGradeAdjustment_binary64 10 \<le> calculateGradeAdjustment_binary64 35
   \<and> calculateGradeAdjustment_binary64 10 = 6094721375720493 / 4503599627370496
   \<and> (- 10::real) \<le> 10
   \<and> calculateGradeAdjustment (- 10) \<le> calculateGradeAdjustment 10
   \<and> calculateGradeAdjustment (- 10) = (6933 / 10000)
   \<and> calculateGradeAdjustment 10 = (13533 / 10000)
   \<and> \<bar>calculateGradeAdjustment_binary64 10 - calculateGradeAdjustment 10\<bar> \<le> 1 / 2 ^ 50
   \<and> (35::real) \<le> 100
   \<and> calculateGradeAdjustment_binary64 100 = calculateGradeAdjustment_binary64 35"
proof -
  note T = calculateGradeAdjustment_mono_bounded
  have le: "(- (3614983125894955 / 281474976710656)) \<le> ((- (7229966251789909 / 562949953421312)) :: real)"
    by simp
  from T have "\<forall>g1 g2. g1 \<le> g2
         \<longrightarrow> calculateGradeAdjustment_binary64 g1 \<le> calculateGradeAdjustment_binary64 g2 + 1 / 2 ^ 49"
    by (elim conjE) assumption
  with le have 1: "calculateGradeAdjustment_binary64 (- (3614983125894955 / 281474976710656))
       \<le> calculateGradeAdjustment_binary64 (- (7229966251789909 / 562949953421312)) + 1 / 2 ^ 49"
    by blast
  have p: "(0::real) \<le> 10" "(10::real) \<le> 35" "(- 10::real) \<le> 10" "(35::real) \<le> 100" by simp_all
  from T have "\<forall>g1 g2. 0 \<le> g1 \<and> g1 \<le> g2
         \<longrightarrow> calculateGradeAdjustment_binary64 g1 \<le> calculateGradeAdjustment_binary64 g2"
    by (elim conjE) assumption
  with p(1,2) have 2: "calculateGradeAdjustment_binary64 10 \<le> calculateGradeAdjustment_binary64 35"
    by blast
  from T have "\<forall>g1 g2. g1 \<le> g2 \<longrightarrow> calculateGradeAdjustment g1 \<le> calculateGradeAdjustment g2"
    by (elim conjE) assumption
  with p(3) have 3: "calculateGradeAdjustment (- 10) \<le> calculateGradeAdjustment 10"
    by blast
  from T have "\<forall>g. \<bar>calculateGradeAdjustment_binary64 g - calculateGradeAdjustment g\<bar> \<le> 1 / 2 ^ 50"
    by (elim conjE) assumption
  then have 4: "\<bar>calculateGradeAdjustment_binary64 10 - calculateGradeAdjustment 10\<bar> \<le> 1 / 2 ^ 50"
    by blast
  from T have "\<forall>g. 35 \<le> g
         \<longrightarrow> calculateGradeAdjustment_binary64 g = calculateGradeAdjustment_binary64 35"
    by (elim conjE) assumption
  with p(4) have 5: "calculateGradeAdjustment_binary64 100 = calculateGradeAdjustment_binary64 35"
    by blast
  have r: "calculateGradeAdjustment (- 10) = (6933 / 10000)" "calculateGradeAdjustment 10 = (13533 / 10000)"
    by (simp_all add: calculateGradeAdjustment_def Let_def)
  from le 1 p(1,2) 2 calculateGradeAdjustment_binary64_values(2) p(3) 3 r 4 p(4) 5 show ?thesis
    by (intro conjI)
qed


section \<open>Properties of the binning engine\<close>

subsection \<open>Distances are non-negative\<close>





lemma addDistance_simps [simp]:
  "addDistance (Some c) (Some s) = Some (c + s)"
  "addDistance None s' = None"
  "addDistance c' None = None"
  by (simp_all add: addDistance_def split: option.splits)

subsection \<open>An invariant rule for the scan\<close>

lemma scanPoints_invariant:
  assumes init: "I i l c bs" and le: "i \<le> length points"
    and close: "\<And>i l c bs d. I i l c bs \<Longrightarrow> i < length points
                  \<Longrightarrow> addDistance c (segDist points i) = Some d \<Longrightarrow> binLength \<le> d
                  \<Longrightarrow> I (Suc i) i (Some 0) (bs @ [scanBin points pc v l i d])"
    and keep: "\<And>i l c bs. I i l c bs \<Longrightarrow> i < length points
                  \<Longrightarrow> (\<forall>d. addDistance c (segDist points i) = Some d \<longrightarrow> \<not> binLength \<le> d)
                  \<Longrightarrow> I (Suc i) l (addDistance c (segDist points i)) bs"
  shows "case scanPoints points binLength pc v i l c bs of (l', c', bs') \<Rightarrow> I (length points) l' c' bs'"
  using assms
proof (induction points binLength pc v i l c bs rule: scanPoints.induct)
  case (1 points binLength pc v i l c bs)
  note unfold = scanPoints.simps[of points binLength pc v i l c bs]
  show ?case
  proof (cases "i < length points")
    case False
    then have "scanPoints points binLength pc v i l c bs = (l, c, bs)"
      by (simp only: unfold if_False)
    moreover from False "1.prems"(2) have "i = length points" by simp
    ultimately show ?thesis using "1.prems"(1) by simp
  next
    case True
    let ?h = "haversine (lat (points ! (i - 1))) (lon (points ! (i - 1)))
                (lat (points ! i)) (lon (points ! i))"
    have sd: "segDist points i = ?h" unfolding segDist_def ..
    have le': "Suc i \<le> length points" using True by simp
    note close' = "1.prems"(3)[OF "1.prems"(1) True, unfolded sd]
    note keep' = "1.prems"(4)[OF "1.prems"(1) True, unfolded sd]
    show ?thesis
    proof (cases "addDistance c ?h")
      case None
      have "\<forall>d. addDistance c ?h = Some d \<longrightarrow> \<not> binLength \<le> d"
        unfolding None by simp
      then have I': "I (Suc i) l (addDistance c ?h) bs" by (rule keep')
      have "case scanPoints points binLength pc v (Suc i) l (addDistance c ?h) bs
             of (l', c', bs') \<Rightarrow> I (length points) l' c' bs'"
        by (rule "1.IH"(1)[OF True refl refl refl refl None I' le' "1.prems"(3,4)])
      moreover have "scanPoints points binLength pc v i l c bs
                       = scanPoints points binLength pc v (Suc i) l (addDistance c ?h) bs"
        by (simp only: unfold True if_True Let_def None option.simps)
      ultimately show ?thesis by (simp only:)
    next
      case (Some d)
      show ?thesis
      proof (cases "binLength \<le> d")
        case c: True
        have I': "I (Suc i) i (Some 0) (bs @ [scanBin points pc v l i d])"
          using Some c by (rule close')
        have "case scanPoints points binLength pc v (Suc i) i (Some 0)
                (bs @ [scanBin points pc v l i d]) of (l', c', bs') \<Rightarrow> I (length points) l' c' bs'"
          by (rule "1.IH"(2)[OF True refl refl refl refl Some c I' le' "1.prems"(3,4)])
        moreover have "scanPoints points binLength pc v i l c bs
                         = scanPoints points binLength pc v (Suc i) i (Some 0)
                             (bs @ [scanBin points pc v l i d])"
          by (simp only: unfold True if_True Let_def Some option.simps c)
        ultimately show ?thesis by (simp only:)
      next
        case c: False
        have "\<forall>d'. addDistance c ?h = Some d' \<longrightarrow> \<not> binLength \<le> d'"
          unfolding Some using c by blast
        then have I': "I (Suc i) l (addDistance c ?h) bs" by (rule keep')
        have "case scanPoints points binLength pc v (Suc i) l (addDistance c ?h) bs
             of (l', c', bs') \<Rightarrow> I (length points) l' c' bs'"
          by (rule "1.IH"(3)[OF True refl refl refl refl Some c I' le' "1.prems"(3,4)])
        moreover have "scanPoints points binLength pc v i l c bs
                         = scanPoints points binLength pc v (Suc i) l (addDistance c ?h) bs"
          by (simp only: unfold True if_True Let_def Some option.simps c if_False)
        ultimately show ?thesis by (simp only:)
      qed
    qed
  qed
qed

subsection \<open>Index ranges\<close>

lemma chained_snoc: "chained s (rs @ [r]) e \<longleftrightarrow> chained s rs (fst r) \<and> fst r < snd r \<and> snd r = e"
  by (induction rs arbitrary: s) auto



lemma chained_empty: "chained s [] e \<Longrightarrow> s = e"
  by simp




lemma startIdx_scanBin [simp]: "startIdx (scanBin points pc v l i d) = l"
  and endIdx_scanBin [simp]: "endIdx (scanBin points pc v l i d) = i"
  and startIdx_finalBin [simp]: "startIdx (finalBin points pc v l d) = l"
  and endIdx_finalBin [simp]: "endIdx (finalBin points pc v l d) = length points - 1"
  by (simp_all add: scanBin_def finalBin_def buildBin_def Let_def)

lemma upt_snoc_sum:
  "l < i \<Longrightarrow> sum_list (map f [Suc l..<Suc i]) = sum_list (map f [Suc l..<i]) + (f i :: real)"
  by simp

lemma scanPoints_scanInv:
  assumes "2 \<le> length points"
  shows "case scanPoints points binLength pc v 1 0 (Some 0) [] of
           (l', c', bs') \<Rightarrow> scanInv points pc v (length points) l' c' bs'"
proof (rule scanPoints_invariant[where I = "scanInv points pc v"])
  show "scanInv points pc v 1 0 (Some 0) []" by (simp add: scanInv_def)
  show "1 \<le> length points" using assms by simp
next
  fix i l c bs d
  assume inv: "scanInv points pc v i l c bs" and i: "i < length points"
    and d: "addDistance c (segDist points i) = Some d"
  from d have c: "c \<noteq> None" and s: "segDist points i \<noteq> None"
    by (auto simp: addDistance_def split: option.splits)
  from inv c have num: "\<forall>j. l < j \<and> j < i \<longrightarrow> segDist points j \<noteq> None"
    by (auto simp: scanInv_def split: if_splits)
  from inv have low: "\<forall>j. 0 < j \<and> j \<le> l \<longrightarrow> segDist points j \<noteq> None"
    by (simp add: scanInv_def)
  have "\<forall>j. 0 < j \<and> j \<le> i \<longrightarrow> segDist points j \<noteq> None"
  proof (intro allI impI)
    fix j assume j: "0 < j \<and> j \<le> i"
    consider "j \<le> l" | "l < j \<and> j < i" | "j = i" using j by linarith
    then show "segDist points j \<noteq> None" using low num s j by cases auto
  qed
  then show "scanInv points pc v (Suc i) i (Some 0) (bs @ [scanBin points pc v l i d])"
    using inv i by (auto simp: scanInv_def chained_snoc binRange_def list_all_iff)
next
  fix i l c bs
  assume inv: "scanInv points pc v i l c bs" and i: "i < length points"
  from inv have li: "l < i" by (simp add: scanInv_def)
  have all: "(\<forall>j. l < j \<and> j < Suc i \<longrightarrow> segDist points j \<noteq> None)
               \<longleftrightarrow> (\<forall>j. l < j \<and> j < i \<longrightarrow> segDist points j \<noteq> None) \<and> segDist points i \<noteq> None"
    using li by (auto simp: less_Suc_eq)
  have "addDistance c (segDist points i)
          = (if \<forall>j. l < j \<and> j < Suc i \<longrightarrow> segDist points j \<noteq> None
             then Some (sum_list (map (\<lambda>j. the (segDist points j)) [Suc l..<Suc i]))
             else None)"
  proof (cases "segDist points i")
    case None
    then have A: "\<not> (\<forall>j. l < j \<and> j < Suc i \<longrightarrow> segDist points j \<noteq> None)"
      unfolding all by simp
    show ?thesis by (simp only: if_not_P[OF A] None addDistance_simps)
  next
    case (Some sd)
    show ?thesis
    proof (cases "\<forall>j. l < j \<and> j < i \<longrightarrow> segDist points j \<noteq> None")
      case True
      with inv have ceq: "c = Some (sum_list (map (\<lambda>j. the (segDist points j)) [Suc l..<i]))"
        by (simp add: scanInv_def)
      have A: "\<forall>j. l < j \<and> j < Suc i \<longrightarrow> segDist points j \<noteq> None"
        unfolding all using True Some by simp
      show ?thesis
        by (simp only: if_P[OF A] ceq Some upt_snoc_sum[OF li] addDistance_simps option.sel)
    next
      case False
      with inv have ceq: "c = None" by (simp add: scanInv_def)
      have A: "\<not> (\<forall>j. l < j \<and> j < Suc i \<longrightarrow> segDist points j \<noteq> None)"
        unfolding all using False by simp
      show ?thesis by (simp only: if_not_P[OF A] ceq addDistance_simps)
    qed
  qed
  then show "scanInv points pc v (Suc i) l (addDistance c (segDist points i)) bs"
    using inv i by (simp add: scanInv_def list_all_iff) 
qed





lemma getAnalysisBins_member:
  assumes b: "b \<in> set (getAnalysisBins points binLength pc v)"
  shows "startIdx b < endIdx b \<and> endIdx b < length points
         \<and> (\<exists>d. b = scanBin points pc v (startIdx b) (endIdx b) d
                \<or> (endIdx b = length points - 1 \<and> b = finalBin points pc v (startIdx b) d))"
proof -
  from b have n: "2 \<le> length points" by (auto simp: getAnalysisBins_def split: if_splits)
  obtain l c bs where sc: "scanPoints points binLength pc v 1 0 (Some 0) [] = (l, c, bs)"
    by (cases "scanPoints points binLength pc v 1 0 (Some 0) []") auto
  from scanPoints_scanInv[OF n, where binLength = binLength and pc = pc and v = v] sc
  have inv: "scanInv points pc v (length points) l c bs" by simp
  then have l: "l < length points"
    and bs: "\<forall>b\<in>set bs. \<exists>l i d. l < i \<and> i < length points \<and> b = scanBin points pc v l i d"
    by (simp_all add: scanInv_def list_all_iff)
  from b n sc have "b \<in> set bs \<or> (\<exists>d. l < length points - 1 \<and> b = finalBin points pc v l d)"
    by (auto simp: getAnalysisBins_def split: if_splits option.splits)
  then show ?thesis
  proof
    assume "b \<in> set bs"
    with bs obtain l' i' d' where "l' < i'" "i' < length points" "b = scanBin points pc v l' i' d'"
      by blast
    then show ?thesis by auto
  next
    assume "\<exists>d. l < length points - 1 \<and> b = finalBin points pc v l d"
    then show ?thesis using n by auto
  qed
qed

subsection \<open>Concrete runs and time fields\<close>

lemma getAnalysisBins_two_points:
  "getAnalysisBins [p, q] binLength pc v =
     (case haversine (lat p) (lon p) (lat q) (lon q) of
        Some d \<Rightarrow>
          if binLength \<le> d then [scanBin [p, q] pc v 0 1 d]
          else if 0 < d then [finalBin [p, q] pc v 0 d]
          else []
      | None \<Rightarrow> [])"
proof -
  have step2: "scanPoints [p, q] binLength pc v (Suc (Suc 0)) l c bs = (l, c, bs)" for l c bs
    by (subst scanPoints.simps) simp
  have step1: "scanPoints [p, q] binLength pc v (Suc 0) 0 (Some 0) [] =
          (case haversine (lat p) (lon p) (lat q) (lon q) of
             Some d \<Rightarrow>
               if binLength \<le> d then (Suc 0, Some 0, [scanBin [p, q] pc v 0 (Suc 0) d])
               else (0, Some d, [])
           | None \<Rightarrow> (0, None, []))"
    by (subst scanPoints.simps) (simp add: Let_def step2 split: option.splits)
  show ?thesis
    by (simp add: getAnalysisBins_def step1 split: option.splits)
qed

lemma haversine_equator_half_turn:
  "haversine (Some 0) (Some 0) (Some 0) (Some 180) = Some (6371000 * pi)"
  by (simp add: haversine_def toRad_def atan2_def)



lemma half_turn_ge_50: "50 \<le> 6371000 * pi"
  using pi_ge_two by linarith

lemma timeMetrics_unset:
  assumes "\<not> (\<exists>s e. time p = Some (ValidDate s) \<and> time q = Some (ValidDate e) \<and> s < e)"
  shows "timeMetrics p q d = \<lparr> tm_timeTaken = None, tm_velocity = None, tm_pace = None, tm_timeInSeconds = 0 \<rparr>"
  using assms
  by (auto simp: timeMetrics_def elapsedSeconds_def Let_def split: option.splits js_date.splits)

lemma timeMetrics_set:
  assumes "time p = Some (ValidDate s)" "time q = Some (ValidDate e)" "s < e"
  shows "timeMetrics p q d =
           \<lparr> tm_timeTaken = Some (formatTime (real_of_int (e - s) / 1000)),
             tm_velocity = Some (d / (real_of_int (e - s) / 1000)),
             tm_pace = (if 0 < d then Some ((1000 / (d / (real_of_int (e - s) / 1000))) / 60) else None),
             tm_timeInSeconds = real_of_int (e - s) / 1000 \<rparr>"
  using assms
  by (auto simp: timeMetrics_def elapsedSeconds_def Let_def zero_less_divide_iff)

lemma bin_time_fields:
  "timeTaken (buildBin points v f l i d g hs) = tm_timeTaken (timeMetrics (points ! l) (points ! i) d)"
  "velocity (buildBin points v f l i d g hs) = tm_velocity (timeMetrics (points ! l) (points ! i) d)"
  "pace_min_per_km (buildBin points v f l i d g hs) = tm_pace (timeMetrics (points ! l) (points ! i) d)"
  "timeInSeconds (buildBin points v f l i d g hs) = tm_timeInSeconds (timeMetrics (points ! l) (points ! i) d)"
  by (simp_all add: buildBin_def Let_def)

text \<open>
  C2 (as amended). For every bin, when the endpoints do not both carry a valid date with the
  end after the start, \<open>timeTaken\<close>, \<open>velocity\<close> and \<open>pace_min_per_km\<close> are
  \<open>null\<close>, and the numeric duration \<open>timeInSeconds\<close> is the number \<open>0\<close>.
\<close>

theorem time_fields_without_valid_elapsed_time:
  "\<forall>b \<in> set (getAnalysisBins points binLength pc v).
     \<not> (\<exists>s e. time (points ! startIdx b) = Some (ValidDate s)
              \<and> time (points ! endIdx b) = Some (ValidDate e) \<and> s < e)
     \<longrightarrow> timeTaken b = None \<and> velocity b = None \<and> pace_min_per_km b = None
         \<and> timeInSeconds b = 0"
proof (intro ballI impI)
  fix b
  assume b: "b \<in> set (getAnalysisBins points binLength pc v)"
    and nt: "\<not> (\<exists>s e. time (points ! startIdx b) = Some (ValidDate s)
              \<and> time (points ! endIdx b) = Some (ValidDate e) \<and> s < e)"
  from getAnalysisBins_member[OF b] obtain d where
    d: "b = scanBin points pc v (startIdx b) (endIdx b) d
        \<or> (endIdx b = length points - 1 \<and> b = finalBin points pc v (startIdx b) d)"
    by blast
  have tm: "timeMetrics (points ! startIdx b) (points ! endIdx b) d
          = \<lparr> tm_timeTaken = None, tm_velocity = None, tm_pace = None, tm_timeInSeconds = 0 \<rparr>"
    using nt by (rule timeMetrics_unset)
  from d show "timeTaken b = None \<and> velocity b = None \<and> pace_min_per_km b = None
         \<and> timeInSeconds b = 0"
  proof
    assume e: "b = scanBin points pc v (startIdx b) (endIdx b) d"
    show ?thesis
      by (subst e, subst (2) e, subst (3) e, subst (4) e)
         (simp add: scanBin_def Let_def bin_time_fields tm)
  next
    assume e: "endIdx b = length points - 1 \<and> b = finalBin points pc v (startIdx b) d"
    then have e1: "b = finalBin points pc v (startIdx b) d" and e2: "length points - Suc 0 = endIdx b" by simp_all
    show ?thesis
      by (subst e1, subst (2) e1, subst (3) e1, subst (4) e1)
         (simp add: finalBin_def Let_def bin_time_fields e2 tm)
  qed
qed


lemma getAnalysisBins_halfTurn:
  "getAnalysisBins (halfTurn t0 t1 h0 h1) 50 pc v = [scanBin (halfTurn t0 t1 h0 h1) pc v 0 1 (6371000 * pi)]"
  by (simp add: halfTurn_def getAnalysisBins_two_points equatorPoint_def haversine_equator_half_turn half_turn_ge_50)

text \<open>
  The duration of a bin without timestamps is the number \<open>0\<close>, not an unset value.
\<close>

theorem time_fields_counterexample:
  "map timeInSeconds (getAnalysisBins (halfTurn None None None None) 50 None None) = [0]
   \<and> map startTime (getAnalysisBins (halfTurn None None None None) 50 None None) = [None]
   \<and> map endTime (getAnalysisBins (halfTurn None None None None) 50 None None) = [None]"
  by (simp add: getAnalysisBins_halfTurn scanBin_def buildBin_def Let_def timeMetrics_def)
     (simp add: halfTurn_def equatorPoint_def)

theorem time_fields_without_valid_elapsed_time_witness:
  "getAnalysisBins (halfTurn (Some (ValidDate 10000)) (Some (ValidDate 0)) None None) 50 None None \<noteq> []
   \<and> time (halfTurn (Some (ValidDate 10000)) (Some (ValidDate 0)) None None ! 0) = Some (ValidDate 10000)
   \<and> time (halfTurn (Some (ValidDate 10000)) (Some (ValidDate 0)) None None ! 1) = Some (ValidDate 0)
   \<and> timeTaken (hd (getAnalysisBins (halfTurn (Some (ValidDate 10000)) (Some (ValidDate 0)) None None) 50 None None)) = None
   \<and> velocity (hd (getAnalysisBins (halfTurn (Some (ValidDate 10000)) (Some (ValidDate 0)) None None) 50 None None)) = None
   \<and> pace_min_per_km (hd (getAnalysisBins (halfTurn (Some (ValidDate 10000)) (Some (ValidDate 0)) None None) 50 None None)) = None
   \<and> timeInSeconds (hd (getAnalysisBins (halfTurn (Some (ValidDate 10000)) (Some (ValidDate 0)) None None) 50 None None)) = 0"
  using time_fields_without_valid_elapsed_time
          [of "halfTurn (Some (ValidDate 10000)) (Some (ValidDate 0)) None None" 50 None None]
  by (simp add: getAnalysisBins_halfTurn) (simp add: halfTurn_def equatorPoint_def)

subsection \<open>Index ranges of the bins\<close>






subsection \<open>Heart rate 0\<close>

lemma withoutZeroHeartRate_fields [simp]:
  "lat (withoutZeroHeartRate p) = lat p"
  "lon (withoutZeroHeartRate p) = lon p"
  "ele (withoutZeroHeartRate p) = ele p"
  "time (withoutZeroHeartRate p) = time p"
  "usableHeartRate (withoutZeroHeartRate p) = usableHeartRate p"
  by (simp_all add: withoutZeroHeartRate_def usableHeartRate_def)

lemma map_filter_cong_on:
  "\<forall>x\<in>set xs. f x = g x \<Longrightarrow> List.map_filter f xs = List.map_filter g xs"
  by (induction xs) (simp_all add: map_filter_simps split: option.splits)

lemma collectHeartRates_withoutZero:
  assumes "hi \<le> length ps"
  shows "collectHeartRates (map withoutZeroHeartRate ps) lo hi = collectHeartRates ps lo hi"
  unfolding collectHeartRates_def
  by (rule map_filter_cong_on) (use assms in simp)

lemma timeMetrics_withoutZero [simp]:
  "timeMetrics (withoutZeroHeartRate p) (withoutZeroHeartRate q) d = timeMetrics p q d"
  by (simp add: timeMetrics_def)

lemma scanBin_withoutZero:
  assumes "l \<le> i" "i < length ps"
  shows "scanBin (map withoutZeroHeartRate ps) pc v l i d = scanBin ps pc v l i d"
  using assms
  by (simp add: scanBin_def buildBin_def binGradient_def Let_def collectHeartRates_withoutZero)

lemma finalBin_withoutZero:
  assumes "l < length ps"
  shows "finalBin (map withoutZeroHeartRate ps) pc v l d = finalBin ps pc v l d"
  using assms
  by (simp add: finalBin_def buildBin_def binGradient_def Let_def collectHeartRates_withoutZero)

lemma scanPoints_withoutZero:
  assumes "l < i"
  shows "scanPoints (map withoutZeroHeartRate ps) binLength pc v i l c bs
           = scanPoints ps binLength pc v i l c bs"
  using assms
proof (induction ps binLength pc v i l c bs rule: scanPoints.induct)
  case (1 points binLength pc v i l c bs)
  let ?ps = "map withoutZeroHeartRate points"
  note L = scanPoints.simps[of ?ps binLength pc v i l c bs]
  note R = scanPoints.simps[of points binLength pc v i l c bs]
  show ?case
  proof (cases "i < length points")
    case False
    then have "\<not> i < length ?ps" by simp
    then show ?thesis using False by (simp only: L R if_False)
  next
    case True
    then have T': "i < length ?ps" by simp
    let ?h = "haversine (lat (points ! (i - 1))) (lon (points ! (i - 1)))
                (lat (points ! i)) (lon (points ! i))"
    have h': "haversine (lat (?ps ! (i - 1))) (lon (?ps ! (i - 1))) (lat (?ps ! i)) (lon (?ps ! i)) = ?h"
      using True by simp
    have sb: "scanBin ?ps pc v l i d = scanBin points pc v l i d" for d
      using "1.prems" True by (intro scanBin_withoutZero) simp_all
    have li: "l < Suc i" "i < Suc i" using "1.prems" by simp_all
    show ?thesis
    proof (cases "addDistance c ?h")
      case None
      have ih: "scanPoints ?ps binLength pc v (Suc i) l (addDistance c ?h) bs
                  = scanPoints points binLength pc v (Suc i) l (addDistance c ?h) bs"
        by (rule "1.IH"(1)[OF True refl refl refl refl None li(1)])
      have "scanPoints ?ps binLength pc v i l c bs
              = scanPoints ?ps binLength pc v (Suc i) l (addDistance c ?h) bs"
        by (simp only: L T' if_True Let_def h' None option.simps)
      moreover have "scanPoints points binLength pc v i l c bs
              = scanPoints points binLength pc v (Suc i) l (addDistance c ?h) bs"
        by (simp only: R True if_True Let_def None option.simps)
      ultimately show ?thesis using ih by (simp only:)
    next
      case (Some d)
      show ?thesis
      proof (cases "binLength \<le> d")
        case c: True
        have ih: "scanPoints ?ps binLength pc v (Suc i) i (Some 0) (bs @ [scanBin points pc v l i d])
                    = scanPoints points binLength pc v (Suc i) i (Some 0) (bs @ [scanBin points pc v l i d])"
          by (rule "1.IH"(2)[OF True refl refl refl refl Some c li(2)])
        have "scanPoints ?ps binLength pc v i l c bs
                = scanPoints ?ps binLength pc v (Suc i) i (Some 0) (bs @ [scanBin points pc v l i d])"
          by (simp only: L T' if_True Let_def h' Some option.simps c sb)
        moreover have "scanPoints points binLength pc v i l c bs
                = scanPoints points binLength pc v (Suc i) i (Some 0) (bs @ [scanBin points pc v l i d])"
          by (simp only: R True if_True Let_def Some option.simps c)
        ultimately show ?thesis using ih by (simp only:)
      next
        case c: False
        have ih: "scanPoints ?ps binLength pc v (Suc i) l (addDistance c ?h) bs
                    = scanPoints points binLength pc v (Suc i) l (addDistance c ?h) bs"
          by (rule "1.IH"(3)[OF True refl refl refl refl Some c li(1)])
        have "scanPoints ?ps binLength pc v i l c bs
                = scanPoints ?ps binLength pc v (Suc i) l (addDistance c ?h) bs"
          by (simp only: L T' if_True Let_def h' Some option.simps c if_False)
        moreover have "scanPoints points binLength pc v i l c bs
                = scanPoints points binLength pc v (Suc i) l (addDistance c ?h) bs"
          by (simp only: R True if_True Let_def Some option.simps c if_False)
        ultimately show ?thesis using ih by (simp only:)
      qed
    qed
  qed
qed

lemma getAnalysisBins_withoutZero:
  "getAnalysisBins (map withoutZeroHeartRate points) binLength pc v
     = getAnalysisBins points binLength pc v"
proof (cases "length points < 2")
  case True
  then show ?thesis by (simp add: getAnalysisBins_def)
next
  case False
  then have n: "2 \<le> length points" by simp
  obtain l c bs where sc: "scanPoints points binLength pc v 1 0 (Some 0) [] = (l, c, bs)"
    by (cases "scanPoints points binLength pc v 1 0 (Some 0) []") auto
  from scanPoints_scanInv[OF n, where binLength = binLength and pc = pc and v = v] sc
  have "scanInv points pc v (length points) l c bs" by simp
  then have l: "l < length points" by (simp add: scanInv_def)
  have "(0::nat) < 1" by simp
  then have "scanPoints (map withoutZeroHeartRate points) binLength pc v 1 0 (Some 0) []
           = scanPoints points binLength pc v 1 0 (Some 0) []"
    by (rule scanPoints_withoutZero)
  then have sc': "scanPoints (map withoutZeroHeartRate points) binLength pc v 1 0 (Some 0) [] = (l, c, bs)"
    using sc by (rule trans)
  have fb: "finalBin (map withoutZeroHeartRate points) pc v l d = finalBin points pc v l d" for d
    using l by (rule finalBin_withoutZero)
  have len: "length (map withoutZeroHeartRate points) = length points" by simp
  show ?thesis
    unfolding getAnalysisBins_def len sc sc' prod.case fb ..
qed

lemma bin_heart_rates:
  assumes b: "b \<in> set (getAnalysisBins points binLength pc v)"
  shows "\<exists>f d g. b = buildBin points v f (startIdx b) (endIdx b) d g
                        (collectHeartRates points (startIdx b) (Suc (endIdx b)))"
proof -
  from getAnalysisBins_member[OF b] obtain d where
    lt: "endIdx b < length points" and
    d: "b = scanBin points pc v (startIdx b) (endIdx b) d
        \<or> (endIdx b = length points - 1 \<and> b = finalBin points pc v (startIdx b) d)"
    by blast
  from d show ?thesis
  proof
    assume "b = scanBin points pc v (startIdx b) (endIdx b) d"
    then show ?thesis unfolding scanBin_def Let_def by blast
  next
    assume e: "endIdx b = length points - 1 \<and> b = finalBin points pc v (startIdx b) d"
    then have "length points = Suc (endIdx b)" using lt by simp
    moreover have "length points - 1 = endIdx b" using e by simp
    ultimately have "finalBin points pc v (startIdx b) d =
       buildBin points v (finalAdjFactor pc (binGradient points (startIdx b) (endIdx b) d))
         (startIdx b) (endIdx b) d (binGradient points (startIdx b) (endIdx b) d)
         (collectHeartRates points (startIdx b) (Suc (endIdx b)))"
      by (simp add: finalBin_def Let_def)
    with e show ?thesis by metis
  qed
qed

lemma buildBin_heart_fields:
  "heartRateDataPoints (buildBin points v f l i d g hs) = length hs"
  "avgHeartRate (buildBin points v f l i d g hs)
     = (if hs = [] then None else Some (of_int \<lfloor>sum_list hs / real (length hs) + 1 / 2\<rfloor>))"
  "maxHeartRate (buildBin points v f l i d g hs) = (if hs = [] then None else Some (Max (set hs)))"
  "minHeartRate (buildBin points v f l i d g hs) = (if hs = [] then None else Some (Min (set hs)))"
  by (simp_all add: buildBin_def Let_def Math_round_def)

lemma collectHeartRates_eq:
  "collectHeartRates points lo hi
     = map (\<lambda>j. the (heartRate (points ! j)))
         (filter (\<lambda>j. heartRate (points ! j) \<noteq> None \<and> heartRate (points ! j) \<noteq> Some 0) [lo..<hi])"
proof -
  have f: "(\<lambda>j. usableHeartRate (points ! j) \<noteq> None)
             = (\<lambda>j. heartRate (points ! j) \<noteq> None \<and> heartRate (points ! j) \<noteq> Some 0)"
    by (auto simp: usableHeartRate_def fun_eq_iff split: option.splits)
  show ?thesis
    unfolding collectHeartRates_def map_filter_def f
    by (rule map_cong) (auto simp: usableHeartRate_def split: option.splits)
qed

text \<open>
  C10. A point with heart rate \<open>0\<close> is treated like a point without heart rate: replacing
  every \<open>0\<close> by \<open>null\<close> leaves the bins unchanged. The samples of a bin are the heart
  rates of the points of its index range that are neither \<open>null\<close> nor \<open>0\<close>: the sample
  count is their number, and when there is one, the average is their mean rounded to the
  nearest integer, the maximum their maximum and the minimum their minimum. A bin without
  a sample, such as one all of whose points have heart rate \<open>0\<close> or none, reports no
  average, maximum or minimum and a sample count of \<open>0\<close>.
\<close>

theorem zero_heart_rate_is_no_heart_rate:
  "getAnalysisBins (map (\<lambda>p. if heartRate p = Some 0 then p\<lparr> heartRate := None \<rparr> else p) points)
       binLength pc v
     = getAnalysisBins points binLength pc v
   \<and> (\<forall>b \<in> set (getAnalysisBins points binLength pc v).
        heartRateDataPoints b
          = length (filter (\<lambda>j. heartRate (points ! j) \<noteq> None \<and> heartRate (points ! j) \<noteq> Some 0)
                      [startIdx b..<Suc (endIdx b)])
        \<and> (0 < heartRateDataPoints b
             \<longrightarrow> avgHeartRate b
                   = Some (of_int \<lfloor>sum_list (map (\<lambda>j. the (heartRate (points ! j)))
                                (filter (\<lambda>j. heartRate (points ! j) \<noteq> None
                                              \<and> heartRate (points ! j) \<noteq> Some 0)
                                   [startIdx b..<Suc (endIdx b)]))
                              / real (heartRateDataPoints b) + 1 / 2\<rfloor>)
                 \<and> maxHeartRate b
                   = Some (Max (set (map (\<lambda>j. the (heartRate (points ! j)))
                                (filter (\<lambda>j. heartRate (points ! j) \<noteq> None
                                              \<and> heartRate (points ! j) \<noteq> Some 0)
                                   [startIdx b..<Suc (endIdx b)]))))
                 \<and> minHeartRate b
                   = Some (Min (set (map (\<lambda>j. the (heartRate (points ! j)))
                                (filter (\<lambda>j. heartRate (points ! j) \<noteq> None
                                              \<and> heartRate (points ! j) \<noteq> Some 0)
                                   [startIdx b..<Suc (endIdx b)])))))
        \<and> (heartRateDataPoints b = 0
             \<longrightarrow> avgHeartRate b = None \<and> maxHeartRate b = None \<and> minHeartRate b = None)
        \<and> ((\<forall>j. startIdx b \<le> j \<and> j \<le> endIdx b
                 \<longrightarrow> heartRate (points ! j) = Some 0 \<or> heartRate (points ! j) = None)
             \<longrightarrow> avgHeartRate b = None \<and> maxHeartRate b = None \<and> minHeartRate b = None
                 \<and> heartRateDataPoints b = 0))"
proof (intro conjI ballI impI)
  have "(\<lambda>p. if heartRate p = Some 0 then p\<lparr> heartRate := None \<rparr> else p) = withoutZeroHeartRate"
    by (rule ext) (simp add: withoutZeroHeartRate_def)
  then show "getAnalysisBins (map (\<lambda>p. if heartRate p = Some 0 then p\<lparr> heartRate := None \<rparr> else p) points)
          binLength pc v
          = getAnalysisBins points binLength pc v"
    by (simp only: getAnalysisBins_withoutZero)
next
  fix b assume b: "b \<in> set (getAnalysisBins points binLength pc v)"
  let ?js = "filter (\<lambda>j. heartRate (points ! j) \<noteq> None \<and> heartRate (points ! j) \<noteq> Some 0)
                      [startIdx b..<Suc (endIdx b)]"
  let ?hs = "map (\<lambda>j. the (heartRate (points ! j))) ?js"
  from bin_heart_rates[OF b] obtain f d g where
    "b = buildBin points v f (startIdx b) (endIdx b) d g
              (collectHeartRates points (startIdx b) (Suc (endIdx b)))" by blast
  then have e: "b = buildBin points v f (startIdx b) (endIdx b) d g ?hs"
    by (simp only: collectHeartRates_eq)
  have cnt': "heartRateDataPoints b = length ?hs"
    by (subst e) (simp only: buildBin_heart_fields)
  then show cnt: "heartRateDataPoints b = length ?js" by simp
  have avg: "avgHeartRate b
               = (if ?hs = [] then None else Some (of_int \<lfloor>sum_list ?hs / real (length ?hs) + 1 / 2\<rfloor>))"
    by (subst e) (simp only: buildBin_heart_fields)
  have mx: "maxHeartRate b = (if ?hs = [] then None else Some (Max (set ?hs)))"
    by (subst e) (simp only: buildBin_heart_fields)
  have mn: "minHeartRate b = (if ?hs = [] then None else Some (Min (set ?hs)))"
    by (subst e) (simp only: buildBin_heart_fields)
  {
    assume "0 < heartRateDataPoints b"
    then have ne: "?hs \<noteq> []" using cnt' by auto
    show "avgHeartRate b = Some (of_int \<lfloor>sum_list ?hs / real (heartRateDataPoints b) + 1 / 2\<rfloor>)"
      using ne by (simp only: avg cnt' if_False)
    show "maxHeartRate b = Some (Max (set ?hs))" using ne by (simp only: mx if_False)
    show "minHeartRate b = Some (Min (set ?hs))" using ne by (simp only: mn if_False)
  }
  {
    assume "heartRateDataPoints b = 0"
    then have em: "?hs = []" using cnt' by auto
    show "avgHeartRate b = None" by (simp only: avg em if_True simp_thms)
    show "maxHeartRate b = None" by (simp only: mx em if_True simp_thms)
    show "minHeartRate b = None" by (simp only: mn em if_True simp_thms)
  }
  {
    assume z: "\<forall>j. startIdx b \<le> j \<and> j \<le> endIdx b
                 \<longrightarrow> heartRate (points ! j) = Some 0 \<or> heartRate (points ! j) = None"
    have "?js = []" using z by (auto simp: filter_empty_conv)
    then have em: "?hs = []" by simp
    show "avgHeartRate b = None" by (simp only: avg em if_True simp_thms)
    show "maxHeartRate b = None" by (simp only: mx em if_True simp_thms)
    show "minHeartRate b = None" by (simp only: mn em if_True simp_thms)
    show "heartRateDataPoints b = 0" by (simp only: cnt' em list.size)
  }
qed

theorem zero_heart_rate_is_no_heart_rate_witness:
  "map heartRate (halfTurn None None (Some 0) (Some 150)) = [Some 0, Some 150]
   \<and> map binRange (getAnalysisBins (halfTurn None None (Some 0) (Some 150)) 50 None None) = [(0, 1)]
   \<and> map heartRateDataPoints (getAnalysisBins (halfTurn None None (Some 0) (Some 150)) 50 None None) = [1]
   \<and> map avgHeartRate (getAnalysisBins (halfTurn None None (Some 0) (Some 150)) 50 None None) = [Some 150]
   \<and> map maxHeartRate (getAnalysisBins (halfTurn None None (Some 0) (Some 150)) 50 None None) = [Some 150]
   \<and> map minHeartRate (getAnalysisBins (halfTurn None None (Some 0) (Some 150)) 50 None None) = [Some 150]
   \<and> map heartRate (halfTurn None None (Some 0) (Some 0)) = [Some 0, Some 0]
   \<and> map binRange (getAnalysisBins (halfTurn None None (Some 0) (Some 0)) 50 None None) = [(0, 1)]
   \<and> map avgHeartRate (getAnalysisBins (halfTurn None None (Some 0) (Some 0)) 50 None None) = [None]
   \<and> map maxHeartRate (getAnalysisBins (halfTurn None None (Some 0) (Some 0)) 50 None None) = [None]
   \<and> map minHeartRate (getAnalysisBins (halfTurn None None (Some 0) (Some 0)) 50 None None) = [None]
   \<and> map heartRateDataPoints (getAnalysisBins (halfTurn None None (Some 0) (Some 0)) 50 None None) = [0]"
proof -
  let ?A = "halfTurn None None (Some 0) (Some 150)"
  let ?Z = "halfTurn None None (Some 0) (Some 0)"
  let ?a = "scanBin ?A None None 0 1 (6371000 * pi)"
  let ?z = "scanBin ?Z None None 0 1 (6371000 * pi)"
  have hA: "map heartRate ?A = [Some 0, Some 150]" and hZ: "map heartRate ?Z = [Some 0, Some 0]"
    by (simp_all add: halfTurn_def equatorPoint_def)
  have jA: "filter (\<lambda>j. heartRate (?A ! j) \<noteq> None \<and> heartRate (?A ! j) \<noteq> Some 0) [0..<Suc 1]
              = [Suc 0]"
    by (simp add: halfTurn_def equatorPoint_def)
  have jZ: "filter (\<lambda>j. heartRate (?Z ! j) \<noteq> None \<and> heartRate (?Z ! j) \<noteq> Some 0) [0..<Suc 1]
              = []"
    by (simp add: halfTurn_def equatorPoint_def)
  have vA: "the (heartRate (?A ! Suc 0)) = 150" by (simp add: halfTurn_def equatorPoint_def)
  have bA: "getAnalysisBins ?A 50 None None = [?a]" and bZ: "getAnalysisBins ?Z 50 None None = [?z]"
    by (rule getAnalysisBins_halfTurn)+
  have mA: "?a \<in> set (getAnalysisBins ?A 50 None None)"
    and mZ: "?z \<in> set (getAnalysisBins ?Z 50 None None)"
    by (simp_all only: bA bZ list.set_intros)
  note fA = zero_heart_rate_is_no_heart_rate[of ?A 50 None None, THEN conjunct2, THEN bspec, OF mA,
              unfolded startIdx_scanBin endIdx_scanBin jA]
  note fZ = zero_heart_rate_is_no_heart_rate[of ?Z 50 None None, THEN conjunct2, THEN bspec, OF mZ,
              unfolded startIdx_scanBin endIdx_scanBin jZ]
  from fA have A: "heartRateDataPoints ?a = 1 \<and> avgHeartRate ?a = Some 150
                 \<and> maxHeartRate ?a = Some 150 \<and> minHeartRate ?a = Some 150"
    by (simp add: vA)
  from fZ have Z: "avgHeartRate ?z = None \<and> maxHeartRate ?z = None \<and> minHeartRate ?z = None
                 \<and> heartRateDataPoints ?z = 0"
    by simp
  have r: "binRange ?a = (0, 1)" "binRange ?z = (0, 1)" by (simp_all add: binRange_def)
  from hA hZ A Z r show ?thesis by (simp add: bA bZ)
qed

subsection \<open>Grade adjustment of a bin\<close>

lemma halfTurn_scanBin_flat:
  "scanBin (halfTurn t0 t1 h0 h1) (Some [0, 0, 0, 0, 2]) (Some 1) 0 (Suc 0) (6371000 * pi)
     = buildBin (halfTurn t0 t1 h0 h1) (Some 1) 1 0 (Suc 0) (6371000 * pi) 0
         (collectHeartRates (halfTurn t0 t1 h0 h1) 0 (Suc (Suc 0)))"
  by (simp add: scanBin_def binGradient_def scanAdjFactor_def calculateGradeAdjustment_def
        halfTurn_def equatorPoint_def numeral_2_eq_2)

text \<open>
  C7 fails on the bins closed during the scan. With the coefficients \<open>(0, 0, 0, 0, 2)\<close> the
  quartic is the constant \<open>2\<close>, so a level bin of length \<open>d\<close> and reference velocity
  \<open>1\<close> should get \<open>adjustedTime = 2 * d\<close> and \<open>gradeAdjustedDistance = 2 * d\<close>. The
  bin closed inside the loop gets the default model's factor \<open>1\<close> instead.
\<close>

theorem scan_bin_ignores_coefficients:
  "map adjustedTime
     (getAnalysisBins (halfTurn None None None None) 50 (Some [0, 0, 0, 0, 2]) (Some 1))
     = [6371000 * pi]
   \<and> map gradeAdjustedDistance
     (getAnalysisBins (halfTurn None None None None) 50 (Some [0, 0, 0, 0, 2]) (Some 1))
     = [Some (6371000 * pi)]
   \<and> map distance
     (getAnalysisBins (halfTurn None None None None) 50 (Some [0, 0, 0, 0, 2]) (Some 1))
     = [6371000 * pi]
   \<and> map gradient
     (getAnalysisBins (halfTurn None None None None) 50 (Some [0, 0, 0, 0, 2]) (Some 1))
     = [0]
   \<and> quartic [0, 0, 0, 0, 2] (max (- 35) (min 35 0)) = 2"
  by (simp add: getAnalysisBins_halfTurn halfTurn_scanBin_flat buildBin_def adjustedPair_def
        Number_or_0_def toFixed_Number_def quartic_def Let_def)

text \<open>
  The final partial bin of the same function does evaluate the quartic.
\<close>

lemma half_turn_lt: "6371000 * pi < 100000000"
  using pi_less_4 by linarith

lemma final_bin_applies_coefficients:
  "map adjustedTime
     (getAnalysisBins (halfTurn None None None None) 100000000 (Some [0, 0, 0, 0, 2]) (Some 1))
     = [6371000 * pi * 2]
   \<and> map gradeAdjustedDistance
     (getAnalysisBins (halfTurn None None None None) 100000000 (Some [0, 0, 0, 0, 2]) (Some 1))
     = [Some (6371000 * pi * 2)]"
proof -
  have g: "getAnalysisBins (halfTurn None None None None) 100000000 (Some [0, 0, 0, 0, 2]) (Some 1)
         = [finalBin (halfTurn None None None None) (Some [0, 0, 0, 0, 2]) (Some 1) 0 (6371000 * pi)]"
    using half_turn_lt
    by (simp add: halfTurn_def getAnalysisBins_two_points equatorPoint_def haversine_equator_half_turn)
  have f: "finalBin (halfTurn None None None None) (Some [0, 0, 0, 0, 2]) (Some 1) 0 (6371000 * pi)
     = buildBin (halfTurn None None None None) (Some 1) 2 0 1 (6371000 * pi) 0
         (collectHeartRates (halfTurn None None None None) 0 2)"
    by (simp add: finalBin_def binGradient_def finalAdjFactor_def quartic_def
        halfTurn_def equatorPoint_def numeral_2_eq_2)
  show ?thesis
    by (simp add: g f buildBin_def adjustedPair_def Number_or_0_def Let_def)
qed

section \<open>Properties of the reliability filter\<close>

lemma filterBin_counts:
  "filterBin rub hrf c b =
     (c\<lparr> cnt_speed := cnt_speed c + countIf (rub \<and> plausibilityReason b = Some ''speed''),
         cnt_gradient := cnt_gradient c + countIf (rub \<and> plausibilityReason b = Some ''gradient''),
         cnt_timeInSeconds := cnt_timeInSeconds c
            + countIf (rub \<and> plausibilityReason b = Some ''timeInSeconds''),
         cnt_distance := cnt_distance c + countIf (rub \<and> plausibilityReason b = Some ''distance''),
         cnt_heartRate := cnt_heartRate c
            + countIf (heartRateFilterActive hrf \<and> heartRateOutside (the hrf) b),
         cnt_total := cnt_total c + countIf (excludedBin rub hrf b) \<rparr>,
      \<not> excludedBin rub hrf b)"
  by (simp add: filterBin_def plausibilityReason_def excludedBin_def countIf_def Let_def)

lemma filterBins_counts:
  "filterBins rub hrf c bs =
     (c\<lparr> cnt_speed := cnt_speed c + length (filter (\<lambda>b. rub \<and> plausibilityReason b = Some ''speed'') bs),
         cnt_gradient := cnt_gradient c
            + length (filter (\<lambda>b. rub \<and> plausibilityReason b = Some ''gradient'') bs),
         cnt_timeInSeconds := cnt_timeInSeconds c
            + length (filter (\<lambda>b. rub \<and> plausibilityReason b = Some ''timeInSeconds'') bs),
         cnt_distance := cnt_distance c
            + length (filter (\<lambda>b. rub \<and> plausibilityReason b = Some ''distance'') bs),
         cnt_heartRate := cnt_heartRate c
            + length (filter (\<lambda>b. heartRateFilterActive hrf \<and> heartRateOutside (the hrf) b) bs),
         cnt_total := cnt_total c + length (filter (excludedBin rub hrf) bs) \<rparr>,
      filter (\<lambda>b. \<not> excludedBin rub hrf b) bs)"
proof (induction bs arbitrary: c)
  case Nil
  show ?case by simp
next
  case (Cons b bs)
  show ?case
    by (simp add: filterBin_counts Cons.IH countIf_def)
qed

lemma filterRuns_counts:
  "filterRuns rub hrf c rs =
     (c\<lparr> cnt_speed := cnt_speed c
            + length (filter (\<lambda>b. rub \<and> plausibilityReason b = Some ''speed'') (concat (map runBins rs))),
         cnt_gradient := cnt_gradient c
            + length (filter (\<lambda>b. rub \<and> plausibilityReason b = Some ''gradient'') (concat (map runBins rs))),
         cnt_timeInSeconds := cnt_timeInSeconds c
            + length (filter (\<lambda>b. rub \<and> plausibilityReason b = Some ''timeInSeconds'')
                        (concat (map runBins rs))),
         cnt_distance := cnt_distance c
            + length (filter (\<lambda>b. rub \<and> plausibilityReason b = Some ''distance'') (concat (map runBins rs))),
         cnt_heartRate := cnt_heartRate c
            + length (filter (\<lambda>b. heartRateFilterActive hrf \<and> heartRateOutside (the hrf) b)
                        (concat (map runBins rs))),
         cnt_total := cnt_total c + length (filter (excludedBin rub hrf) (concat (map runBins rs))) \<rparr>,
      map (\<lambda>r. r\<lparr> bins := Some (filter (\<lambda>b. \<not> excludedBin rub hrf b) (runBins r)) \<rparr>) rs)"
proof (induction rs arbitrary: c)
  case Nil
  show ?case by simp
next
  case (Cons r rs)
  show ?case
    by (simp add: filterBins_counts Cons.IH)
qed

lemma length_filter_reasons:
  "length (filter (\<lambda>b. rub \<and> plausibilityReason b = Some ''speed'') bs)
   + length (filter (\<lambda>b. rub \<and> plausibilityReason b = Some ''gradient'') bs)
   + length (filter (\<lambda>b. rub \<and> plausibilityReason b = Some ''timeInSeconds'') bs)
   + length (filter (\<lambda>b. rub \<and> plausibilityReason b = Some ''distance'') bs)
   + length (filter (\<lambda>b. heartRateFilterActive hrf \<and> heartRateOutside (the hrf) b) bs)
   = length (filter (excludedBin rub hrf) bs)
     + length (filter (\<lambda>b. (rub \<and> plausibilityReason b \<noteq> None)
                          \<and> heartRateFilterActive hrf \<and> heartRateOutside (the hrf) b) bs)"
proof (induction bs)
  case Nil
  show ?case by simp
next
  case (Cons b bs)
  have r: "plausibilityReason b = None \<or> plausibilityReason b = Some ''speed''
         \<or> plausibilityReason b = Some ''gradient'' \<or> plausibilityReason b = Some ''timeInSeconds''
         \<or> plausibilityReason b = Some ''distance''"
    by (simp add: plausibilityReason_def)
  from r Cons.IH show ?case
    by (auto simp: excludedBin_def)
qed

text \<open>
  C3 (as amended). The four plausibility reasons are checked in the order speed, gradient,
  duration, distance, the first failing check giving the bin's plausibility reason; the
  heart-rate check is made on every bin, whether or not a plausibility reason was found.
  Over all runs each named counter is the number of bins with that reason, the total is the
  number of excluded bins, the kept bins are the remaining ones in their order, and the
  named counters add up to the total plus the number of bins that fail both a plausibility
  check and the heart-rate check.
\<close>

theorem exclusion_counts_by_reason:
  "cnt_speed (fst (analyzeWithFilters results rub hrf))
     = length (filter (\<lambda>b. rub \<and> plausibilityReason b = Some ''speed'') (concat (map runBins results)))
   \<and> cnt_gradient (fst (analyzeWithFilters results rub hrf))
     = length (filter (\<lambda>b. rub \<and> plausibilityReason b = Some ''gradient'') (concat (map runBins results)))
   \<and> cnt_timeInSeconds (fst (analyzeWithFilters results rub hrf))
     = length (filter (\<lambda>b. rub \<and> plausibilityReason b = Some ''timeInSeconds'')
                 (concat (map runBins results)))
   \<and> cnt_distance (fst (analyzeWithFilters results rub hrf))
     = length (filter (\<lambda>b. rub \<and> plausibilityReason b = Some ''distance'') (concat (map runBins results)))
   \<and> cnt_heartRate (fst (analyzeWithFilters results rub hrf))
     = length (filter (\<lambda>b. heartRateFilterActive hrf \<and> heartRateOutside (the hrf) b)
                 (concat (map runBins results)))
   \<and> cnt_total (fst (analyzeWithFilters results rub hrf))
     = length (filter (excludedBin rub hrf) (concat (map runBins results)))
   \<and> map runBins (snd (analyzeWithFilters results rub hrf))
     = map (\<lambda>r. filter (\<lambda>b. \<not> excludedBin rub hrf b) (runBins r)) results
   \<and> cnt_speed (fst (analyzeWithFilters results rub hrf))
       + cnt_gradient (fst (analyzeWithFilters results rub hrf))
       + cnt_timeInSeconds (fst (analyzeWithFilters results rub hrf))
       + cnt_distance (fst (analyzeWithFilters results rub hrf))
       + cnt_heartRate (fst (analyzeWithFilters results rub hrf))
     = cnt_total (fst (analyzeWithFilters results rub hrf))
       + length (filter (\<lambda>b. (rub \<and> plausibilityReason b \<noteq> None)
                            \<and> heartRateFilterActive hrf \<and> heartRateOutside (the hrf) b)
                   (concat (map runBins results)))"
  by (simp add: analyzeWithFilters_def filterRuns_counts noExclusions_def length_filter_reasons
        runBins_def comp_def)

text \<open>
  A bin at 35 km/h without heart rate, filtered with both modes on, is counted under
  \<open>speed\<close> and under \<open>heartRate\<close>.
\<close>

theorem speeding_bin_counted_twice:
  "fst (analyzeWithFilters [\<lparr> bins = Some [speedingBin] \<rparr>] True
          (Some \<lparr> minHR = Some 100, maxHR = Some 180 \<rparr>))
     = \<lparr> cnt_speed = 1, cnt_gradient = 0, cnt_timeInSeconds = 0, cnt_distance = 0,
         cnt_heartRate = 1, cnt_total = 1 \<rparr>
   \<and> binSpeed speedingBin = 35"
  by (simp add: analyzeWithFilters_def noExclusions_def runBins_def filterBin_def binSpeed_def
        speedingBin_def heartRateFilterActive_def heartRateOutside_def truthy_def Let_def)

section \<open>Properties of the cross-run analysis\<close>

subsection \<open>Keys\<close>

lemma of_char_digit_char: "d < 10 \<Longrightarrow> (of_char (digit_char d) :: nat) = 48 + d"
  by (simp add: digit_char_def)

lemma is_digit_digit_char: "d < 10 \<Longrightarrow> is_digit (digit_char d)"
  by (simp add: is_digit_def of_char_digit_char)

lemma digit_value_digit_char: "d < 10 \<Longrightarrow> digit_value (digit_char d) = d"
  by (simp add: digit_value_def of_char_digit_char)

lemma toString_nat_digits: "list_all is_digit (toString_nat n)"
proof (induction n rule: toString_nat.induct)
  case (1 n)
  show ?case
  proof (cases "n < 10")
    case True
    then show ?thesis by (subst toString_nat.simps) (simp add: is_digit_digit_char)
  next
    case False
    then show ?thesis using "1.IH"
      by (subst toString_nat.simps) (simp add: is_digit_digit_char)
  qed
qed

lemma toString_nat_nonempty: "toString_nat n \<noteq> []"
  by (subst toString_nat.simps) simp

lemma digits_value_snoc: "digits_value (ds @ [c]) = 10 * digits_value ds + digit_value c"
  by (simp add: digits_value_def)

lemma digits_value_toString_nat: "digits_value (toString_nat n) = n"
proof (induction n rule: toString_nat.induct)
  case (1 n)
  show ?case
  proof (cases "n < 10")
    case True
    then show ?thesis
      by (subst toString_nat.simps) (simp add: digits_value_def digit_value_digit_char)
  next
    case False
    then show ?thesis using "1.IH"
      by (subst toString_nat.simps) (simp add: digits_value_snoc digit_value_digit_char)
  qed
qed

lemma takeWhile_all: "list_all P xs \<Longrightarrow> takeWhile P xs = xs"
  by (induction xs) simp_all

lemma toString_nat_hd: "\<exists>c cs. toString_nat n = c # cs \<and> is_digit c"
proof -
  obtain c cs where e: "toString_nat n = c # cs"
    using toString_nat_nonempty[of n] by (cases "toString_nat n") auto
  moreover have "is_digit c" using toString_nat_digits[of n] e by simp
  ultimately show ?thesis by blast
qed

lemma is_digit_not_sign: "is_digit c \<Longrightarrow> c \<noteq> CHR ''-'' \<and> c \<noteq> CHR ''+''"
  by (auto simp: is_digit_def)

lemma parseInt_toString_int: "parseInt (toString_int k) = Some k"
proof (cases "k < 0")
  case True
  then show ?thesis
    by (simp add: toString_int_def parseInt_def takeWhile_all toString_nat_digits
          toString_nat_nonempty digits_value_toString_nat)
next
  case False
  obtain c cs where e: "toString_nat (nat k) = c # cs" and d: "is_digit c"
    using toString_nat_hd by blast
  have tw: "takeWhile is_digit (c # cs) = c # cs"
    using toString_nat_digits[of "nat k"] e by (simp add: takeWhile_all)
  have dv: "digits_value (c # cs) = nat k"
    using digits_value_toString_nat[of "nat k"] e by simp
  show ?thesis using False is_digit_not_sign[OF d]
    by (simp add: toString_int_def parseInt_def e tw dv del: takeWhile.simps)
qed

lemma toString_int_inject: "toString_int j = toString_int k \<longleftrightarrow> j = k"
  by (metis parseInt_toString_int option.inject)

lemma parseInt_extremes: "parseInt ''<=-35'' = None" "parseInt ''>=35'' = None"
  by (simp_all add: parseInt_def is_digit_def)

lemma toString_int_not_extreme: "toString_int k \<noteq> ''<=-35''" "toString_int k \<noteq> ''>=35''"
  using parseInt_toString_int[of k] parseInt_extremes by auto

lemma toString_int_0: "toString_int 0 = ''0''"
  by code_simp

lemma toString_int_examples:
  "toString_int 10 = ''10''" "toString_int (- 1) = ''-1''" "toString_int 5 = ''5''"
  "toString_int 1 = ''1''" "toString_int 3 = ''3''" "toString_int 45 = ''45''"
  by code_simp+

lemma parseInt_examples:
  "parseInt ''10'' = Some 10" "parseInt ''-1'' = Some (- 1)" "parseInt ''0'' = Some 0"
  by code_simp+

subsection \<open>Grouping\<close>

lemma map_of_addToKey:
  "map_of (addToKey m k d t) k' =
     (if k' = k
      then Some (case map_of m k of
                   None \<Rightarrow> \<lparr> totalDistance = d, totalTime = t, gd_binCount = 1 \<rparr>
                 | Some x \<Rightarrow> x\<lparr> totalDistance := totalDistance x + d, totalTime := totalTime x + t,
                                  gd_binCount := gd_binCount x + 1 \<rparr>)
      else map_of m k')"
  by (induction m k d t rule: addToKey.induct) auto

lemma keys_addToKey:
  "map fst (addToKey m k d t) = (if k \<in> set (map fst m) then map fst m else map fst m @ [k])"
  by (induction m k d t rule: addToKey.induct) auto

lemma distinct_addToKey: "distinct (map fst m) \<Longrightarrow> distinct (map fst (addToKey m k d t))"
  by (simp add: keys_addToKey)

lemma groupOf_snoc:
  "groupOf (bs @ [b]) k = groupOf bs k @ (if chartable b \<and> gradientKey b = k then [b] else [])"
  by (simp add: groupOf_def)

lemma grouped_step:
  assumes "grouped m bs"
  shows "grouped (groupBin m b) (bs @ [b])"
proof (cases "chartable b")
  case False
  then show ?thesis using assms by (simp add: grouped_def groupBin_def groupOf_snoc)
next
  case True
  have d: "distinct (map fst (groupBin m b))"
    using assms by (simp add: grouped_def groupBin_def distinct_addToKey)
  have "map_of (groupBin m b) k
          = (if groupOf (bs @ [b]) k = [] then None else Some (groupTotals (groupOf (bs @ [b]) k)))" for k
  proof (cases "gradientKey b = k")
    case False
    then show ?thesis using assms True
      by (simp add: grouped_def groupBin_def map_of_addToKey groupOf_snoc)
  next
    case k: True
    have m: "map_of m k = (if groupOf bs k = [] then None else Some (groupTotals (groupOf bs k)))"
      using assms by (simp add: grouped_def)
    show ?thesis
    proof (cases "groupOf bs k = []")
      case e: True
      then show ?thesis using True k m
        by (simp add: groupBin_def map_of_addToKey groupOf_snoc groupTotals_def)
    next
      case e: False
      then show ?thesis using True k m
        by (simp add: groupBin_def map_of_addToKey groupOf_snoc groupTotals_def)
    qed
  qed
  with d show ?thesis by (simp add: grouped_def)
qed

lemma grouped_foldl: "grouped (foldl groupBin [] bs) bs"
proof (induction bs rule: rev_induct)
  case Nil
  show ?case by (simp add: grouped_def groupOf_def)
next
  case (snoc b bs)
  then show ?case by (simp add: grouped_step)
qed

lemma mset_objectEntries: "mset (objectEntries m) = mset m"
  by (simp add: objectEntries_def)

lemma mset_insertBy: "mset (insertBy cmp x ys) = add_mset x (mset ys)"
  by (induction ys) simp_all

lemma mset_arraySort: "mset (arraySort cmp xs) = mset xs"
  by (induction xs) (simp_all add: arraySort_def mset_insertBy)

lemma mset_chart:
  "mset (getPaceByGradientChart rs)
     = image_mset chartEntry (mset (foldl groupBin [] (collectBins rs)))"
  by (simp add: getPaceByGradientChart_def Let_def mset_arraySort mset_objectEntries)

lemma ce_gradient_chartEntry [simp]: "ce_gradient (chartEntry e) = fst e"
  by (simp add: chartEntry_def Let_def)

lemma chart_keys_mset:
  "mset (map ce_gradient (getPaceByGradientChart rs))
     = mset (map fst (foldl groupBin [] (collectBins rs)))"
proof -
  have "mset (map ce_gradient (getPaceByGradientChart rs))
          = image_mset ce_gradient (mset (getPaceByGradientChart rs))" by simp
  also have "\<dots> = image_mset ce_gradient (image_mset chartEntry (mset (foldl groupBin [] (collectBins rs))))"
    by (simp only: mset_chart)
  also have "\<dots> = mset (map fst (foldl groupBin [] (collectBins rs)))"
    by (simp add: image_mset.compositionality comp_def)
  finally show ?thesis .
qed

lemma chart_distinct: "distinct (map ce_gradient (getPaceByGradientChart rs))"
proof -
  have "distinct (map fst (foldl groupBin [] (collectBins rs)))"
    using grouped_foldl[of "collectBins rs"] by (simp add: grouped_def)
  then show ?thesis
    using chart_keys_mset[of rs] by (metis mset_eq_imp_distinct_iff)
qed

lemma chart_member:
  assumes "e \<in> set (getPaceByGradientChart rs)"
  shows "groupOf (collectBins rs) (ce_gradient e) \<noteq> []
         \<and> e = chartEntry (ce_gradient e, groupTotals (groupOf (collectBins rs) (ce_gradient e)))"
proof -
  let ?gm = "foldl groupBin [] (collectBins rs)"
  have "e \<in># mset (getPaceByGradientChart rs)" using assms by simp
  then have "e \<in># image_mset chartEntry (mset ?gm)" by (simp only: mset_chart)
  then obtain kx where kx: "kx \<in> set ?gm" and e: "e = chartEntry kx" by auto
  obtain k x where p: "kx = (k, x)" by (cases kx)
  have g: "grouped ?gm (collectBins rs)" by (rule grouped_foldl)
  then have "distinct (map fst ?gm)" by (simp add: grouped_def)
  with kx p have "map_of ?gm k = Some x" by simp
  moreover from g have "map_of ?gm k = (if groupOf (collectBins rs) k = [] then None
                                         else Some (groupTotals (groupOf (collectBins rs) k)))"
    by (simp add: grouped_def)
  ultimately have "groupOf (collectBins rs) k \<noteq> []" and "x = groupTotals (groupOf (collectBins rs) k)"
    by (auto split: if_splits)
  then show ?thesis using e p by simp
qed

lemma chart_keys_set:
  "set (map ce_gradient (getPaceByGradientChart rs))
     = gradientKey ` set (filter chartable (collectBins rs))"
proof -
  let ?gm = "foldl groupBin [] (collectBins rs)"
  have g: "grouped ?gm (collectBins rs)" by (rule grouped_foldl)
  have "set (map ce_gradient (getPaceByGradientChart rs)) = set (map fst ?gm)"
    using chart_keys_mset[of rs] by (metis mset_eq_setD)
  also have "\<dots> = {k. map_of ?gm k \<noteq> None}"
    by (auto simp: map_of_eq_None_iff)
  also have "\<dots> = {k. groupOf (collectBins rs) k \<noteq> []}"
    using g by (simp add: grouped_def)
  also have "\<dots> = gradientKey ` set (filter chartable (collectBins rs))"
    by (auto simp: groupOf_def filter_empty_conv)
  finally show ?thesis .
qed

lemma gradientKey_eq_iff:
  "gradientKey b = gradientKey b'
     \<longleftrightarrow> max (- 35) (min 35 (Math_round (gradient b))) = max (- 35) (min 35 (Math_round (gradient b')))"
proof -
  have ne: "(''<=-35'' :: string) \<noteq> ''>=35''" by simp
  show ?thesis
    using toString_int_not_extreme toString_int_not_extreme[symmetric] ne ne[symmetric]
    by (auto simp: gradientKey_def Let_def toString_int_inject max_def min_def)
qed

lemma gradientKey_extremes:
  "gradientKey b = ''<=-35'' \<longleftrightarrow> Math_round (gradient b) \<le> - 35"
  "gradientKey b = ''>=35'' \<longleftrightarrow> 35 \<le> Math_round (gradient b)"
  using toString_int_not_extreme
  by (auto simp: gradientKey_def Let_def)

lemma Math_round_nearest: "\<bar>x - of_int (Math_round x)\<bar> \<le> 1 / 2"
  unfolding Math_round_def by linarith

lemma sum_list_pos:
  fixes xs :: "real list"
  assumes "xs \<noteq> []" "\<forall>x\<in>set xs. 0 < x"
  shows "0 < sum_list xs"
  using assms
proof (induction xs)
  case Nil then show ?case by simp
next
  case (Cons a xs)
  have "0 \<le> sum_list xs" using Cons.prems(2) by (intro sum_list_nonneg) auto
  moreover have "0 < a" using Cons.prems(2) by simp
  ultimately show ?case by simp
qed

lemma groupTotals_pos:
  assumes "groupOf bs k \<noteq> []"
  shows "0 < totalDistance (groupTotals (groupOf bs k))" "0 < totalTime (groupTotals (groupOf bs k))"
proof -
  have "\<forall>x\<in>set (map distance (groupOf bs k)). 0 < x"
    by (auto simp: groupOf_def chartable_def)
  then show "0 < totalDistance (groupTotals (groupOf bs k))"
    using assms by (simp add: groupTotals_def sum_list_pos)
  have "\<forall>x\<in>set (map timeInSeconds (groupOf bs k)). 0 < x"
    by (auto simp: groupOf_def chartable_def)
  then show "0 < totalTime (groupTotals (groupOf bs k))"
    using assms by (simp add: groupTotals_def sum_list_pos)
qed

lemma chart_pace_pos:
  assumes "e \<in> set (getPaceByGradientChart rs)"
  shows "0 < avgPace e"
proof -
  from chart_member[OF assms] have ne: "groupOf (collectBins rs) (ce_gradient e) \<noteq> []"
    and e: "e = chartEntry (ce_gradient e, groupTotals (groupOf (collectBins rs) (ce_gradient e)))"
    by simp_all
  have "avgPace e = (totalTime (groupTotals (groupOf (collectBins rs) (ce_gradient e))) / 60)
                      / (totalDistance (groupTotals (groupOf (collectBins rs) (ce_gradient e))) / 1000)"
    by (subst e) (simp add: chartEntry_def Let_def)
  then show ?thesis using groupTotals_pos[OF ne] by simp
qed

text \<open>
  C4. The bins of all runs that have a \<open>bins\<close> array are charted together. The chart
  has exactly one entry per key, the keys are those of the bins with positive distance and
  positive time, and the entry of a key has
  \<open>avgPace = (sum of the times / 60) / (sum of the distances / 1000)\<close> over the bins with that
  key and counts them. Two bins have the same key exactly when their gradients, rounded to
  the nearest integer (ties upwards) and folded into \<open>[-35, 35]\<close>, agree; the keys of
  the two ends are the sentinels.
\<close>

theorem pace_chart_groups:
  "distinct (map ce_gradient (getPaceByGradientChart rs))
   \<and> set (map ce_gradient (getPaceByGradientChart rs))
       = gradientKey ` set (filter (\<lambda>b. 0 < distance b \<and> 0 < timeInSeconds b)
                             (concat (map (\<lambda>r. case bins r of Some bs \<Rightarrow> bs | None \<Rightarrow> []) rs)))
   \<and> (\<forall>e \<in> set (getPaceByGradientChart rs).
        avgPace e
          = (sum_list (map timeInSeconds
               (filter (\<lambda>b. (0 < distance b \<and> 0 < timeInSeconds b) \<and> gradientKey b = ce_gradient e)
                  (concat (map (\<lambda>r. case bins r of Some bs \<Rightarrow> bs | None \<Rightarrow> []) rs)))) / 60)
            / (sum_list (map distance
               (filter (\<lambda>b. (0 < distance b \<and> 0 < timeInSeconds b) \<and> gradientKey b = ce_gradient e)
                  (concat (map (\<lambda>r. case bins r of Some bs \<Rightarrow> bs | None \<Rightarrow> []) rs)))) / 1000)
        \<and> binCount e
          = length (filter (\<lambda>b. (0 < distance b \<and> 0 < timeInSeconds b) \<and> gradientKey b = ce_gradient e)
                      (concat (map (\<lambda>r. case bins r of Some bs \<Rightarrow> bs | None \<Rightarrow> []) rs))))
   \<and> (\<forall>b b'. gradientKey b = gradientKey b'
        \<longleftrightarrow> max (- 35) (min 35 \<lfloor>gradient b + 1 / 2\<rfloor>)
            = max (- 35) (min 35 \<lfloor>gradient b' + 1 / 2\<rfloor>))
   \<and> (\<forall>b. (gradientKey b = ''<=-35'' \<longleftrightarrow> \<lfloor>gradient b + 1 / 2\<rfloor> \<le> - 35)
          \<and> (gradientKey b = ''>=35'' \<longleftrightarrow> 35 \<le> \<lfloor>gradient b + 1 / 2\<rfloor>)
          \<and> \<bar>gradient b - of_int \<lfloor>gradient b + 1 / 2\<rfloor>\<bar> \<le> 1 / 2)"
proof -
  let ?all = "concat (map (\<lambda>r. case bins r of Some bs \<Rightarrow> bs | None \<Rightarrow> []) rs)"
  have all: "collectBins rs = ?all"
    by (simp add: collectBins_def runBins_def[abs_def])
  have ch: "chartable = (\<lambda>b. 0 < distance b \<and> 0 < timeInSeconds b)"
    by (simp add: chartable_def fun_eq_iff)
  have c1: "distinct (map ce_gradient (getPaceByGradientChart rs))" by (rule chart_distinct)
  have c2: "set (map ce_gradient (getPaceByGradientChart rs))
       = gradientKey ` set (filter (\<lambda>b. 0 < distance b \<and> 0 < timeInSeconds b) ?all)"
    using chart_keys_set[of rs] unfolding all ch .
  have c3: "\<forall>e \<in> set (getPaceByGradientChart rs).
        avgPace e
          = (sum_list (map timeInSeconds
               (filter (\<lambda>b. (0 < distance b \<and> 0 < timeInSeconds b) \<and> gradientKey b = ce_gradient e) ?all)) / 60)
            / (sum_list (map distance
               (filter (\<lambda>b. (0 < distance b \<and> 0 < timeInSeconds b) \<and> gradientKey b = ce_gradient e) ?all)) / 1000)
        \<and> binCount e
          = length (filter (\<lambda>b. (0 < distance b \<and> 0 < timeInSeconds b) \<and> gradientKey b = ce_gradient e) ?all)"
  proof
    fix e assume "e \<in> set (getPaceByGradientChart rs)"
    from chart_member[OF this]
    have e: "e = chartEntry (ce_gradient e, groupTotals (groupOf ?all (ce_gradient e)))"
      unfolding all by simp
    have g: "groupOf ?all (ce_gradient e)
               = filter (\<lambda>b. (0 < distance b \<and> 0 < timeInSeconds b) \<and> gradientKey b = ce_gradient e) ?all"
      unfolding groupOf_def ch ..
    have "avgPace e = (totalTime (groupTotals (groupOf ?all (ce_gradient e))) / 60)
                      / (totalDistance (groupTotals (groupOf ?all (ce_gradient e))) / 1000)"
      and "binCount e = gd_binCount (groupTotals (groupOf ?all (ce_gradient e)))"
      by (subst e, simp add: chartEntry_def Let_def)+
    then show "avgPace e
          = (sum_list (map timeInSeconds
               (filter (\<lambda>b. (0 < distance b \<and> 0 < timeInSeconds b) \<and> gradientKey b = ce_gradient e) ?all)) / 60)
            / (sum_list (map distance
               (filter (\<lambda>b. (0 < distance b \<and> 0 < timeInSeconds b) \<and> gradientKey b = ce_gradient e) ?all)) / 1000)
        \<and> binCount e
          = length (filter (\<lambda>b. (0 < distance b \<and> 0 < timeInSeconds b) \<and> gradientKey b = ce_gradient e) ?all)"
      unfolding g by (simp add: groupTotals_def)
  qed
  have c4: "\<forall>b b'. gradientKey b = gradientKey b'
        \<longleftrightarrow> max (- 35) (min 35 \<lfloor>gradient b + 1 / 2\<rfloor>)
            = max (- 35) (min 35 \<lfloor>gradient b' + 1 / 2\<rfloor>)"
    using gradientKey_eq_iff unfolding Math_round_def by blast
  have c5: "\<forall>b. (gradientKey b = ''<=-35'' \<longleftrightarrow> \<lfloor>gradient b + 1 / 2\<rfloor> \<le> - 35)
          \<and> (gradientKey b = ''>=35'' \<longleftrightarrow> 35 \<le> \<lfloor>gradient b + 1 / 2\<rfloor>)
          \<and> \<bar>gradient b - of_int \<lfloor>gradient b + 1 / 2\<rfloor>\<bar> \<le> 1 / 2"
    using gradientKey_extremes Math_round_nearest unfolding Math_round_def by blast
  from c1 c2 c3 c4 c5 show ?thesis by (intro conjI)
qed

subsection \<open>Sorting and base pace\<close>

lemma set_insertBy: "set (insertBy cmp x ys) = insert x (set ys)"
  by (induction ys) auto

lemma set_arraySort: "set (arraySort cmp xs) = set xs"
  by (induction xs) (simp_all add: arraySort_def set_insertBy)

lemma arraySort_Nil_iff: "arraySort cmp xs = [] \<longleftrightarrow> xs = []"
  using set_arraySort[of cmp xs] by (metis set_empty)

lemma sorted_insertBy:
  assumes "\<forall>y\<in>set ys. cmp x y = Some (key x - key y)" and "sorted (map key ys)"
  shows "sorted (map key (insertBy cmp x ys))"
  using assms
proof (induction ys)
  case Nil
  show ?case by simp
next
  case (Cons y ys)
  have c: "cmp x y = Some (key x - key y)" using Cons.prems(1) by simp
  show ?case
  proof (cases "0 < key x - key y")
    case True
    have "sorted (map key (insertBy cmp x ys))"
      using Cons.prems by (intro Cons.IH) simp_all
    moreover have "\<forall>z\<in>set (insertBy cmp x ys). key y \<le> key z"
      using Cons.prems(2) True by (auto simp: set_insertBy)
    ultimately show ?thesis using True c by simp
  next
    case False
    then have "key x \<le> key y" by simp
    then show ?thesis using False c Cons.prems(2) by auto
  qed
qed

lemma sorted_arraySort:
  assumes "\<forall>y\<in>set xs. \<forall>z\<in>set xs. cmp y z = Some (key y - key z)"
  shows "sorted (map key (arraySort cmp xs))"
  using assms
proof (induction xs)
  case Nil
  show ?case by (simp add: arraySort_def)
next
  case (Cons x xs)
  have s: "sorted (map key (arraySort cmp xs))" using Cons.prems by (intro Cons.IH) simp
  have c: "\<forall>y\<in>set (arraySort cmp xs). cmp x y = Some (key x - key y)"
    using Cons.prems by (simp add: set_arraySort)
  have "sorted (map key (insertBy cmp x (arraySort cmp xs)))"
    using c s by (rule sorted_insertBy[where cmp = cmp and key = key])
  then show ?case by (simp add: arraySort_def)
qed

lemma hd_sorted_min:
  assumes "sorted (map key xs)" "xs \<noteq> []" "y \<in> set xs"
  shows "key (hd xs) \<le> (key y :: int)"
  using assms by (cases xs) auto

lemma selectBasePace_flat:
  assumes "e \<in> set gd" "ce_gradient e = ''0''" "distinct (map ce_gradient gd)"
  shows "selectBasePace gd = Some (avgPace e)"
proof -
  from assms(1,2) obtain f where f: "find (\<lambda>item. ce_gradient item = ''0'') gd = Some f"
    by (cases "find (\<lambda>item. ce_gradient item = ''0'') gd") (auto simp: find_None_iff)
  then have "f \<in> set gd" "ce_gradient f = ''0''"
    by (auto simp: find_Some_iff)
  with assms have "f = e" by (metis distinct_map inj_onD)
  with f show ?thesis by (simp add: selectBasePace_def)
qed

lemma selectBasePace_near:
  assumes no0: "\<forall>e\<in>set gd. ce_gradient e \<noteq> ''0''" and ex: "\<exists>e\<in>set gd. nearZero e"
  shows "\<exists>e\<in>set gd. nearZero e \<and> selectBasePace gd = Some (avgPace e)
           \<and> (\<forall>e'\<in>set gd. nearZero e'
                 \<longrightarrow> \<bar>the (parseInt (ce_gradient e))\<bar> \<le> \<bar>the (parseInt (ce_gradient e'))\<bar>)"
proof -
  let ?near = "filter nearZero gd"
  let ?key = "\<lambda>e. \<bar>the (parseInt (ce_gradient e))\<bar>"
  let ?s = "arraySort nearZeroCompare ?near"
  have f: "find (\<lambda>item. ce_gradient item = ''0'') gd = None"
    using no0 by (simp add: find_None_iff)
  have ne: "?s \<noteq> []" using ex by (auto simp: arraySort_Nil_iff filter_empty_conv)
  have cmp: "\<forall>y\<in>set ?near. \<forall>z\<in>set ?near. nearZeroCompare y z = Some (?key y - ?key z)"
    by (auto simp: nearZero_def nearZeroCompare_def split: option.splits)
  have srt: "sorted (map ?key ?s)"
    using cmp by (rule sorted_arraySort[where cmp = nearZeroCompare and key = ?key])
  have hd: "hd ?s \<in> set ?near" using ne set_arraySort[of nearZeroCompare ?near]
    by (metis hd_in_set)
  have min: "\<forall>e'\<in>set gd. nearZero e' \<longrightarrow> ?key (hd ?s) \<le> ?key e'"
  proof (intro ballI impI)
    fix e' assume "e' \<in> set gd" "nearZero e'"
    then have "e' \<in> set ?s" by (simp add: set_arraySort)
    from hd_sorted_min[OF srt ne this] show "?key (hd ?s) \<le> ?key e'" .
  qed
  have sel: "selectBasePace gd = Some (avgPace (hd ?s))"
    using f ne by (simp add: selectBasePace_def Let_def)
  show ?thesis using hd min sel by (intro bexI[of _ "hd ?s"]) auto
qed

lemma selectBasePace_average:
  assumes no0: "\<forall>e\<in>set gd. ce_gradient e \<noteq> ''0''" and nonear: "\<forall>e\<in>set gd. \<not> nearZero e"
    and pos: "\<forall>e\<in>set gd. 0 < avgPace e" and ne: "gd \<noteq> []"
  shows "selectBasePace gd = Some (sum_list (map avgPace gd) / real (length gd))"
proof -
  have f: "find (\<lambda>item. ce_gradient item = ''0'') gd = None"
    using no0 by (simp add: find_None_iff)
  have n: "filter nearZero gd = []" using nonear by (simp add: filter_empty_conv)
  have v: "filter (\<lambda>item. avgPace item \<noteq> 0) gd = gd"
    using pos by (auto simp: filter_id_conv)
  show ?thesis
    using f n v ne by (simp add: selectBasePace_def Let_def arraySort_def)
qed

lemma selectBasePace_pos:
  assumes pos: "\<forall>e\<in>set gd. 0 < avgPace e" and s: "selectBasePace gd = Some bp"
  shows "0 < bp"
proof (cases "find (\<lambda>item. ce_gradient item = ''0'') gd")
  case (Some f)
  then have "f \<in> set gd" by (auto simp: find_Some_iff)
  with pos Some s show ?thesis by (auto simp: selectBasePace_def)
next
  case None
  let ?s = "arraySort nearZeroCompare (filter nearZero gd)"
  show ?thesis
  proof (cases "?s = []")
    case False
    then have "hd ?s \<in> set ?s" by simp
    then have "hd ?s \<in> set gd" by (simp add: set_arraySort)
    with pos have "0 < avgPace (hd ?s)" by simp
    with None False s show ?thesis
      by (simp add: selectBasePace_def Let_def)
  next
    case True
    have v: "filter (\<lambda>item. avgPace item \<noteq> 0) gd = gd"
      using pos by (auto simp: filter_id_conv)
    from None True s v have ne: "gd \<noteq> []" and bp: "bp = sum_list (map avgPace gd) / real (length gd)"
      by (auto simp: selectBasePace_def Let_def split: if_splits)
    have "0 < sum_list (map avgPace gd)" using ne pos by (intro sum_list_pos) auto
    then show ?thesis using bp ne by simp
  qed
qed

lemma parseInt_literals: "parseInt ''<-35'' = None" "parseInt ''>35'' = None"
  by (simp_all add: parseInt_def is_digit_def)

lemma toString_int_not_literal: "toString_int k \<noteq> ''<-35''" "toString_int k \<noteq> ''>35''"
  using parseInt_toString_int[of k] parseInt_literals by auto

lemma chartCompare_ints:
  "chartCompare (chartEntry (toString_int j, x)) (chartEntry (toString_int k, y)) = Some (j - k)"
  by (simp add: chartCompare_def toString_int_not_literal parseInt_toString_int)

lemma gradientKey_inner:
  assumes "- 35 < Math_round (gradient b)" "Math_round (gradient b) < 35"
  shows "gradientKey b = toString_int (Math_round (gradient b))"
  using assms by (simp add: gradientKey_def Let_def)

lemma parseInt_gradientKey:
  "parseInt (gradientKey b)
     = (if - 35 < Math_round (gradient b) \<and> Math_round (gradient b) < 35
        then Some (Math_round (gradient b)) else None)"
  by (simp add: gradientKey_def Let_def parseInt_toString_int parseInt_extremes)

lemma gradientKey_zero: "gradientKey b = ''0'' \<longleftrightarrow> Math_round (gradient b) = 0"
proof -
  have "gradientKey b = toString_int 0 \<longleftrightarrow> Math_round (gradient b) = 0"
    using toString_int_not_extreme[of 0]
    by (auto simp: gradientKey_def Let_def toString_int_inject)
  then show ?thesis by (simp add: toString_int_0)
qed

lemma chart_inner_keys:
  assumes inner: "\<forall>b\<in>set (filter chartable (collectBins rs)).
                    - 35 < Math_round (gradient b) \<and> Math_round (gradient b) < 35"
    and e: "e \<in> set (getPaceByGradientChart rs)"
  shows "\<exists>k. ce_gradient e = toString_int k"
proof -
  have "ce_gradient e \<in> set (map ce_gradient (getPaceByGradientChart rs))" using e by simp
  then have "ce_gradient e \<in> gradientKey ` set (filter chartable (collectBins rs))"
    by (simp only: chart_keys_set)
  then obtain b where b: "b \<in> set (filter chartable (collectBins rs))" and k: "ce_gradient e = gradientKey b"
    by blast
  from inner b have "- 35 < Math_round (gradient b)" "Math_round (gradient b) < 35" by auto
  from gradientKey_inner[OF this] k show ?thesis by auto
qed

lemma chartCompare_keys:
  assumes "ce_gradient y = toString_int j" "ce_gradient z = toString_int k"
  shows "chartCompare y z = Some (the (parseInt (ce_gradient y)) - the (parseInt (ce_gradient z)))"
  using assms by (simp add: chartCompare_def toString_int_not_literal parseInt_toString_int)

lemma chart_sorted:
  assumes inner: "\<forall>b\<in>set (filter chartable (collectBins rs)).
                    - 35 < Math_round (gradient b) \<and> Math_round (gradient b) < 35"
  shows "\<exists>ks. map ce_gradient (getPaceByGradientChart rs) = map toString_int ks \<and> sorted_wrt (<) ks"
proof -
  let ?L = "map chartEntry (objectEntries (foldl groupBin [] (collectBins rs)))"
  let ?key = "\<lambda>e. the (parseInt (ce_gradient e))"
  have chart: "getPaceByGradientChart rs = arraySort chartCompare ?L"
    by (simp add: getPaceByGradientChart_def Let_def)
  have keys: "\<forall>e\<in>set ?L. \<exists>k. ce_gradient e = toString_int k"
  proof
    fix e assume "e \<in> set ?L"
    then have "e \<in> set (getPaceByGradientChart rs)" by (simp only: chart set_arraySort)
    from chart_inner_keys[OF inner this] show "\<exists>k. ce_gradient e = toString_int k" .
  qed
  have cmp: "\<forall>y\<in>set ?L. \<forall>z\<in>set ?L. chartCompare y z = Some (?key y - ?key z)"
    using keys chartCompare_keys by blast
  have srt: "sorted (map ?key (arraySort chartCompare ?L))"
    using cmp by (rule sorted_arraySort[where cmp = chartCompare and key = ?key])
  let ?ks = "map ?key (getPaceByGradientChart rs)"
  have kb: "map toString_int ?ks = map ce_gradient (getPaceByGradientChart rs)"
  proof -
    have "\<forall>e\<in>set (getPaceByGradientChart rs). toString_int (?key e) = ce_gradient e"
    proof
      fix e assume "e \<in> set (getPaceByGradientChart rs)"
      from chart_inner_keys[OF inner this] obtain k where "ce_gradient e = toString_int k" by blast
      then show "toString_int (?key e) = ce_gradient e" by (simp add: parseInt_toString_int)
    qed
    then show ?thesis by simp
  qed
  have "distinct (map toString_int ?ks)" unfolding kb by (rule chart_distinct)
  then have "distinct ?ks" by (simp only: distinct_map)
  moreover have "sorted ?ks" using srt by (simp only: chart)
  ultimately have "sorted_wrt (<) ?ks" by (simp add: strict_sorted_iff)
  with kb show ?thesis by (intro exI[of _ ?ks]) simp
qed

subsection \<open>Concrete runs\<close>

lemma Math_round_int [simp]: "Math_round (of_int k) = k"
  by (simp add: Math_round_def)

lemma gradientKey_sampleBin_int:
  "- 35 < k \<Longrightarrow> k < 35 \<Longrightarrow> gradientKey (sampleBin (of_int k) d t) = toString_int k"
  by (simp add: gradientKey_def sampleBin_def Let_def)

lemma sampleBin_fields [simp]:
  "distance (sampleBin g d t) = d" "timeInSeconds (sampleBin g d t) = t"
  "gradient (sampleBin g d t) = g"
  by (simp_all add: sampleBin_def)

lemma isArrayIndex_toString_int: "isArrayIndex (toString_int k) \<longleftrightarrow> 0 \<le> k"
  by (simp add: isArrayIndex_def parseInt_toString_int)

lemma gm_flatAndClimb:
  "foldl groupBin [] (collectBins flatAndClimb)
     = [(toString_int 0, \<lparr> totalDistance = 1000, totalTime = 180, gd_binCount = 1 \<rparr>),
        (toString_int 10, \<lparr> totalDistance = 1000, totalTime = 60, gd_binCount = 1 \<rparr>)]"
proof -
  have k0: "gradientKey (sampleBin 0 1000 180) = toString_int 0"
    using gradientKey_sampleBin_int[of 0 1000 180] by simp
  have k10: "gradientKey (sampleBin 10 1000 60) = toString_int 10"
    using gradientKey_sampleBin_int[of 10 1000 60] by simp
  show ?thesis
    by (simp add: flatAndClimb_def collectBins_def runBins_def groupBin_def chartable_def k0 k10
          toString_int_inject)
qed

lemma chart_flatAndClimb:
  "getPaceByGradientChart flatAndClimb
     = [chartEntry (toString_int 0, \<lparr> totalDistance = 1000, totalTime = 180, gd_binCount = 1 \<rparr>),
        chartEntry (toString_int 10, \<lparr> totalDistance = 1000, totalTime = 60, gd_binCount = 1 \<rparr>)]"
  by (simp add: getPaceByGradientChart_def Let_def gm_flatAndClimb objectEntries_def
        isArrayIndex_toString_int parseInt_toString_int arraySort_def chartCompare_ints)

lemma gradientKey_sampleBin_numeral:
  "gradientKey (sampleBin 0 d t) = toString_int 0"
  "gradientKey (sampleBin 2 d t) = toString_int 2"
  "gradientKey (sampleBin 5 d t) = toString_int 5"
  "gradientKey (sampleBin 10 d t) = toString_int 10"
  "gradientKey (sampleBin 20 d t) = toString_int 20"
  "gradientKey (sampleBin (- 1) d t) = toString_int (- 1)"
  "gradientKey (sampleBin (- 40) d t) = ''<=-35''"
  "gradientKey (sampleBin (1 / 5) d t) = toString_int 0"
  "gradientKey (sampleBin (- (3 / 10)) d t) = toString_int 0"
  by (simp_all add: gradientKey_def sampleBin_def Let_def Math_round_def)

lemma chart_gentleSlopes:
  "getPaceByGradientChart gentleSlopes
     = [chartEntry (toString_int (- 1), \<lparr> totalDistance = 1000, totalTime = 240, gd_binCount = 1 \<rparr>),
        chartEntry (toString_int 2, \<lparr> totalDistance = 1000, totalTime = 360, gd_binCount = 1 \<rparr>)]"
  by (simp add: getPaceByGradientChart_def Let_def gentleSlopes_def collectBins_def runBins_def
        groupBin_def chartable_def gradientKey_sampleBin_numeral toString_int_inject
        objectEntries_def isArrayIndex_toString_int parseInt_toString_int arraySort_def
        chartCompare_ints)

lemma chart_steepOnly:
  "getPaceByGradientChart steepOnly
     = [chartEntry (toString_int 10, \<lparr> totalDistance = 1000, totalTime = 300, gd_binCount = 1 \<rparr>),
        chartEntry (toString_int 20, \<lparr> totalDistance = 1000, totalTime = 420, gd_binCount = 1 \<rparr>)]"
  by (simp add: getPaceByGradientChart_def Let_def steepOnly_def collectBins_def runBins_def
        groupBin_def chartable_def gradientKey_sampleBin_numeral toString_int_inject
        objectEntries_def isArrayIndex_toString_int parseInt_toString_int arraySort_def
        chartCompare_ints)

lemma chart_splitFlat:
  "getPaceByGradientChart splitFlat
     = [chartEntry (toString_int 0, \<lparr> totalDistance = 4000, totalTime = 900, gd_binCount = 2 \<rparr>),
        chartEntry (toString_int 10, \<lparr> totalDistance = 1000, totalTime = 60, gd_binCount = 1 \<rparr>)]"
  by (simp add: getPaceByGradientChart_def Let_def splitFlat_def collectBins_def runBins_def
        groupBin_def chartable_def gradientKey_sampleBin_numeral toString_int_inject
        objectEntries_def isArrayIndex_toString_int parseInt_toString_int arraySort_def
        chartCompare_ints numeral_2_eq_2)

lemma isArrayIndex_extreme: "\<not> isArrayIndex ''<=-35''"
  by (simp add: isArrayIndex_def parseInt_extremes)

lemma chart_climbAndDrop:
  "getPaceByGradientChart climbAndDrop
     = [chartEntry (toString_int 5, \<lparr> totalDistance = 1000, totalTime = 300, gd_binCount = 1 \<rparr>),
        chartEntry (''<=-35'', \<lparr> totalDistance = 1000, totalTime = 240, gd_binCount = 1 \<rparr>)]"
  by (simp add: getPaceByGradientChart_def Let_def climbAndDrop_def collectBins_def runBins_def
        groupBin_def chartable_def gradientKey_sampleBin_numeral toString_int_not_extreme
        toString_int_not_extreme[symmetric]
        objectEntries_def isArrayIndex_toString_int isArrayIndex_extreme parseInt_toString_int
        arraySort_def chartCompare_def parseInt_extremes toString_int_not_literal)

lemma low_extreme_sorted_last:
  "map ce_gradient (getPaceByGradientChart climbAndDrop) = [''5'', ''<=-35'']"
  by (simp add: chart_climbAndDrop toString_int_examples)

lemma avgPace_chartEntry [simp]:
  "avgPace (chartEntry (k, x)) = (totalTime x / 60) / (totalDistance x / 1000)"
  "binCount (chartEntry (k, x)) = gd_binCount x"
  by (simp_all add: chartEntry_def Let_def)

lemma nearZero_chartEntry [simp]:
  "nearZero (chartEntry (toString_int k, x)) \<longleftrightarrow> - 2 \<le> k \<and> k \<le> 2"
  by (simp add: nearZero_def parseInt_toString_int)

lemma nearZeroCompare_ints:
  "nearZeroCompare (chartEntry (toString_int j, x)) (chartEntry (toString_int k, y)) = Some (\<bar>j\<bar> - \<bar>k\<bar>)"
  by (simp add: nearZeroCompare_def parseInt_toString_int)

lemma toFixed_examples:
  "toFixed_Number 4 1 = 1" "toFixed_Number 4 (1 / 3) = 3333 / 10000"
  "toFixed_Number 4 (3 / 2) = 3 / 2" "toFixed_Number 4 (5 / 6) = 8333 / 10000"
  "toFixed_Number 4 (7 / 6) = 11667 / 10000"
  by (simp_all add: toFixed_Number_def)

text \<open>
  The two nearly level bins of \<open>splitFlat\<close> come from different runs and fall into the
  one group \<open>0\<close>. Its weighted pace is 3.75 min/km; the mean of the two per-bin paces is
  4.1666... min/km.
\<close>

theorem pace_chart_groups_witness:
  "length splitFlat = 3
   \<and> map ce_gradient (getPaceByGradientChart splitFlat) = [''0'', ''10'']
   \<and> map binCount (getPaceByGradientChart splitFlat) = [2, 1]
   \<and> map avgPace (getPaceByGradientChart splitFlat)
       = [((300 + 600) / 60) / ((1000 + 3000) / 1000), (60 / 60) / (1000 / 1000)]
   \<and> map (\<lambda>b. the (pace_min_per_km b))
         (concat (map (\<lambda>r. case bins r of Some bs \<Rightarrow> bs | None \<Rightarrow> []) splitFlat))
       = [5, 10 / 3, 1]
   \<and> ((300 + 600) / 60) / ((1000 + 3000) / 1000) \<noteq> ((5 + 10 / 3) / 2 :: real)"
  using pace_chart_groups[of splitFlat]
  by (simp add: chart_splitFlat toString_int_0 toString_int_examples)
     (simp add: splitFlat_def sampleBin_def)

subsection \<open>Grade adjustment analysis\<close>

lemma adjustmentEntry_fields [simp]:
  "ae_gradient (adjustmentEntry base m e) = ce_gradient e"
  "ae_avgPace (adjustmentEntry base m e) = avgPace e"
  "personalAdjustment (adjustmentEntry base m e) = toFixed_Number 4 (adjustmentFactor base (avgPace e))"
  by (simp_all add: adjustmentEntry_def Let_def)

lemma analysis_fields:
  "basePace (getGradeAdjustmentAnalysis rs) = selectBasePace (getPaceByGradientChart rs)"
  "adjustmentData (getGradeAdjustmentAnalysis rs)
     = map (adjustmentEntry (selectBasePace (getPaceByGradientChart rs))
                            (selectBasePace (getPaceByGradientChart rs)))
           (getPaceByGradientChart rs)"
  by (simp_all add: getGradeAdjustmentAnalysis_def Let_def)

text \<open>
  C8 (as amended). The entries of the analysis are those of the chart, in its order. The
  base pace is the pace of the group with key \<open>0\<close> when there is one; otherwise the pace of
  a group nearest to \<open>0\<close> among the groups with keys in \<open>-2..2\<close>; otherwise the average of
  all group paces. The base pace is positive, and every group's personal adjustment is its
  pace divided by the base pace, rounded to four decimals. When no bin falls into an
  extreme group, the entries are in strictly ascending order of their integer keys.
\<close>

theorem grade_adjustment_baseline_and_factors:
  "map ae_gradient (adjustmentData (getGradeAdjustmentAnalysis rs))
     = map ce_gradient (getPaceByGradientChart rs)
   \<and> map ae_avgPace (adjustmentData (getGradeAdjustmentAnalysis rs))
     = map avgPace (getPaceByGradientChart rs)
   \<and> (\<forall>e \<in> set (getPaceByGradientChart rs).
        ce_gradient e = ''0'' \<longrightarrow> basePace (getGradeAdjustmentAnalysis rs) = Some (avgPace e))
   \<and> ((\<forall>e \<in> set (getPaceByGradientChart rs). ce_gradient e \<noteq> ''0'')
        \<and> (\<exists>e \<in> set (getPaceByGradientChart rs). nearZero e)
      \<longrightarrow> (\<exists>e \<in> set (getPaceByGradientChart rs).
             nearZero e \<and> basePace (getGradeAdjustmentAnalysis rs) = Some (avgPace e)
             \<and> (\<forall>e' \<in> set (getPaceByGradientChart rs). nearZero e'
                  \<longrightarrow> \<bar>the (parseInt (ce_gradient e))\<bar> \<le> \<bar>the (parseInt (ce_gradient e'))\<bar>)))
   \<and> ((\<forall>e \<in> set (getPaceByGradientChart rs). ce_gradient e \<noteq> ''0'' \<and> \<not> nearZero e)
        \<and> getPaceByGradientChart rs \<noteq> []
      \<longrightarrow> basePace (getGradeAdjustmentAnalysis rs)
            = Some (sum_list (map avgPace (getPaceByGradientChart rs))
                    / real (length (getPaceByGradientChart rs))))
   \<and> (\<forall>bp. basePace (getGradeAdjustmentAnalysis rs) = Some bp
        \<longrightarrow> 0 < bp
            \<and> map personalAdjustment (adjustmentData (getGradeAdjustmentAnalysis rs))
              = map (\<lambda>e. toFixed_Number 4 (avgPace e / bp)) (getPaceByGradientChart rs))
   \<and> ((\<forall>b \<in> set (filter chartable (collectBins rs)).
          - 35 < Math_round (gradient b) \<and> Math_round (gradient b) < 35)
      \<longrightarrow> (\<exists>ks. map ae_gradient (adjustmentData (getGradeAdjustmentAnalysis rs))
                   = map toString_int ks \<and> sorted_wrt (<) ks))
   \<and> (\<forall>b. (gradientKey b = ''0'' \<longleftrightarrow> Math_round (gradient b) = 0)
          \<and> parseInt (gradientKey b)
              = (if - 35 < Math_round (gradient b) \<and> Math_round (gradient b) < 35
                 then Some (Math_round (gradient b)) else None))"
proof -
  let ?chart = "getPaceByGradientChart rs"
  let ?A = "getGradeAdjustmentAnalysis rs"
  have pos: "\<forall>e\<in>set ?chart. 0 < avgPace e" by (simp add: chart_pace_pos)
  have keys: "map ae_gradient (adjustmentData ?A) = map ce_gradient ?chart"
    by (simp add: analysis_fields comp_def)
  have paces: "map ae_avgPace (adjustmentData ?A) = map avgPace ?chart"
    by (simp add: analysis_fields comp_def)
  have flat: "\<forall>e \<in> set ?chart. ce_gradient e = ''0'' \<longrightarrow> basePace ?A = Some (avgPace e)"
    using selectBasePace_flat[OF _ _ chart_distinct[of rs]] by (simp add: analysis_fields)
  have near: "(\<forall>e \<in> set ?chart. ce_gradient e \<noteq> ''0'') \<and> (\<exists>e \<in> set ?chart. nearZero e)
      \<longrightarrow> (\<exists>e \<in> set ?chart. nearZero e \<and> basePace ?A = Some (avgPace e)
             \<and> (\<forall>e' \<in> set ?chart. nearZero e'
                  \<longrightarrow> \<bar>the (parseInt (ce_gradient e))\<bar> \<le> \<bar>the (parseInt (ce_gradient e'))\<bar>))"
    using selectBasePace_near[of ?chart] by (simp add: analysis_fields)
  have avg: "(\<forall>e \<in> set ?chart. ce_gradient e \<noteq> ''0'' \<and> \<not> nearZero e) \<and> ?chart \<noteq> []
      \<longrightarrow> basePace ?A = Some (sum_list (map avgPace ?chart) / real (length ?chart))"
    using selectBasePace_average[of ?chart] pos by (simp add: analysis_fields)
  have fac: "\<forall>bp. basePace ?A = Some bp
        \<longrightarrow> 0 < bp \<and> map personalAdjustment (adjustmentData ?A)
              = map (\<lambda>e. toFixed_Number 4 (avgPace e / bp)) ?chart"
  proof (intro allI impI)
    fix bp assume bp: "basePace ?A = Some bp"
    then have s: "selectBasePace ?chart = Some bp" by (simp add: analysis_fields)
    from selectBasePace_pos[OF pos s] have p: "0 < bp" .
    then show "0 < bp \<and> map personalAdjustment (adjustmentData ?A)
              = map (\<lambda>e. toFixed_Number 4 (avgPace e / bp)) ?chart"
      by (simp add: analysis_fields s adjustmentFactor_def comp_def)
  qed
  have ord: "(\<forall>b \<in> set (filter chartable (collectBins rs)).
          - 35 < Math_round (gradient b) \<and> Math_round (gradient b) < 35)
      \<longrightarrow> (\<exists>ks. map ae_gradient (adjustmentData ?A) = map toString_int ks \<and> sorted_wrt (<) ks)"
    unfolding keys using chart_sorted[of rs] by blast
  have key: "\<forall>b. (gradientKey b = ''0'' \<longleftrightarrow> Math_round (gradient b) = 0)
          \<and> parseInt (gradientKey b)
              = (if - 35 < Math_round (gradient b) \<and> Math_round (gradient b) < 35
                 then Some (Math_round (gradient b)) else None)"
    using gradientKey_zero parseInt_gradientKey by blast
  from keys paces flat near avg fac ord key show ?thesis by blast
qed

lemma analysis_flatAndClimb:
  "basePace (getGradeAdjustmentAnalysis flatAndClimb) = Some 3"
  "adjustmentData (getGradeAdjustmentAnalysis flatAndClimb)
     = map (adjustmentEntry (Some 3) (Some 3))
         [chartEntry (toString_int 0, \<lparr> totalDistance = 1000, totalTime = 180, gd_binCount = 1 \<rparr>),
          chartEntry (toString_int 10, \<lparr> totalDistance = 1000, totalTime = 60, gd_binCount = 1 \<rparr>)]"
proof -
  have b: "selectBasePace (getPaceByGradientChart flatAndClimb) = Some 3"
    by (simp add: chart_flatAndClimb selectBasePace_def toString_int_0[symmetric] toString_int_inject)
  show "basePace (getGradeAdjustmentAnalysis flatAndClimb) = Some 3"
    by (simp only: analysis_fields b)
  show "adjustmentData (getGradeAdjustmentAnalysis flatAndClimb)
     = map (adjustmentEntry (Some 3) (Some 3))
         [chartEntry (toString_int 0, \<lparr> totalDistance = 1000, totalTime = 180, gd_binCount = 1 \<rparr>),
          chartEntry (toString_int 10, \<lparr> totalDistance = 1000, totalTime = 60, gd_binCount = 1 \<rparr>)]"
    by (simp only: analysis_fields b) (simp only: chart_flatAndClimb)
qed

lemma analysis_gentleSlopes:
  "basePace (getGradeAdjustmentAnalysis gentleSlopes) = Some 4"
  "adjustmentData (getGradeAdjustmentAnalysis gentleSlopes)
     = map (adjustmentEntry (Some 4) (Some 4))
         [chartEntry (toString_int (- 1), \<lparr> totalDistance = 1000, totalTime = 240, gd_binCount = 1 \<rparr>),
          chartEntry (toString_int 2, \<lparr> totalDistance = 1000, totalTime = 360, gd_binCount = 1 \<rparr>)]"
proof -
  have b: "selectBasePace (getPaceByGradientChart gentleSlopes) = Some 4"
    by (simp add: chart_gentleSlopes selectBasePace_def toString_int_0[symmetric] toString_int_inject
        arraySort_def nearZeroCompare_ints Let_def)
  show "basePace (getGradeAdjustmentAnalysis gentleSlopes) = Some 4"
    by (simp only: analysis_fields b)
  show "adjustmentData (getGradeAdjustmentAnalysis gentleSlopes)
     = map (adjustmentEntry (Some 4) (Some 4))
         [chartEntry (toString_int (- 1), \<lparr> totalDistance = 1000, totalTime = 240, gd_binCount = 1 \<rparr>),
          chartEntry (toString_int 2, \<lparr> totalDistance = 1000, totalTime = 360, gd_binCount = 1 \<rparr>)]"
    by (simp only: analysis_fields b) (simp only: chart_gentleSlopes)
qed

lemma analysis_steepOnly:
  "basePace (getGradeAdjustmentAnalysis steepOnly) = Some 6"
  "adjustmentData (getGradeAdjustmentAnalysis steepOnly)
     = map (adjustmentEntry (Some 6) (Some 6))
         [chartEntry (toString_int 10, \<lparr> totalDistance = 1000, totalTime = 300, gd_binCount = 1 \<rparr>),
          chartEntry (toString_int 20, \<lparr> totalDistance = 1000, totalTime = 420, gd_binCount = 1 \<rparr>)]"
proof -
  have b: "selectBasePace (getPaceByGradientChart steepOnly) = Some 6"
    by (simp add: chart_steepOnly selectBasePace_def toString_int_0[symmetric] toString_int_inject
        arraySort_def Let_def)
  show "basePace (getGradeAdjustmentAnalysis steepOnly) = Some 6"
    by (simp only: analysis_fields b)
  show "adjustmentData (getGradeAdjustmentAnalysis steepOnly)
     = map (adjustmentEntry (Some 6) (Some 6))
         [chartEntry (toString_int 10, \<lparr> totalDistance = 1000, totalTime = 300, gd_binCount = 1 \<rparr>),
          chartEntry (toString_int 20, \<lparr> totalDistance = 1000, totalTime = 420, gd_binCount = 1 \<rparr>)]"
    by (simp only: analysis_fields b) (simp only: chart_steepOnly)
qed

lemma toString_int_more:
  "toString_int 2 = ''2''" "toString_int 20 = ''20''"
  by code_simp+

text \<open>
  With a base pace of 3 min/km the group at 1 min/km gets the factor 0.3333, not 1/3.
\<close>

theorem personal_factor_is_rounded:
  "basePace (getGradeAdjustmentAnalysis flatAndClimb) = Some 3
   \<and> map ae_gradient (adjustmentData (getGradeAdjustmentAnalysis flatAndClimb)) = [''0'', ''10'']
   \<and> map ae_avgPace (adjustmentData (getGradeAdjustmentAnalysis flatAndClimb)) = [3, 1]
   \<and> map personalAdjustment (adjustmentData (getGradeAdjustmentAnalysis flatAndClimb))
       = [1, 3333 / 10000]
   \<and> (1::real) / 3 \<noteq> 3333 / 10000"
  by (simp add: analysis_flatAndClimb adjustmentFactor_def
        toFixed_examples toString_int_examples toString_int_0)

theorem grade_adjustment_baseline_and_factors_witness:
  "basePace (getGradeAdjustmentAnalysis flatAndClimb) = Some 3
   \<and> map ae_gradient (adjustmentData (getGradeAdjustmentAnalysis flatAndClimb)) = [''0'', ''10'']
   \<and> map personalAdjustment (adjustmentData (getGradeAdjustmentAnalysis flatAndClimb))
       = [1, 3333 / 10000]
   \<and> basePace (getGradeAdjustmentAnalysis gentleSlopes) = Some 4
   \<and> map ae_gradient (adjustmentData (getGradeAdjustmentAnalysis gentleSlopes)) = [''-1'', ''2'']
   \<and> map personalAdjustment (adjustmentData (getGradeAdjustmentAnalysis gentleSlopes))
       = [1, 3 / 2]
   \<and> basePace (getGradeAdjustmentAnalysis steepOnly) = Some ((5 + 7) / 2)
   \<and> map ae_gradient (adjustmentData (getGradeAdjustmentAnalysis steepOnly)) = [''10'', ''20'']
   \<and> map personalAdjustment (adjustmentData (getGradeAdjustmentAnalysis steepOnly))
       = [8333 / 10000, 11667 / 10000]"
  using grade_adjustment_baseline_and_factors[of flatAndClimb]
        grade_adjustment_baseline_and_factors[of gentleSlopes]
        grade_adjustment_baseline_and_factors[of steepOnly]
  by (simp add: analysis_flatAndClimb analysis_gentleSlopes analysis_steepOnly adjustmentFactor_def
        toFixed_examples toString_int_examples toString_int_0 toString_int_more)

section \<open>Properties of the batch handler\<close>

lemma processOneFile_fails:
  assumes "fileFails procFile routePts file"
  shows "\<exists>message. processOneFile procFile routePts len i file (rs, es)
           = (rs, es @ [\<lparr> fe_filename = originalname file, fe_error = message \<rparr>])"
  using assms
  by (auto simp: fileFails_def processOneFile_def split: outcome.splits option.splits list.splits)

lemma processOneFile_succeeds:
  assumes "\<not> fileFails procFile routePts file"
  shows "\<exists>r. processOneFile procFile routePts len i file (rs, es) = (rs @ [r], es)
             \<and> fr_fileIndex r = i \<and> fr_binLength r = len"
  using assms
  by (auto simp: fileFails_def processOneFile_def Let_def split: outcome.splits option.splits list.splits)

lemma progressInfo_ProgressEvent [simp]:
  "progressInfo (ProgressEvent p) = Some (pg_fileIndex p, pg_filesProcessed p, pg_currentFile p)"
  by (simp add: progressInfo_def)

lemma processFiles_trace:
  assumes "length rs + length es = i"
  shows "\<exists>evs rs' es'.
           processFiles procFile routePts len n i fs (rs, es) = (evs, rs', es')
           \<and> map progressInfo evs
               = map (\<lambda>(k, f). Some (k + 1, k + 1, originalname f)) (List.enumerate i fs)
           \<and> map fe_filename es'
               = map fe_filename es @ map originalname (filter (fileFails procFile routePts) fs)
           \<and> map fr_fileIndex rs'
               = map fr_fileIndex rs
                 @ map fst (filter (\<lambda>(k, f). \<not> fileFails procFile routePts f) (List.enumerate i fs))
           \<and> length rs' + length es' = i + length fs"
  using assms
proof (induction fs arbitrary: i rs es)
  case Nil
  then show ?case by simp
next
  case (Cons f fs)
  obtain rs1 es1 where one: "processOneFile procFile routePts len i f (rs, es) = (rs1, es1)"
    by (cases "processOneFile procFile routePts len i f (rs, es)") auto
  have step: "length rs1 + length es1 = Suc i
              \<and> map fe_filename es1
                  = map fe_filename es @ (if fileFails procFile routePts f then [originalname f] else [])
              \<and> map fr_fileIndex rs1
                  = map fr_fileIndex rs @ (if fileFails procFile routePts f then [] else [i])"
  proof (cases "fileFails procFile routePts f")
    case True
    from processOneFile_fails[OF True, of len i rs es] one Cons.prems True
    show ?thesis by auto
  next
    case False
    from processOneFile_succeeds[OF False, of len i rs es] one Cons.prems False
    show ?thesis by auto
  qed
  then have len1: "length rs1 + length es1 = Suc i" by simp
  from Cons.IH[OF len1] obtain evs rs' es' where
    rest: "processFiles procFile routePts len n (Suc i) fs (rs1, es1) = (evs, rs', es')"
    and ev: "map progressInfo evs
               = map (\<lambda>(k, f). Some (k + 1, k + 1, originalname f)) (List.enumerate (Suc i) fs)"
    and er: "map fe_filename es'
               = map fe_filename es1 @ map originalname (filter (fileFails procFile routePts) fs)"
    and rr: "map fr_fileIndex rs'
               = map fr_fileIndex rs1
                 @ map fst (filter (\<lambda>(k, f). \<not> fileFails procFile routePts f) (List.enumerate (Suc i) fs))"
    and ln: "length rs' + length es' = Suc i + length fs"
    by blast
  show ?case
    using one rest ev er rr ln step
    by (auto simp: Let_def)
qed

lemma progressInfo_others [simp]:
  "progressInfo (CompleteEvent c) = None" "progressInfo (ErrorEvent m) = None"
  by (simp_all add: progressInfo_def)

lemma progressInfo_isProgress: "progressInfo e = Some x \<Longrightarrow> isProgress e"
  by (cases e) (simp_all add: isProgress_def)

lemma all_progress:
  assumes "map progressInfo evs = map (\<lambda>(k, f). Some (g k f)) kfs"
  shows "filter isProgress evs = evs" "filter isComplete evs = []"
proof -
  have "\<forall>e\<in>set evs. \<exists>x. progressInfo e = Some x"
  proof
    fix e assume "e \<in> set evs"
    then have "progressInfo e \<in> set (map progressInfo evs)" by simp
    then have "progressInfo e \<in> set (map (\<lambda>(k, f). Some (g k f)) kfs)" by (simp only: assms)
    then obtain kf where "progressInfo e = (\<lambda>(k, f). Some (g k f)) kf" by auto
    then show "\<exists>x. progressInfo e = Some x" by (cases kf) (simp only: prod.case, blast)
  qed
  then have p: "\<forall>e\<in>set evs. isProgress e" using progressInfo_isProgress by blast
  then show "filter isProgress evs = evs" by (simp add: filter_id_conv)
  have "\<forall>e\<in>set evs. \<not> isComplete e"
    using p by (auto simp: isProgress_def isComplete_def split: event.splits)
  then show "filter isComplete evs = []" by (simp add: filter_empty_conv)
qed

lemma unsupported_extension_fails:
  assumes "fileExtension (originalname f) \<noteq> ''gpx''" "fileExtension (originalname f) \<noteq> ''fit''"
  shows "fileFails (processFile g h) routePts f"
  using assms by (simp add: fileFails_def processFile_def Let_def)

lemma gpx_without_points_fails:
  assumes "fileExtension (originalname f) = ''gpx''"
    and "parseGPX (buffer f) = Returned gpx"
    and "tracks gpx = [] \<or> hd (tracks gpx) = []"
    and "routes gpx = [] \<or> hd (routes gpx) = []"
  shows "fileFails (processFile (processGPXFile parseGPX gpxStats) h) routePts f"
  using assms
  by (auto simp: fileFails_def processFile_def processGPXFile_def Let_def split: list.splits)

lemma gpx_parse_error_fails:
  assumes "fileExtension (originalname f) = ''gpx''"
    and "parseGPX (buffer f) = Threw message" and "message \<noteq> []"
  shows "fileFails (processFile (processGPXFile parseGPX gpxStats) h) routePts f"
  using assms
  by (auto simp: fileFails_def processFile_def processGPXFile_def Let_def split: list.splits)

lemma fit_parse_error_fails:
  assumes "fileExtension (originalname f) = ''fit''"
    and "parseFIT (buffer f) = Returned (Inl e)"
  shows "fileFails (processFile g (processFITFile parseFIT fitStats)) routePts f"
  using assms
  by (auto simp: fileFails_def processFile_def processFITFile_def Let_def split: list.splits)

text \<open>
  A FIT file that parses but holds no point is not a failing file: \<open>processFITFile\<close>
  makes no test on the number of points (its statistics fall back to \<open>0\<close>), and the
  handler computes bins only when there are route points.
\<close>

lemma fit_without_points_succeeds:
  assumes "fileExtension (originalname f) = ''fit''"
    and "parseFIT (buffer f) = Returned (Inr data)"
    and "fitStats data (originalname f) = Returned stats"
    and "getFIT (buffer f) = Returned (Some [])"
  shows "\<not> fileFails (processFile g (processFITFile parseFIT fitStats)) (getRoutePoints getGPX getFIT) f"
  using assms
  by (auto simp: fileFails_def processFile_def processFITFile_def getRoutePoints_def Let_def
           split: list.splits)

text \<open>
  C5 (as amended). For a stored batch of \<open>N\<close> files the handler writes one initial
  progress event (file index \<open>0\<close>, nothing processed), then exactly one progress event
  per file, in order, the \<open>k\<close>-th naming that file and reporting \<open>k\<close> files
  processed, then one \<open>complete\<close> event: \<open>N + 1\<close> progress events and one terminal
  event. A file whose processing throws or reports an error adds one error entry with its
  name and the loop goes on; every other file adds one result with its index; the two lists
  together have \<open>N\<close> entries. Such failing files are: a file whose extension is neither
  \<open>gpx\<close> nor \<open>fit\<close>; a GPX file on which the parser throws with a message; a GPX
  file whose first track and first route hold no point; a FIT file for which the parser
  reports an error. Afterwards the batch is no longer in the store.
\<close>

theorem batch_events_and_isolation:
  assumes "batchFiles batchId = Some batchData"
  shows "(\<exists>evs rs es.
            processBatchHandler procFile routePts batchFiles batchId
              = (batchFiles(batchId := None),
                 EventStream
                   (ProgressEvent
                      \<lparr> pg_fileIndex = 0, pg_totalFiles = length (bd_files batchData),
                        pg_progressPercent = 0, pg_filesProcessed = 0,
                        pg_currentFile = ''Starting analysis...'',
                        pg_resultsSoFar = [], pg_errorsSoFar = [] \<rparr>
                    # evs
                    @ [CompleteEvent
                         \<lparr> done_totalFiles = length (bd_files batchData),
                           done_successfulFiles = length rs, done_failedFiles = length es,
                           done_results = rs, done_errors = es \<rparr>]))
            \<and> map progressInfo evs
                = map (\<lambda>(k, f). Some (k + 1, k + 1, originalname f))
                    (List.enumerate 0 (bd_files batchData))
            \<and> map fe_filename es
                = map originalname (filter (fileFails procFile routePts) (bd_files batchData))
            \<and> map fr_fileIndex rs
                = map fst (filter (\<lambda>(k, f). \<not> fileFails procFile routePts f)
                             (List.enumerate 0 (bd_files batchData)))
            \<and> length rs + length es = length (bd_files batchData))
       \<and> length (filter isProgress
                    (responseEvents (snd (processBatchHandler procFile routePts batchFiles batchId))))
           = length (bd_files batchData) + 1
       \<and> length (filter isComplete
                    (responseEvents (snd (processBatchHandler procFile routePts batchFiles batchId))))
           = 1
       \<and> fst (processBatchHandler procFile routePts batchFiles batchId) batchId = None
       \<and> (\<forall>g h f. fileExtension (originalname f) \<noteq> ''gpx'' \<and> fileExtension (originalname f) \<noteq> ''fit''
             \<longrightarrow> fileFails (processFile g h) routePts f)
       \<and> (\<forall>parseGPX gpxStats h f message.
             fileExtension (originalname f) = ''gpx''
             \<and> parseGPX (buffer f) = Threw message \<and> message \<noteq> []
             \<longrightarrow> fileFails (processFile (processGPXFile parseGPX gpxStats) h) routePts f)
       \<and> (\<forall>parseGPX gpxStats h f gpx.
             fileExtension (originalname f) = ''gpx''
             \<and> parseGPX (buffer f) = Returned gpx
             \<and> (tracks gpx = [] \<or> hd (tracks gpx) = [])
             \<and> (routes gpx = [] \<or> hd (routes gpx) = [])
             \<longrightarrow> fileFails (processFile (processGPXFile parseGPX gpxStats) h) routePts f)
       \<and> (\<forall>g parseFIT fitStats f e.
             fileExtension (originalname f) = ''fit'' \<and> parseFIT (buffer f) = Returned (Inl e)
             \<longrightarrow> fileFails (processFile g (processFITFile parseFIT fitStats)) routePts f)"
proof -
  let ?fs = "bd_files batchData"
  have "length ([] :: 'b file_result list) + length ([] :: file_error list) = 0" by simp
  from processFiles_trace[OF this, of procFile routePts "bd_binLength batchData" "length ?fs" ?fs]
  obtain evs rs es where
    run: "processFiles procFile routePts (bd_binLength batchData) (length ?fs) 0 ?fs ([], [])
            = (evs, rs, es)"
    and ev: "map progressInfo evs
               = map (\<lambda>(k, f). Some (k + 1, k + 1, originalname f)) (List.enumerate 0 ?fs)"
    and er: "map fe_filename es = map originalname (filter (fileFails procFile routePts) ?fs)"
    and rr: "map fr_fileIndex rs
               = map fst (filter (\<lambda>(k, f). \<not> fileFails procFile routePts f) (List.enumerate 0 ?fs))"
    and ln: "length rs + length es = length ?fs"
    by auto
  have h: "processBatchHandler procFile routePts batchFiles batchId
              = (batchFiles(batchId := None),
                 EventStream
                   (ProgressEvent
                      \<lparr> pg_fileIndex = 0, pg_totalFiles = length ?fs,
                        pg_progressPercent = 0, pg_filesProcessed = 0,
                        pg_currentFile = ''Starting analysis...'',
                        pg_resultsSoFar = [], pg_errorsSoFar = [] \<rparr>
                    # evs
                    @ [CompleteEvent
                         \<lparr> done_totalFiles = length ?fs,
                           done_successfulFiles = length rs, done_failedFiles = length es,
                           done_results = rs, done_errors = es \<rparr>]))"
    using assms run by (simp add: processBatchHandler_def Let_def)
  have len: "length evs = length ?fs"
    using arg_cong[OF ev, of length] by simp
  have cnt: "filter isProgress evs = evs" "filter isComplete evs = []"
    using all_progress[OF ev] by simp_all
  have p: "length (filter isProgress
             (responseEvents (snd (processBatchHandler procFile routePts batchFiles batchId))))
           = length ?fs + 1"
    by (simp add: h responseEvents_def cnt len isProgress_def)
  have c: "length (filter isComplete
             (responseEvents (snd (processBatchHandler procFile routePts batchFiles batchId))))
           = 1"
    by (simp add: h responseEvents_def cnt isComplete_def)
  have d: "fst (processBatchHandler procFile routePts batchFiles batchId) batchId = None"
    by (simp add: h)
  have u: "\<forall>g h f. fileExtension (originalname f) \<noteq> ''gpx'' \<and> fileExtension (originalname f) \<noteq> ''fit''
             \<longrightarrow> fileFails (processFile g h) routePts f"
    using unsupported_extension_fails by blast
  have g1: "\<forall>parseGPX gpxStats h f message.
             fileExtension (originalname f) = ''gpx''
             \<and> parseGPX (buffer f) = Threw message \<and> message \<noteq> []
             \<longrightarrow> fileFails (processFile (processGPXFile parseGPX gpxStats) h) routePts f"
    using gpx_parse_error_fails by blast
  have g2: "\<forall>parseGPX gpxStats h f gpx.
             fileExtension (originalname f) = ''gpx''
             \<and> parseGPX (buffer f) = Returned gpx
             \<and> (tracks gpx = [] \<or> hd (tracks gpx) = [])
             \<and> (routes gpx = [] \<or> hd (routes gpx) = [])
             \<longrightarrow> fileFails (processFile (processGPXFile parseGPX gpxStats) h) routePts f"
    using gpx_without_points_fails by blast
  have g3: "\<forall>g parseFIT fitStats f e.
             fileExtension (originalname f) = ''fit'' \<and> parseFIT (buffer f) = Returned (Inl e)
             \<longrightarrow> fileFails (processFile g (processFITFile parseFIT fitStats)) routePts f"
    using fit_parse_error_fails by blast
  have first: "\<exists>evs rs es.
            processBatchHandler procFile routePts batchFiles batchId
              = (batchFiles(batchId := None),
                 EventStream
                   (ProgressEvent
                      \<lparr> pg_fileIndex = 0, pg_totalFiles = length (bd_files batchData),
                        pg_progressPercent = 0, pg_filesProcessed = 0,
                        pg_currentFile = ''Starting analysis...'',
                        pg_resultsSoFar = [], pg_errorsSoFar = [] \<rparr>
                    # evs
                    @ [CompleteEvent
                         \<lparr> done_totalFiles = length (bd_files batchData),
                           done_successfulFiles = length rs, done_failedFiles = length es,
                           done_results = rs, done_errors = es \<rparr>]))
            \<and> map progressInfo evs
                = map (\<lambda>(k, f). Some (k + 1, k + 1, originalname f))
                    (List.enumerate 0 (bd_files batchData))
            \<and> map fe_filename es
                = map originalname (filter (fileFails procFile routePts) (bd_files batchData))
            \<and> map fr_fileIndex rs
                = map fst (filter (\<lambda>(k, f). \<not> fileFails procFile routePts f)
                             (List.enumerate 0 (bd_files batchData)))
            \<and> length rs + length es = length (bd_files batchData)"
    using h ev er rr ln by blast
  show ?thesis
    by (intro conjI) (rule first, rule p, rule c, rule d, rule u, rule g1, rule g2, rule g3)
qed

lemma fileExtension_examples:
  "fileExtension ''a.gpx'' = ''gpx''" "fileExtension ''b.gpx'' = ''gpx''"
  "fileExtension ''c.gpx'' = ''gpx''"
  by code_simp+

lemma fileFails_threeFiles:
  "\<not> fileFails (processFile sampleGPX sampleFIT) (getRoutePoints sampleGPXRoute sampleFITRoute)
       \<lparr> originalname = ''a.gpx'', buffer = 2 \<rparr>"
  "fileFails (processFile sampleGPX sampleFIT) (getRoutePoints sampleGPXRoute sampleFITRoute)
       \<lparr> originalname = ''b.gpx'', buffer = 0 \<rparr>"
  "\<not> fileFails (processFile sampleGPX sampleFIT) (getRoutePoints sampleGPXRoute sampleFITRoute)
       \<lparr> originalname = ''c.gpx'', buffer = 2 \<rparr>"
  by (simp_all add: fileFails_def processFile_def getRoutePoints_def fileExtension_examples
        sampleGPX_def processGPXFile_def sampleParseGPX_def sampleGPXRoute_def halfTurn_def
        Let_def)

text \<open>
  Three files, the second corrupt: four events of type \<open>progress\<close> and one
  \<open>complete\<close> event.
\<close>

theorem batch_of_three_emits_four_progress_events:
  "length (filter isProgress
     (responseEvents (snd (processBatchHandler (processFile sampleGPX sampleFIT)
          (getRoutePoints sampleGPXRoute sampleFITRoute) sampleStore ''1700000000000''))))
     = 4
   \<and> length (filter isComplete
     (responseEvents (snd (processBatchHandler (processFile sampleGPX sampleFIT)
          (getRoutePoints sampleGPXRoute sampleFITRoute) sampleStore ''1700000000000''))))
     = 1
   \<and> length threeFiles = 3"
  by (simp add: processBatchHandler_def sampleStore_def threeFiles_def Let_def responseEvents_def
        isProgress_def isComplete_def split_beta)

theorem batch_events_and_isolation_witness:
  "sampleStore ''1700000000000''
     = Some \<lparr> bd_files = threeFiles, bd_binLength = 50, bd_timestamp = 1700000000000 \<rparr>
   \<and> map progressInfo
       (responseEvents (snd (processBatchHandler (processFile sampleGPX sampleFIT)
          (getRoutePoints sampleGPXRoute sampleFITRoute) sampleStore ''1700000000000'')))
     = [Some (0, 0, ''Starting analysis...''), Some (1, 1, ''a.gpx''), Some (2, 2, ''b.gpx''),
        Some (3, 3, ''c.gpx''), None]
   \<and> map (\<lambda>e. case e of
                CompleteEvent c \<Rightarrow>
                  Some (done_successfulFiles c, done_failedFiles c, map fr_fileIndex (done_results c),
                        map fe_filename (done_errors c))
              | _ \<Rightarrow> None)
       (filter isComplete
          (responseEvents (snd (processBatchHandler (processFile sampleGPX sampleFIT)
             (getRoutePoints sampleGPXRoute sampleFITRoute) sampleStore ''1700000000000''))))
     = [Some (2, 1, [0, 2], [''b.gpx''])]
   \<and> fst (processBatchHandler (processFile sampleGPX sampleFIT)
          (getRoutePoints sampleGPXRoute sampleFITRoute) sampleStore ''1700000000000'')
       ''1700000000000'' = None
   \<and> fileFails (processFile sampleGPX sampleFIT) (getRoutePoints sampleGPXRoute sampleFITRoute)
       \<lparr> originalname = ''notes.txt'', buffer = 2 \<rparr>
   \<and> fileFails (processFile sampleGPX sampleFIT) (getRoutePoints sampleGPXRoute sampleFITRoute)
       \<lparr> originalname = ''b.gpx'', buffer = 0 \<rparr>
   \<and> fileFails (processFile sampleGPX sampleFIT) (getRoutePoints sampleGPXRoute sampleFITRoute)
       \<lparr> originalname = ''empty.gpx'', buffer = 3 \<rparr>
   \<and> fileFails (processFile sampleGPX sampleFIT) (getRoutePoints sampleGPXRoute sampleFITRoute)
       \<lparr> originalname = ''d.fit'', buffer = 2 \<rparr>"
proof -
  have s: "sampleStore ''1700000000000''
     = Some \<lparr> bd_files = threeFiles, bd_binLength = 50, bd_timestamp = 1700000000000 \<rparr>"
    by (simp add: sampleStore_def)
  note th = batch_events_and_isolation[where batchFiles = sampleStore
         and batchId = "''1700000000000''"
         and procFile = "processFile sampleGPX sampleFIT"
         and routePts = "getRoutePoints sampleGPXRoute sampleFITRoute", OF s]
  from th obtain evs rs es where
    h: "processBatchHandler (processFile sampleGPX sampleFIT)
          (getRoutePoints sampleGPXRoute sampleFITRoute) sampleStore ''1700000000000''
        = (sampleStore(''1700000000000'' := None),
           EventStream
             (ProgressEvent
                \<lparr> pg_fileIndex = 0, pg_totalFiles = length threeFiles,
                  pg_progressPercent = 0, pg_filesProcessed = 0,
                  pg_currentFile = ''Starting analysis...'',
                  pg_resultsSoFar = [], pg_errorsSoFar = [] \<rparr>
              # evs
              @ [CompleteEvent
                   \<lparr> done_totalFiles = length threeFiles,
                     done_successfulFiles = length rs, done_failedFiles = length es,
                     done_results = rs, done_errors = es \<rparr>]))"
    and ev: "map progressInfo evs
                = map (\<lambda>(k, f). Some (k + 1, k + 1, originalname f)) (List.enumerate 0 threeFiles)"
    and er: "map fe_filename es
                = map originalname (filter (fileFails (processFile sampleGPX sampleFIT)
                     (getRoutePoints sampleGPXRoute sampleFITRoute)) threeFiles)"
    and rr: "map fr_fileIndex rs
                = map fst (filter (\<lambda>(k, f). \<not> fileFails (processFile sampleGPX sampleFIT)
                     (getRoutePoints sampleGPXRoute sampleFITRoute) f) (List.enumerate 0 threeFiles))"
    by auto
  have ev': "map progressInfo evs = [Some (1, 1, ''a.gpx''), Some (2, 2, ''b.gpx''), Some (3, 3, ''c.gpx'')]"
    using ev by (simp add: threeFiles_def enumerate_eq_zip upt_rec)
  have er': "map fe_filename es = [''b.gpx'']"
    using er by (simp add: threeFiles_def fileFails_threeFiles)
  have rr': "map fr_fileIndex rs = [0, 2]"
    using rr by (simp add: threeFiles_def fileFails_threeFiles enumerate_eq_zip upt_rec)
  have le: "length es = 1" using arg_cong[OF er', of length] by simp
  have lr: "length rs = 2" using arg_cong[OF rr', of length] by simp
  have cnt: "filter isComplete evs = []"
    using all_progress(2)[OF ev] .
  have x: "fileExtension ''notes.txt'' = ''txt''" "fileExtension ''empty.gpx'' = ''gpx''"
    "fileExtension ''d.fit'' = ''fit''" "fileExtension ''b.gpx'' = ''gpx''"
    by code_simp+
  from th have u: "\<forall>g h f. fileExtension (originalname f) \<noteq> ''gpx'' \<and> fileExtension (originalname f) \<noteq> ''fit''
             \<longrightarrow> fileFails (processFile (g :: nat \<Rightarrow> string \<Rightarrow> unit process_result outcome) h) (getRoutePoints sampleGPXRoute sampleFITRoute) f"
    by (elim conjE) assumption
  have f1: "fileFails (processFile sampleGPX sampleFIT) (getRoutePoints sampleGPXRoute sampleFITRoute)
       \<lparr> originalname = ''notes.txt'', buffer = 2 \<rparr>"
    using u[rule_format, of "\<lparr> originalname = ''notes.txt'', buffer = 2 \<rparr>" sampleGPX sampleFIT]
    by (simp add: x)
  from th have g1: "\<forall>parseGPX gpxStats h f message.
             fileExtension (originalname f) = ''gpx''
             \<and> parseGPX (buffer f) = Threw message \<and> message \<noteq> []
             \<longrightarrow> fileFails (processFile (processGPXFile (parseGPX :: nat \<Rightarrow> point gpx_data outcome)
                    (gpxStats :: point list \<Rightarrow> string \<Rightarrow> unit)) h) (getRoutePoints sampleGPXRoute sampleFITRoute) f"
    by (elim conjE) assumption
  have f2: "fileFails (processFile sampleGPX sampleFIT) (getRoutePoints sampleGPXRoute sampleFITRoute)
       \<lparr> originalname = ''b.gpx'', buffer = 0 \<rparr>"
    using g1[rule_format, where f = "\<lparr> originalname = ''b.gpx'', buffer = 0 \<rparr>"
               and parseGPX = sampleParseGPX and gpxStats = "\<lambda>rawPoints filename. ()"
               and h = sampleFIT and message = "''Non-whitespace before first tag.''"]
    by (simp add: x sampleGPX_def sampleParseGPX_def)
  from th have g2: "\<forall>parseGPX gpxStats h f gpx.
             fileExtension (originalname f) = ''gpx''
             \<and> parseGPX (buffer f) = Returned gpx
             \<and> (tracks gpx = [] \<or> hd (tracks gpx) = [])
             \<and> (routes gpx = [] \<or> hd (routes gpx) = [])
             \<longrightarrow> fileFails (processFile (processGPXFile (parseGPX :: nat \<Rightarrow> point gpx_data outcome)
                    (gpxStats :: point list \<Rightarrow> string \<Rightarrow> unit)) h) (getRoutePoints sampleGPXRoute sampleFITRoute) f"
    by (elim conjE) assumption
  have f3: "fileFails (processFile sampleGPX sampleFIT) (getRoutePoints sampleGPXRoute sampleFITRoute)
       \<lparr> originalname = ''empty.gpx'', buffer = 3 \<rparr>"
    using g2[rule_format, where f = "\<lparr> originalname = ''empty.gpx'', buffer = 3 \<rparr>"
               and parseGPX = sampleParseGPX and gpxStats = "\<lambda>rawPoints filename. ()"
               and h = sampleFIT and gpx = "\<lparr> tracks = [[]], routes = [] \<rparr>"]
    by (simp add: x sampleGPX_def sampleParseGPX_def)
  from th have g3: "\<forall>g parseFIT fitStats f e.
             fileExtension (originalname f) = ''fit'' \<and> parseFIT (buffer f) = Returned (Inl e)
             \<longrightarrow> fileFails (processFile g (processFITFile (parseFIT :: nat \<Rightarrow> (string + unit) outcome)
                    (fitStats :: unit \<Rightarrow> string \<Rightarrow> unit outcome))) (getRoutePoints sampleGPXRoute sampleFITRoute) f"
    by (elim conjE) assumption
  have f4: "fileFails (processFile sampleGPX sampleFIT) (getRoutePoints sampleGPXRoute sampleFITRoute)
       \<lparr> originalname = ''d.fit'', buffer = 2 \<rparr>"
    using g3[rule_format, where f = "\<lparr> originalname = ''d.fit'', buffer = 2 \<rparr>"
               and parseFIT = sampleParseFIT and fitStats = "\<lambda>data filename. Returned ()"
               and g = sampleGPX and e = "''File to small to be a FIT file''"]
    by (simp add: x sampleFIT_def sampleParseFIT_def)
  show ?thesis
    by (simp add: s h responseEvents_def ev' er' rr' le lr cnt isComplete_def f1 f2 f3 f4)
qed

end
